(* ===== verification/Prelude.thy ===== *)
theory Prelude
  imports Main "HOL-Library.AList" "HOL-Library.Multiset" "HOL-Library.List_Lexorder" "HOL-Library.Char_ord"
begin

section \<open>Shared vocabulary: Go maps, error results, loops\<close>

text \<open>
  The pieces every component theory uses.
  \<^item> A Go map is an association list: the list order is the order in which one \<open>range\<close>
    over the map visits it. Go leaves that order open, so a statement about all lists with
    distinct keys is a statement about every iteration order.
  \<^item> A function that returns \<open>(T, error)\<close> is a function into \<open>'e + 'a\<close>; a function that
    returns \<open>error\<close> alone is a function into \<open>'e option\<close>, with \<open>None\<close> for \<open>nil\<close>.
  \<^item> A nil map that the code tells from an empty one is an \<open>option\<close> of a map.
\<close>

named_theorems gomap_simps "lookups and well-formedness of Go maps"

subsection \<open>Go maps\<close>

type_synonym ('k, 'v) gomap = "('k \<times> 'v) list"

definition mwf :: "('k, 'v) gomap \<Rightarrow> bool" where
  "mwf m \<longleftrightarrow> distinct (map fst m)"

definition mput :: "'k \<Rightarrow> 'v \<Rightarrow> ('k, 'v) gomap \<Rightarrow> ('k, 'v) gomap" where
  "mput k v m = AList.update k v m"

definition mdel :: "'k \<Rightarrow> ('k, 'v) gomap \<Rightarrow> ('k, 'v) gomap" where
  "mdel k m = AList.delete k m"

text \<open>\<open>maps.Copy(dst, src)\<close>: one assignment for every entry of the source.\<close>

definition mcopy :: "('k, 'v) gomap \<Rightarrow> ('k, 'v) gomap \<Rightarrow> ('k, 'v) gomap" where
  "mcopy dst src = fold (\<lambda>(k, v). mput k v) src dst"

text \<open>Reading \<open>m[k]\<close> of a Go map whose zero value is the empty string.\<close>

definition mstr :: "(string, string) gomap \<Rightarrow> string \<Rightarrow> string" where
  "mstr m k = (case map_of m k of None \<Rightarrow> [] | Some v \<Rightarrow> v)"

text \<open>What the code relies on when it reads, writes and deletes entries.\<close>

locale go_map =
  fixes get :: "'m \<Rightarrow> 'k \<Rightarrow> 'v option"
    and put :: "'k \<Rightarrow> 'v \<Rightarrow> 'm \<Rightarrow> 'm"
    and del :: "'k \<Rightarrow> 'm \<Rightarrow> 'm"
    and wf :: "'m \<Rightarrow> bool"
  assumes get_put: "get (put k v m) = (get m)(k \<mapsto> v)"
    and get_del: "get (del k m) = (get m)(k := None)"
    and wf_put: "wf m \<Longrightarrow> wf (put k v m)"
    and wf_del: "wf m \<Longrightarrow> wf (del k m)"
begin

lemma get_fold_put:
  "get (fold (\<lambda>(k, v). put k v) kvs m) = get m ++ map_of (rev kvs)"
proof (induction kvs arbitrary: m)
  case Nil
  then show ?case by simp
next
  case (Cons kv kvs)
  then show ?case
    by (cases kv) (auto simp: get_put map_add_def fun_eq_iff split: option.splits)
qed

lemma wf_fold_put: "wf m \<Longrightarrow> wf (fold (\<lambda>(k, v). put k v) kvs m)"
  by (induction kvs arbitrary: m) (auto simp: wf_put)

lemma get_fold_del:
  "get (fold del ks m) = (\<lambda>k. if k \<in> set ks then None else get m k)"
  by (induction ks arbitrary: m) (auto simp: get_del fun_eq_iff)

end

lemma mwf_Nil [simp, intro]: "mwf []"
  by (simp add: mwf_def)

lemma mwf_Cons [gomap_simps]: "mwf (p # m) \<longleftrightarrow> fst p \<notin> fst ` set m \<and> mwf m"
  by (auto simp: mwf_def)

interpretation gm: go_map map_of mput mdel mwf
  by unfold_locales
    (auto simp: mput_def mdel_def mwf_def update_conv' delete_conv' distinct_update distinct_delete)

lemmas gm_lookup [gomap_simps] = gm.get_put gm.get_del
lemmas gm_wf [gomap_simps, intro] = gm.wf_put gm.wf_del

lemma mput_Nil [simp]: "mput k v [] = [(k, v)]"
  by (simp add: mput_def)

lemma mput_Cons [simp]:
  "mput k v ((k', v') # m) = (if k' = k then (k, v) # m else (k', v') # mput k v m)"
  by (simp add: mput_def)

lemma mdel_Nil [simp]: "mdel k [] = []"
  by (simp add: mdel_def)

lemma mdel_Cons [simp]:
  "mdel k ((k', v') # m) = (if k = k' then mdel k m else (k', v') # mdel k m)"
  by (simp add: mdel_def)

lemma fst_set_mput: "fst ` set (mput k v m) = insert k (fst ` set m)"
  by (simp add: mput_def dom_update)

lemma set_mdel: "set (mdel k m) = {p \<in> set m. fst p \<noteq> k}"
  by (auto simp: mdel_def AList.delete_eq)

lemma mput_new: "k \<notin> fst ` set m \<Longrightarrow> mput k v m = m @ [(k, v)]"
  by (induction m) (auto simp: mput_def)

lemma map_of_same_value:
  assumes "distinct (map snd m)" and "map_of m k = Some v" and "map_of m k' = Some v"
  shows "k' = k"
  using assms inj_onD [of snd "set m" "(k', v)" "(k, v)"]
  by (auto simp: distinct_map dest: map_of_SomeD)

lemma map_of_rev_wf: "mwf m \<Longrightarrow> map_of (rev m) = map_of m"
proof (induction m)
  case (Cons p m)
  then have "map_of m (fst p) = None"
    by (simp add: mwf_Cons map_of_eq_None_iff)
  with Cons show ?case
    by (cases p) (auto simp: mwf_Cons map_add_def fun_eq_iff split: option.splits)
qed simp

lemma map_of_mcopy [gomap_simps]: "mwf src \<Longrightarrow> map_of (mcopy dst src) = map_of dst ++ map_of src"
  by (simp add: mcopy_def gm.get_fold_put map_of_rev_wf)

lemma mwf_mcopy [gomap_simps, intro]: "mwf dst \<Longrightarrow> mwf (mcopy dst src)"
  by (simp add: mcopy_def gm.wf_fold_put)

lemma mwf_get: "mwf m \<Longrightarrow> (k, v) \<in> set m \<Longrightarrow> map_of m k = Some v"
  by (simp add: mwf_def)

lemma mwf_get_iff: "mwf m \<Longrightarrow> map_of m k = Some v \<longleftrightarrow> (k, v) \<in> set m"
  by (simp add: mwf_def)

lemma mwf_map_snd: "mwf m \<Longrightarrow> mwf (map (\<lambda>(k, v). (k, f k v)) m)"
  by (simp add: mwf_def map_map comp_def split_beta)

lemma mwf_filter: "mwf m \<Longrightarrow> mwf (filter P m)"
  by (simp add: mwf_def distinct_map_filter)

text \<open>
  Two iteration orders of one Go map are two lists with the same entries; a lookup does not
  see the difference.
\<close>

lemma map_of_perm:
  assumes "mset m = mset m'" and "mwf m"
  shows "map_of m = map_of m'"
proof -
  have "set m = set m'"
    using assms(1) by (rule mset_eq_setD)
  have "mset (map fst m) = mset (map fst m')"
    using assms(1) by simp
  then have "distinct (map fst m')"
    using assms(2) mset_eq_imp_distinct_iff unfolding mwf_def by blast
  with assms(2) \<open>set m = set m'\<close> show ?thesis
    by (simp add: mwf_def map_of_inject_set)
qed

subsection \<open>Loops that append\<close>

lemma fold_append_filter:
  "fold (\<lambda>x acc. if P x then acc @ [f x] else acc) xs acc = acc @ map f (filter P xs)"
  by (induction xs arbitrary: acc) simp_all

subsection \<open>Sums along a Go map\<close>

text \<open>
  Replacing, adding or removing one entry of a map changes a sum over its values by that
  entry alone.
\<close>

lemma sum_list_mput:
  fixes f :: "'k \<times> 'v \<Rightarrow> 'a::ab_group_add"
  assumes "mwf m"
  shows "sum_list (map f (mput k v m)) =
    sum_list (map f m) - (case map_of m k of None \<Rightarrow> 0 | Some w \<Rightarrow> f (k, w)) + f (k, v)"
  using assms
proof (induction m)
  case Nil
  then show ?case by simp
next
  case (Cons p m)
  then show ?case
    by (cases p) (auto simp: mwf_Cons algebra_simps split: option.splits)
qed

subsection \<open>Results\<close>

text \<open>The run-time panics of Go that the code can reach.\<close>

datatype go_panic = NilDereference | NilMapWrite | CloseOfClosedChannel | FailedTypeAssertion

fun sum_bind :: "'e + 'a \<Rightarrow> ('a \<Rightarrow> 'e + 'b) \<Rightarrow> 'e + 'b" where
  "sum_bind (Inl e) f = Inl e"
| "sum_bind (Inr x) f = f x"

lemma sum_bind_Inr_iff: "sum_bind r f = Inr y \<longleftrightarrow> (\<exists>x. r = Inr x \<and> f x = Inr y)"
  by (cases r) auto

lemma sum_bind_Inl_iff: "sum_bind r f = Inl e \<longleftrightarrow> r = Inl e \<or> (\<exists>x. r = Inr x \<and> f x = Inl e)"
  by (cases r) auto

text \<open>A list of results, stopping at the first error as a Go loop with an early return does.\<close>

fun sum_map :: "('a \<Rightarrow> 'e + 'b) \<Rightarrow> 'a list \<Rightarrow> 'e + 'b list" where
  "sum_map f [] = Inr []"
| "sum_map f (x # xs) = sum_bind (f x) (\<lambda>y. sum_bind (sum_map f xs) (\<lambda>ys. Inr (y # ys)))"

subsection \<open>Lists taken apart\<close>

lemma image_filtered: "N \<subseteq> f ` set xs \<Longrightarrow> N = f ` set (filter (\<lambda>x. f x \<in> N) xs)"
  unfolding set_filter by blast

lemma sum_list_split:
  fixes f :: "'a \<Rightarrow> 'b :: comm_monoid_add"
  shows "(\<Sum>x \<leftarrow> xs. f x) = (\<Sum>x \<leftarrow> filter P xs. f x) + (\<Sum>x \<leftarrow> filter (\<lambda>x. \<not> P x) xs. f x)"
  by (induction xs) (auto simp: ac_simps)

end
