(* ===== verification/Kube_Types.thy ===== *)
theory Kube_Types
  imports Prelude
begin

section \<open>The API types\<close>

text \<open>
  The types of \<open>apis/quota/v1/types.go\<close> and the fields of the Kubernetes types they embed.
  A Kubernetes struct the code embeds (\<open>ObjectMeta\<close>, \<open>ResourceQuotaSpec\<close>, ...) is a record of
  the fields the code reads or writes; its other fields are carried along unread, so they are
  left out. A field name starts with the initials of its type, because Isabelle records share
  one name space.

  A \<open>resource.Quantity\<close> is an exact decimal number with at most nine decimal places. The model
  keeps its value, counted in units of \<open>10\<^sup>-\<^sup>9\<close>; its printed form is a parameter where the code
  prints it.
\<close>

subsection \<open>Quantities and resource lists\<close>

datatype quantity = Quantity (nanos: int)

instantiation quantity :: "{ab_group_add, linorder}"
begin

definition zero_quantity :: quantity where
  "0 = Quantity 0"

definition plus_quantity :: "quantity \<Rightarrow> quantity \<Rightarrow> quantity" where
  "a + b = Quantity (nanos a + nanos b)"

definition minus_quantity :: "quantity \<Rightarrow> quantity \<Rightarrow> quantity" where
  "a - b = Quantity (nanos a - nanos b)"

definition uminus_quantity :: "quantity \<Rightarrow> quantity" where
  "- a = Quantity (- nanos a)"

definition less_eq_quantity :: "quantity \<Rightarrow> quantity \<Rightarrow> bool" where
  "a \<le> b \<longleftrightarrow> nanos a \<le> nanos b"

definition less_quantity :: "quantity \<Rightarrow> quantity \<Rightarrow> bool" where
  "a < b \<longleftrightarrow> nanos a < nanos b"

instance
  by intro_classes
    (auto simp: zero_quantity_def plus_quantity_def minus_quantity_def uminus_quantity_def
      less_eq_quantity_def less_quantity_def intro: quantity.expand)

end

instance quantity :: ordered_ab_group_add
  by intro_classes (simp add: plus_quantity_def less_eq_quantity_def)

instance quantity :: linordered_ab_group_add ..

lemma quantity_simps [simp]:
  "Quantity m + Quantity n = Quantity (m + n)"
  "Quantity m - Quantity n = Quantity (m - n)"
  "- Quantity m = Quantity (- m)"
  "Quantity m \<le> Quantity n \<longleftrightarrow> m \<le> n"
  "Quantity m < Quantity n \<longleftrightarrow> m < n"
  "Quantity m = 0 \<longleftrightarrow> m = 0"
  by (simp_all add: zero_quantity_def plus_quantity_def minus_quantity_def uminus_quantity_def
      less_eq_quantity_def less_quantity_def)

lemma nanos_simps [simp]:
  "nanos 0 = 0" "nanos (a + b) = nanos a + nanos b" "nanos (a - b) = nanos a - nanos b"
  "nanos (- a) = - nanos a"
  by (simp_all add: zero_quantity_def plus_quantity_def minus_quantity_def uminus_quantity_def)

text \<open>\<open>corev1.ResourceList\<close>; no operation of the code tells a nil list from an empty one.\<close>

type_synonym resource_list = "(string, quantity) gomap"

text \<open>The amount a list holds of one resource, zero when it does not name it.\<close>

definition rval :: "resource_list \<Rightarrow> string \<Rightarrow> quantity" where
  "rval rl k = (case map_of rl k of None \<Rightarrow> 0 | Some q \<Rightarrow> q)"

lemma rval_Nil [simp]: "rval [] k = 0"
  by (simp add: rval_def)

lemma rval_Cons [simp]: "rval ((k', q) # rl) k = (if k = k' then q else rval rl k)"
  by (simp add: rval_def)

lemma rval_Some: "map_of rl k = Some q \<Longrightarrow> rval rl k = q"
  by (simp add: rval_def)

subsection \<open>Metadata\<close>

type_synonym labels = "(string, string) gomap"

record type_meta =
  tm_Kind :: string
  tm_APIVersion :: string

record owner_reference =
  or_Kind :: string
  or_Name :: string
  or_UID :: string

record object_meta =
  om_Name :: string
  om_Namespace :: string
  om_UID :: string
  om_ResourceVersion :: string
  om_DeletionTimestamp :: "int option"
  om_Labels :: "labels option"
  om_Annotations :: "labels option"
  om_OwnerReferences :: "owner_reference list"
  om_Finalizers :: "string list"

record list_meta =
  lm_SelfLink :: string
  lm_ResourceVersion :: string
  lm_Continue :: string
  lm_RemainingItemCount :: "int option"

record label_selector_requirement =
  lsr_Key :: string
  lsr_Operator :: string
  lsr_Values :: "string list"

record label_selector =
  ls_MatchLabels :: labels
  ls_MatchExpressions :: "label_selector_requirement list"

definition empty_type_meta :: type_meta where
  "empty_type_meta = \<lparr>tm_Kind = [], tm_APIVersion = []\<rparr>"

definition empty_object_meta :: object_meta where
  "empty_object_meta = \<lparr>om_Name = [], om_Namespace = [], om_UID = [], om_ResourceVersion = [],
     om_DeletionTimestamp = None, om_Labels = None, om_Annotations = None,
     om_OwnerReferences = [], om_Finalizers = []\<rparr>"

subsection \<open>The core quota types\<close>

text \<open>The operator of a scope selector: the four values the API has, or any other string.\<close>

datatype scope_operator = OpIn | OpNotIn | OpExists | OpDoesNotExist | OpOther string

record scoped_selector =
  ss_ScopeName :: string
  ss_Operator :: scope_operator
  ss_Values :: "string list"

record rq_spec =
  rqs_Hard :: resource_list
  rqs_Scopes :: "string list"
  rqs_ScopeSelector :: "scoped_selector list option"

record rq_status =
  rqst_Hard :: resource_list
  rqst_Used :: resource_list

definition empty_rq_spec :: rq_spec where
  "empty_rq_spec = \<lparr>rqs_Hard = [], rqs_Scopes = [], rqs_ScopeSelector = None\<rparr>"

definition empty_rq_status :: rq_status where
  "empty_rq_status = \<lparr>rqst_Hard = [], rqst_Used = []\<rparr>"

text \<open>\<open>corev1.ResourceQuota\<close> and its list.\<close>

record core_resource_quota =
  crv1_TypeMeta :: type_meta
  crv1_ObjectMeta :: object_meta
  crv1_Spec :: rq_spec
  crv1_Status :: rq_status

record core_resource_quota_list =
  crv1l_ListMeta :: list_meta
  crv1l_Items :: "core_resource_quota list"

text \<open>\<open>corev1.Namespace\<close>.\<close>

record kube_namespace =
  ns_ObjectMeta :: object_meta

subsection \<open>\<open>apis/quota/v1/types.go\<close>\<close>

record namespace_resource_quota =
  nrq_Name :: string
  nrq_Used :: resource_list

record cluster_resource_quota_spec =
  crqs_ResourceQuotaSpec :: rq_spec
  crqs_NamespaceSelector :: "label_selector option"

record cluster_resource_quota_status =
  crqst_ResourceQuotaStatus :: rq_status
  crqst_Namespaces :: "namespace_resource_quota list"

record cluster_resource_quota =
  crq_TypeMeta :: type_meta
  crq_ObjectMeta :: object_meta
  crq_Spec :: cluster_resource_quota_spec
  crq_Status :: cluster_resource_quota_status

record cluster_resource_quota_list =
  crql_TypeMeta :: type_meta
  crql_ListMeta :: list_meta
  crql_Items :: "cluster_resource_quota list"

record resource_quota =
  rq_TypeMeta :: type_meta
  rq_ObjectMeta :: object_meta
  rq_Spec :: rq_spec
  rq_Status :: rq_status

record resource_quota_list =
  rql_TypeMeta :: type_meta
  rql_ListMeta :: list_meta
  rql_Items :: "resource_quota list"

text \<open>
  Go writes the fields of an embedded struct as fields of the outer one. These abbreviations
  read them the same way.
\<close>

abbreviation crq_Name :: "cluster_resource_quota \<Rightarrow> string" where
  "crq_Name c \<equiv> om_Name (crq_ObjectMeta c)"

abbreviation crq_Labels :: "cluster_resource_quota \<Rightarrow> labels option" where
  "crq_Labels c \<equiv> om_Labels (crq_ObjectMeta c)"

abbreviation crq_DeletionTimestamp :: "cluster_resource_quota \<Rightarrow> int option" where
  "crq_DeletionTimestamp c \<equiv> om_DeletionTimestamp (crq_ObjectMeta c)"

abbreviation crq_Spec_Hard :: "cluster_resource_quota \<Rightarrow> resource_list" where
  "crq_Spec_Hard c \<equiv> rqs_Hard (crqs_ResourceQuotaSpec (crq_Spec c))"

abbreviation crq_Status_Hard :: "cluster_resource_quota \<Rightarrow> resource_list" where
  "crq_Status_Hard c \<equiv> rqst_Hard (crqst_ResourceQuotaStatus (crq_Status c))"

abbreviation crq_Status_Used :: "cluster_resource_quota \<Rightarrow> resource_list" where
  "crq_Status_Used c \<equiv> rqst_Used (crqst_ResourceQuotaStatus (crq_Status c))"

abbreviation crq_Status_Namespaces :: "cluster_resource_quota \<Rightarrow> namespace_resource_quota list" where
  "crq_Status_Namespaces c \<equiv> crqst_Namespaces (crq_Status c)"

abbreviation rq_Namespace :: "resource_quota \<Rightarrow> string" where
  "rq_Namespace q \<equiv> om_Namespace (rq_ObjectMeta q)"

abbreviation rq_Labels :: "resource_quota \<Rightarrow> labels option" where
  "rq_Labels q \<equiv> om_Labels (rq_ObjectMeta q)"

abbreviation rq_Status_Used :: "resource_quota \<Rightarrow> resource_list" where
  "rq_Status_Used q \<equiv> rqst_Used (rq_Status q)"

abbreviation rq_Status_Hard :: "resource_quota \<Rightarrow> resource_list" where
  "rq_Status_Hard q \<equiv> rqst_Hard (rq_Status q)"

text \<open>Assignments to such a field.\<close>

definition set_crq_Used :: "resource_list \<Rightarrow> cluster_resource_quota \<Rightarrow> cluster_resource_quota" where
  "set_crq_Used u c = c\<lparr>crq_Status := (crq_Status c)\<lparr>crqst_ResourceQuotaStatus :=
     (crqst_ResourceQuotaStatus (crq_Status c))\<lparr>rqst_Used := u\<rparr>\<rparr>\<rparr>"

definition set_crq_Hard :: "resource_list \<Rightarrow> cluster_resource_quota \<Rightarrow> cluster_resource_quota" where
  "set_crq_Hard h c = c\<lparr>crq_Status := (crq_Status c)\<lparr>crqst_ResourceQuotaStatus :=
     (crqst_ResourceQuotaStatus (crq_Status c))\<lparr>rqst_Hard := h\<rparr>\<rparr>\<rparr>"

definition set_crq_Namespaces :: "namespace_resource_quota list \<Rightarrow> cluster_resource_quota \<Rightarrow> cluster_resource_quota" where
  "set_crq_Namespaces ns c = c\<lparr>crq_Status := (crq_Status c)\<lparr>crqst_Namespaces := ns\<rparr>\<rparr>"

lemma set_crq_simps [simp]:
  "crq_Status_Used (set_crq_Used u c) = u"
  "crq_Status_Hard (set_crq_Used u c) = crq_Status_Hard c"
  "crq_Status_Namespaces (set_crq_Used u c) = crq_Status_Namespaces c"
  "crq_ObjectMeta (set_crq_Used u c) = crq_ObjectMeta c"
  "crq_Spec (set_crq_Used u c) = crq_Spec c"
  "crq_Status_Used (set_crq_Hard h c) = crq_Status_Used c"
  "crq_Status_Hard (set_crq_Hard h c) = h"
  "crq_Status_Namespaces (set_crq_Hard h c) = crq_Status_Namespaces c"
  "crq_ObjectMeta (set_crq_Hard h c) = crq_ObjectMeta c"
  "crq_Spec (set_crq_Hard h c) = crq_Spec c"
  "crq_Status_Used (set_crq_Namespaces ns c) = crq_Status_Used c"
  "crq_Status_Hard (set_crq_Namespaces ns c) = crq_Status_Hard c"
  "crq_Status_Namespaces (set_crq_Namespaces ns c) = ns"
  "crq_ObjectMeta (set_crq_Namespaces ns c) = crq_ObjectMeta c"
  "crq_Spec (set_crq_Namespaces ns c) = crq_Spec c"
  by (simp_all add: set_crq_Used_def set_crq_Hard_def set_crq_Namespaces_def)

text \<open>A freshly allocated, empty object: \<open>&quotav1.ResourceQuota{}\<close>.\<close>

definition empty_resource_quota :: resource_quota where
  "empty_resource_quota = \<lparr>rq_TypeMeta = empty_type_meta, rq_ObjectMeta = empty_object_meta,
     rq_Spec = empty_rq_spec, rq_Status = empty_rq_status\<rparr>"

subsection \<open>Names\<close>

text \<open>\<open>schema.GroupResource\<close> and \<open>schema.GroupVersionResource\<close>.\<close>

record group_resource =
  gr_Group :: string
  gr_Resource :: string

record group_version_resource =
  gvr_Group :: string
  gvr_Version :: string
  gvr_Resource :: string

text \<open>\<open>common.GroupPrefix\<close> of \<open>xiaoshiai.cn/common\<close>, as the deployed manifests spell it.\<close>

definition GroupPrefix :: string where
  "GroupPrefix = ''xiaoshiai.cn''"

definition GroupName :: string where
  "GroupName = ''quota.'' @ GroupPrefix"

definition LabelClusterResourceQuota :: string where
  "LabelClusterResourceQuota = ''clusterresourcequota.'' @ GroupPrefix"

definition ClusterResourceQuotaFinalizer :: string where
  "ClusterResourceQuotaFinalizer = ''clusterresourcequota.finalizers.'' @ GroupPrefix"

text \<open>
  \<open>Labels[LabelClusterResourceQuota]\<close> with the empty string for a nil map or a missing key, as
  every handler reads it.
\<close>

definition managed_by :: "labels option \<Rightarrow> string" where
  "managed_by ls = (case ls of None \<Rightarrow> [] | Some m \<Rightarrow> mstr m LabelClusterResourceQuota)"

lemma managed_by_simps [simp]:
  "managed_by None = []"
  "managed_by (Some m) = mstr m LabelClusterResourceQuota"
  by (simp_all add: managed_by_def)

end
