(* ===== verification/Externals.thy ===== *)
theory Externals
  imports Kube_Types
begin

section \<open>The code outside the repository\<close>

text \<open>
  The program calls the Kubernetes libraries and the API server. None of that code is in the
  repository, so each library is an interface here: a record of the operations the code calls,
  which is an argument of every definition that calls one, and a locale of the documented laws
  the theorems rely on. Each locale is interpreted on a reference implementation of the same
  laws, which the witnesses run.
\<close>

named_theorems ext_simps "consequences of the laws of the libraries"

subsection \<open>Errors: \<open>fmt\<close>, \<open>k8s.io/apimachinery/pkg/api/errors\<close>, \<open>.../util/errors\<close>\<close>

text \<open>
  The arguments of a format string. No theorem depends on what a formatted message says, so
  \<open>fmt.Errorf\<close> stays a parameter that receives the format and the arguments.
\<close>

datatype 'e fmt_arg =
  FStr string
| FErr 'e
| FSelector scoped_selector
| FOperator scope_operator

record 'e err_lib =
  IsNotFound :: "'e \<Rightarrow> bool"
  IsForbidden :: "'e \<Rightarrow> bool"
  IsConflict :: "'e \<Rightarrow> bool"
  NewForbidden :: "'e \<Rightarrow> 'e"
  NewBadRequest :: "string \<Rightarrow> 'e"
  NewMethodNotSupported :: "string \<Rightarrow> string \<Rightarrow> 'e"
  NewAggregate :: "'e list \<Rightarrow> 'e option"
  Errorf :: "string \<Rightarrow> 'e fmt_arg list \<Rightarrow> 'e"

text \<open>
  A status error has one reason; \<open>NewForbidden\<close> gives the reason Forbidden; an aggregate of no
  errors is nil.
\<close>

locale api_errors =
  fixes E :: "'e err_lib"
  assumes forbidden_new: "IsForbidden E (NewForbidden E e)"
    and forbidden_not_conflict: "IsForbidden E e \<Longrightarrow> \<not> IsConflict E e"
    and forbidden_not_notfound: "IsForbidden E e \<Longrightarrow> \<not> IsNotFound E e"
    and aggregate_None: "NewAggregate E es = None \<longleftrightarrow> es = []"
begin

lemma new_forbidden [simp]:
  "IsForbidden E (NewForbidden E e)"
  "\<not> IsConflict E (NewForbidden E e)"
  "\<not> IsNotFound E (NewForbidden E e)"
  using forbidden_new forbidden_not_conflict forbidden_not_notfound by blast+

end

datatype ref_error =
  RStatus nat string
| RPlain string
| RWrap string ref_error
| RAggregate "ref_error list"

fun ref_code :: "ref_error \<Rightarrow> nat option" where
  "ref_code (RStatus c m) = Some c"
| "ref_code (RPlain m) = None"
| "ref_code (RWrap m e) = ref_code e"
| "ref_code (RAggregate es) = None"

text \<open>A format that ends in \<open>%w\<close> wraps its last argument.\<close>

fun ref_Errorf :: "string \<Rightarrow> ref_error fmt_arg list \<Rightarrow> ref_error" where
  "ref_Errorf f args =
    (case rev args of
      FErr e # _ \<Rightarrow> if take 2 (rev f) = ''w%'' then RWrap f e else RPlain f
    | _ \<Rightarrow> RPlain f)"

definition ref_errs :: "ref_error err_lib" where
  "ref_errs = \<lparr>
     IsNotFound = (\<lambda>e. ref_code e = Some 404),
     IsForbidden = (\<lambda>e. ref_code e = Some 403),
     IsConflict = (\<lambda>e. ref_code e = Some 409),
     NewForbidden = (\<lambda>e. RStatus 403 ''forbidden''),
     NewBadRequest = RStatus 400,
     NewMethodNotSupported = (\<lambda>r a. RStatus 405 a),
     NewAggregate = (\<lambda>es. if es = [] then None else Some (RAggregate es)),
     Errorf = ref_Errorf\<rparr>"

interpretation ref_errs: api_errors ref_errs
  by unfold_locales (simp_all add: ref_errs_def)

subsection \<open>Arithmetic of resource lists: \<open>k8s.io/apiserver/pkg/quota/v1\<close>\<close>

record quota_lib =
  qAdd :: "resource_list \<Rightarrow> resource_list \<Rightarrow> resource_list"
  qSubtract :: "resource_list \<Rightarrow> resource_list \<Rightarrow> resource_list"
  qLessThanOrEqual :: "resource_list \<Rightarrow> resource_list \<Rightarrow> bool \<times> string list"
  qMask :: "resource_list \<Rightarrow> string list \<Rightarrow> resource_list"

text \<open>
  The documented behaviour: \<open>Add\<close> and \<open>Subtract\<close> give the sum and the difference for each named
  resource of either list; \<open>LessThanOrEqual(a, b)\<close> compares the resources that both lists name and
  returns the names of \<open>a\<close> that exceed \<open>b\<close>; \<open>Mask\<close> keeps the named resources only.
\<close>

locale quota_arith =
  fixes Q :: quota_lib
  assumes Add_lookup: "map_of (qAdd Q a b) k =
      (case (map_of a k, map_of b k) of
        (None, y) \<Rightarrow> y | (x, None) \<Rightarrow> x | (Some x, Some y) \<Rightarrow> Some (x + y))"
    and Subtract_lookup: "map_of (qSubtract Q a b) k =
      (case (map_of a k, map_of b k) of
        (None, None) \<Rightarrow> None | (None, Some y) \<Rightarrow> Some (- y)
      | (Some x, None) \<Rightarrow> Some x | (Some x, Some y) \<Rightarrow> Some (x - y))"
    and LessThanOrEqual_exceeded: "set (snd (qLessThanOrEqual Q a b)) =
      {k. \<exists>x y. map_of a k = Some x \<and> map_of b k = Some y \<and> y < x}"
    and LessThanOrEqual_ok: "fst (qLessThanOrEqual Q a b) \<longleftrightarrow> snd (qLessThanOrEqual Q a b) = []"
    and Mask_lookup: "map_of (qMask Q a ks) k = (if k \<in> set ks then map_of a k else None)"
    and Add_wf: "mwf a \<Longrightarrow> mwf b \<Longrightarrow> mwf (qAdd Q a b)"
    and Subtract_wf: "mwf a \<Longrightarrow> mwf b \<Longrightarrow> mwf (qSubtract Q a b)"
begin

lemma rval_Add [simp]: "rval (qAdd Q a b) k = rval a k + rval b k"
  by (auto simp: rval_def Add_lookup split: option.splits)

lemma rval_Subtract [simp]: "rval (qSubtract Q a b) k = rval a k - rval b k"
  by (auto simp: rval_def Subtract_lookup split: option.splits)

lemma Add_None_iff: "map_of (qAdd Q a b) k = None \<longleftrightarrow> map_of a k = None \<and> map_of b k = None"
  by (auto simp: Add_lookup split: option.splits)

lemma Subtract_None_iff:
  "map_of (qSubtract Q a b) k = None \<longleftrightarrow> map_of a k = None \<and> map_of b k = None"
  by (auto simp: Subtract_lookup split: option.splits)

text \<open>A loop that adds up lists: the amount of one resource is the sum of the amounts.\<close>

lemma rval_fold_Add:
  "rval (fold (\<lambda>x t. qAdd Q t (f x)) xs t0) k = rval t0 k + sum_list (map (\<lambda>x. rval (f x) k) xs)"
  by (induction xs arbitrary: t0) (simp_all add: add.assoc)

lemma fold_Add_None_iff:
  "map_of (fold (\<lambda>x t. qAdd Q t (f x)) xs t0) k = None \<longleftrightarrow>
   map_of t0 k = None \<and> (\<forall>x \<in> set xs. map_of (f x) k = None)"
  by (induction xs arbitrary: t0) (auto simp: Add_None_iff)

lemma fold_Add_wf:
  "mwf t0 \<Longrightarrow> (\<And>x. x \<in> set xs \<Longrightarrow> mwf (f x)) \<Longrightarrow> mwf (fold (\<lambda>x t. qAdd Q t (f x)) xs t0)"
  by (induction xs arbitrary: t0) (auto simp: Add_wf)

lemma LessThanOrEqual_iff:
  "fst (qLessThanOrEqual Q a b) \<longleftrightarrow>
   (\<forall>k x y. map_of a k = Some x \<longrightarrow> map_of b k = Some y \<longrightarrow> x \<le> y)"
proof -
  have "fst (qLessThanOrEqual Q a b) \<longleftrightarrow> set (snd (qLessThanOrEqual Q a b)) = {}"
    by (simp add: LessThanOrEqual_ok)
  also have "\<dots> \<longleftrightarrow> (\<forall>k x y. map_of a k = Some x \<longrightarrow> map_of b k = Some y \<longrightarrow> x \<le> y)"
    by (auto simp: LessThanOrEqual_exceeded not_less)
  finally show ?thesis .
qed

end

definition ref_Add :: "resource_list \<Rightarrow> resource_list \<Rightarrow> resource_list" where
  "ref_Add a b = map (\<lambda>(k, q). (k, q + rval b k)) a @ filter (\<lambda>(k, q). map_of a k = None) b"

definition ref_Subtract :: "resource_list \<Rightarrow> resource_list \<Rightarrow> resource_list" where
  "ref_Subtract a b = ref_Add a (map (\<lambda>(k, q). (k, - q)) b)"

definition ref_exceeded :: "resource_list \<Rightarrow> resource_list \<Rightarrow> string list" where
  "ref_exceeded a b = filter (\<lambda>k. case (map_of a k, map_of b k) of
     (Some x, Some y) \<Rightarrow> y < x | _ \<Rightarrow> False) (map fst b)"

definition ref_quota :: quota_lib where
  "ref_quota = \<lparr>
     qAdd = ref_Add,
     qSubtract = ref_Subtract,
     qLessThanOrEqual = (\<lambda>a b. (ref_exceeded a b = [], ref_exceeded a b)),
     qMask = (\<lambda>a ks. filter (\<lambda>(k, q). k \<in> set ks) a)\<rparr>"

lemma map_of_map_snd: "map_of (map (\<lambda>(k, q). (k, f k q)) m) k = map_option (f k) (map_of m k)"
  by (induction m) auto

lemma map_of_filter_key:
  "map_of (filter (\<lambda>(k, q). P k) m) k = (if P k then map_of m k else None)"
  by (induction m) auto

lemma ref_Add_lookup:
  "map_of (ref_Add a b) k =
    (case (map_of a k, map_of b k) of
      (None, y) \<Rightarrow> y | (x, None) \<Rightarrow> x | (Some x, Some y) \<Rightarrow> Some (x + y))"
proof -
  have "map_of (map (\<lambda>(k, q). (k, q + rval b k)) a) k = map_option (\<lambda>q. q + rval b k) (map_of a k)"
    using map_of_map_snd [of "\<lambda>k q. q + rval b k" a k] by simp
  then show ?thesis
    by (auto simp: ref_Add_def map_add_def map_of_filter_key rval_def split: option.splits)
qed

lemma ref_Add_wf: "mwf a \<Longrightarrow> mwf b \<Longrightarrow> mwf (ref_Add a b)"
  by (auto simp: ref_Add_def mwf_def distinct_map_filter map_of_eq_None_iff comp_def split_beta
      intro: rev_image_eqI)

interpretation ref_quota: quota_arith ref_quota
proof unfold_locales
  fix a b :: resource_list and k ks
  show "map_of (qAdd ref_quota a b) k =
      (case (map_of a k, map_of b k) of
        (None, y) \<Rightarrow> y | (x, None) \<Rightarrow> x | (Some x, Some y) \<Rightarrow> Some (x + y))"
    by (simp add: ref_quota_def ref_Add_lookup)
  show "map_of (qSubtract ref_quota a b) k =
      (case (map_of a k, map_of b k) of
        (None, None) \<Rightarrow> None | (None, Some y) \<Rightarrow> Some (- y)
      | (Some x, None) \<Rightarrow> Some x | (Some x, Some y) \<Rightarrow> Some (x - y))"
    by (auto simp: ref_quota_def ref_Subtract_def ref_Add_lookup map_of_map_snd split: option.splits)
  show "set (snd (qLessThanOrEqual ref_quota a b)) =
      {k. \<exists>x y. map_of a k = Some x \<and> map_of b k = Some y \<and> y < x}"
    by (auto simp: ref_quota_def ref_exceeded_def split: option.splits)
      (metis domI dom_map_of_conv_image_fst image_iff)
  show "fst (qLessThanOrEqual ref_quota a b) \<longleftrightarrow> snd (qLessThanOrEqual ref_quota a b) = []"
    by (simp add: ref_quota_def)
  show "map_of (qMask ref_quota a ks) k = (if k \<in> set ks then map_of a k else None)"
    using map_of_filter_key [of "\<lambda>k. k \<in> set ks" a k] by (simp add: ref_quota_def)
  show "mwf (qAdd ref_quota a b)" if "mwf a" "mwf b"
    using that by (simp add: ref_quota_def ref_Add_wf)
  show "mwf (qSubtract ref_quota a b)" if "mwf a" "mwf b"
    using that by (simp add: ref_quota_def ref_Subtract_def ref_Add_wf mwf_map_snd)
qed

end
