(* ===== verification/Evaluator.thy ===== *)
theory Evaluator
  imports Externals
begin

section \<open>The pod evaluator (\<open>resourcequota-evaluator.go\<close>)\<close>

text \<open>
  \<open>ConditionalPodEvaluator\<close> decorates the pod evaluator of Kubernetes with the scope
  \<open>NodeSelector\<close>: a quota can count only the pods whose node selector matches. The theory models
  the matching function, the decorator as a function from evaluators to evaluators, and its
  constructor. The wrapped evaluator, \<open>generic.Matches\<close>, \<open>generic.CalculateUsageStats\<close> and
  \<open>labels.Parse\<close> are parameters.
\<close>

subsection \<open>Objects and the evaluator interface\<close>

text \<open>
  A \<open>runtime.Object\<close> is a pod or something else; of a pod this file reads the node selector
  only.
\<close>

record 'o pod =
  pod_NodeSelector :: labels
  pod_Rest :: 'o

datatype 'o runtime_object = PodObject "'o pod" | OtherObject 'o

record usage_stats =
  us_Used :: resource_list

text \<open>\<open>quota.Evaluator\<close>: attributes \<open>'a\<close>, objects \<open>'o\<close>, options of \<open>UsageStats\<close> \<open>'p\<close>.\<close>

record ('a, 'o, 'p, 'e) evaluator =
  ev_Constraints :: "string list \<Rightarrow> 'o runtime_object \<Rightarrow> 'e option"
  ev_GroupResource :: "string \<times> string"
  ev_Handles :: "'a \<Rightarrow> bool"
  ev_MatchingResources :: "string list \<Rightarrow> string list"
  ev_MatchingScopes :: "'o runtime_object \<Rightarrow> scoped_selector list \<Rightarrow> 'e + scoped_selector list"
  ev_UncoveredQuotaScopes :: "scoped_selector list \<Rightarrow> scoped_selector list \<Rightarrow> 'e + scoped_selector list"
  ev_Usage :: "'o runtime_object \<Rightarrow> 'e + resource_list"
  ev_Matches :: "core_resource_quota \<Rightarrow> 'o runtime_object \<Rightarrow> 'e + bool"
  ev_UsageStats :: "'p \<Rightarrow> 'e + usage_stats"

text \<open>\<open>labels.Parse\<close> returns a selector; the code calls its method \<open>Matches\<close> only.\<close>

type_synonym 'e label_parser = "string \<Rightarrow> 'e + (labels \<Rightarrow> bool)"

type_synonym ('o, 'e) scope_func = "scoped_selector \<Rightarrow> 'o runtime_object \<Rightarrow> 'e + bool"

subsection \<open>Matching a pod\<close>

definition ResourceQuotaScopeNodeSelector :: string where
  "ResourceQuotaScopeNodeSelector = ''NodeSelector''"

text \<open>The loop of the case \<open>In\<close>.\<close>

fun values_in :: "'e label_parser \<Rightarrow> labels \<Rightarrow> string list \<Rightarrow> 'e + bool" where
  "values_in parse nodeSelector [] = Inr False"
| "values_in parse nodeSelector (value # values) =
    (case parse value of
      Inl err \<Rightarrow> Inl err
    | Inr selector \<Rightarrow>
        if selector nodeSelector then Inr True else values_in parse nodeSelector values)"

text \<open>The loop of the case \<open>NotIn\<close>.\<close>

fun values_not_in :: "'e label_parser \<Rightarrow> labels \<Rightarrow> string list \<Rightarrow> 'e + bool" where
  "values_not_in parse nodeSelector [] = Inr True"
| "values_not_in parse nodeSelector (value # values) =
    (case parse value of
      Inl err \<Rightarrow> Inl err
    | Inr selector \<Rightarrow>
        if selector nodeSelector then Inr False else values_not_in parse nodeSelector values)"

definition PodNodeSelectorMatch ::
  "'e err_lib \<Rightarrow> 'e label_parser \<Rightarrow> 'o pod \<Rightarrow> scoped_selector \<Rightarrow> 'e + bool" where
  "PodNodeSelectorMatch E parse pod selector =
    (let nodeSelector = pod_NodeSelector pod in
     case ss_Operator selector of
       OpIn \<Rightarrow> values_in parse nodeSelector (ss_Values selector)
     | OpNotIn \<Rightarrow> values_not_in parse nodeSelector (ss_Values selector)
     | OpExists \<Rightarrow> Inr (nodeSelector \<noteq> [])
     | OpDoesNotExist \<Rightarrow> Inr (nodeSelector = [])
     | OpOther s \<Rightarrow> Inl (Errorf E ''unsupported operator %v for NodeSelector scope'' [FOperator (OpOther s)]))"

definition ConditionalPodMatchesScopeFunc ::
  "'e err_lib \<Rightarrow> 'e label_parser \<Rightarrow> ('o, 'e) scope_func" where
  "ConditionalPodMatchesScopeFunc E parse selector object =
    (case object of
      OtherObject _ \<Rightarrow> Inr False
    | PodObject pod \<Rightarrow>
        if ss_ScopeName selector = ResourceQuotaScopeNodeSelector
        then PodNodeSelectorMatch E parse pod selector
        else Inr False)"

subsection \<open>The decorator\<close>

text \<open>
  The receiver: the wrapped evaluator and the function that lists the pods of a namespace. The
  third field of the struct, \<open>nodesLister\<close>, is read by no method.
\<close>

record ('a, 'o, 'p, 'e, 'l) conditional_pod_evaluator =
  cpe_Evaluator :: "('a, 'o, 'p, 'e) evaluator"
  cpe_listFuncByNamespace :: 'l

text \<open>The two functions of \<open>k8s.io/apiserver/pkg/quota/v1/generic\<close> the methods call.\<close>

record ('o, 'p, 'e, 'l) generic_lib =
  generic_Matches :: "core_resource_quota \<Rightarrow> 'o runtime_object \<Rightarrow> (string list \<Rightarrow> string list) \<Rightarrow>
     ('o, 'e) scope_func \<Rightarrow> 'e + bool"
  generic_CalculateUsageStats :: "'p \<Rightarrow> 'l \<Rightarrow> ('o, 'e) scope_func \<Rightarrow>
     ('o runtime_object \<Rightarrow> 'e + resource_list) \<Rightarrow> 'e + usage_stats"

text \<open>The loop of \<open>MatchingScopes\<close> over the given scopes.\<close>

fun matching_scopes_loop :: "'e err_lib \<Rightarrow> ('o, 'e) scope_func \<Rightarrow> 'o runtime_object \<Rightarrow>
    scoped_selector list \<Rightarrow> scoped_selector list \<Rightarrow> 'e + scoped_selector list" where
  "matching_scopes_loop E f item [] matchedScopes = Inr matchedScopes"
| "matching_scopes_loop E f item (selector # scopes) matchedScopes =
    (case f selector item of
      Inl err \<Rightarrow> Inl (Errorf E ''error on matching scope %v: %v'' [FSelector selector, FErr err])
    | Inr match \<Rightarrow> matching_scopes_loop E f item scopes
        (if match then matchedScopes @ [selector] else matchedScopes))"

definition MatchingScopes :: "'e err_lib \<Rightarrow> 'e label_parser \<Rightarrow>
    ('a, 'o, 'p, 'e, 'l) conditional_pod_evaluator \<Rightarrow> 'o runtime_object \<Rightarrow>
    scoped_selector list \<Rightarrow> 'e + scoped_selector list" where
  "MatchingScopes E parse c item scopes =
    (case ev_MatchingScopes (cpe_Evaluator c) item scopes of
      Inl err \<Rightarrow> Inl err
    | Inr matchedScopes \<Rightarrow>
        matching_scopes_loop E (ConditionalPodMatchesScopeFunc E parse) item scopes matchedScopes)"

definition Matches :: "'e err_lib \<Rightarrow> 'e label_parser \<Rightarrow> ('o, 'p, 'e, 'l) generic_lib \<Rightarrow>
    ('a, 'o, 'p, 'e, 'l) conditional_pod_evaluator \<Rightarrow> core_resource_quota \<Rightarrow> 'o runtime_object \<Rightarrow> 'e + bool" where
  "Matches E parse G c resourceQuota item =
    (case generic_Matches G resourceQuota item (ev_MatchingResources (cpe_Evaluator c))
        (ConditionalPodMatchesScopeFunc E parse) of
      Inl err \<Rightarrow> Inl err
    | Inr ok \<Rightarrow> if ok then Inr True else ev_Matches (cpe_Evaluator c) resourceQuota item)"

definition UsageStats :: "'e err_lib \<Rightarrow> 'e label_parser \<Rightarrow> ('o, 'p, 'e, 'l) generic_lib \<Rightarrow>
    ('a, 'o, 'p, 'e, 'l) conditional_pod_evaluator \<Rightarrow> 'p \<Rightarrow> 'e + usage_stats" where
  "UsageStats E parse G c options =
    (case generic_CalculateUsageStats G options (cpe_listFuncByNamespace c)
        (ConditionalPodMatchesScopeFunc E parse) (ev_Usage (cpe_Evaluator c)) of
      Inl err \<Rightarrow> Inl err
    | Inr usage \<Rightarrow>
        if us_Used usage \<noteq> [] then Inr usage else ev_UsageStats (cpe_Evaluator c) options)"

text \<open>The struct as a \<open>quota.Evaluator\<close>: five methods delegate, four are the ones above.\<close>

definition conditional_evaluator :: "'e err_lib \<Rightarrow> 'e label_parser \<Rightarrow> ('o, 'p, 'e, 'l) generic_lib \<Rightarrow>
    ('a, 'o, 'p, 'e, 'l) conditional_pod_evaluator \<Rightarrow> ('a, 'o, 'p, 'e) evaluator" where
  "conditional_evaluator E parse G c = \<lparr>
     ev_Constraints = ev_Constraints (cpe_Evaluator c),
     ev_GroupResource = ev_GroupResource (cpe_Evaluator c),
     ev_Handles = ev_Handles (cpe_Evaluator c),
     ev_MatchingResources = ev_MatchingResources (cpe_Evaluator c),
     ev_MatchingScopes = MatchingScopes E parse c,
     ev_UncoveredQuotaScopes = ev_UncoveredQuotaScopes (cpe_Evaluator c),
     ev_Usage = ev_Usage (cpe_Evaluator c),
     ev_Matches = Matches E parse G c,
     ev_UsageStats = UsageStats E parse G c\<rparr>"

text \<open>
  The constructor. \<open>informers\<close> may be nil; the list function is built only when it is not, and
  \<open>informers.Core()\<close> is called either way, which a nil interface answers with a panic.
\<close>

definition NewConditionalPodEvaluator ::
  "('i \<Rightarrow> 'f) \<Rightarrow> ('f option \<Rightarrow> ('a, 'o, 'p, 'e) evaluator) \<Rightarrow> ('f option \<Rightarrow> 'l) \<Rightarrow> 'i option \<Rightarrow>
   go_panic + ('a, 'o, 'p, 'e, 'l) conditional_pod_evaluator" where
  "NewConditionalPodEvaluator ListerFuncForResourceFunc NewPodEvaluator ListResourceUsingListerFunc informers =
    (let listerFuncForResource = map_option ListerFuncForResourceFunc informers in
     case informers of
       None \<Rightarrow> Inl NilDereference
     | Some _ \<Rightarrow> Inr \<lparr>
         cpe_Evaluator = NewPodEvaluator listerFuncForResource,
         cpe_listFuncByNamespace = ListResourceUsingListerFunc listerFuncForResource\<rparr>)"

subsection \<open>Lemmas\<close>

named_theorems eval_simps "the matching function, unfolded"

lemmas [eval_simps] = PodNodeSelectorMatch_def ConditionalPodMatchesScopeFunc_def Let_def

text \<open>The two loops are mirror images.\<close>

lemma values_not_in_eq: "values_not_in parse ns vs = map_sum id Not (values_in parse ns vs)"
  by (induction vs) (auto split: sum.splits)

lemma values_in_False_iff:
  "values_in parse ns vs = Inr False \<longleftrightarrow> (\<forall>v \<in> set vs. \<exists>s. parse v = Inr s \<and> \<not> s ns)"
  by (induction vs) (auto split: sum.splits)

text \<open>
  Where the loop of \<open>In\<close> stops: \<open>stops_at\<close> says that every value before the \<open>i\<close>-th one parsed and
  did not match.
\<close>

definition no_match_before :: "'e label_parser \<Rightarrow> labels \<Rightarrow> string list \<Rightarrow> nat \<Rightarrow> bool" where
  "no_match_before parse ns vs i \<longleftrightarrow>
     i < length vs \<and> (\<forall>j < i. \<exists>s. parse (vs ! j) = Inr s \<and> \<not> s ns)"

lemma no_match_before_Cons:
  "no_match_before parse ns (v # vs) i \<longleftrightarrow>
   i = 0 \<or> (\<exists>k s. i = Suc k \<and> parse v = Inr s \<and> \<not> s ns \<and> no_match_before parse ns vs k)"
  by (cases i) (auto simp: no_match_before_def All_less_Suc2)

lemma no_match_before_Nil [simp]: "\<not> no_match_before parse ns [] i"
  by (simp add: no_match_before_def)

lemma values_in_True_iff:
  "values_in parse ns vs = Inr True \<longleftrightarrow>
   (\<exists>i s. no_match_before parse ns vs i \<and> parse (vs ! i) = Inr s \<and> s ns)"
  by (induction vs) (auto simp: no_match_before_Cons split: sum.splits)

lemma values_in_Inl_iff:
  "values_in parse ns vs = Inl e \<longleftrightarrow>
   (\<exists>i. no_match_before parse ns vs i \<and> parse (vs ! i) = Inl e)"
  by (induction vs) (auto simp: no_match_before_Cons split: sum.splits)

text \<open>
  What a scope function promises the loops that use it: it neither matches nor fails on a scope
  it does not handle.
\<close>

locale scope_matcher =
  fixes f :: "('o, 'e) scope_func" and handled :: "scoped_selector \<Rightarrow> bool"
  assumes unhandled: "\<not> handled s \<Longrightarrow> f s item = Inr False"
begin

lemma matched_handled: "f s item = Inr True \<Longrightarrow> handled s"
  using unhandled by fastforce

lemma loop_Inr_iff:
  "matching_scopes_loop E f item scopes acc = Inr ms \<longleftrightarrow>
   (\<forall>s \<in> set scopes. handled s \<longrightarrow> (\<exists>b. f s item = Inr b)) \<and>
   ms = acc @ filter (\<lambda>s. f s item = Inr True) scopes"
proof (induction scopes arbitrary: acc)
  case (Cons s scopes)
  then show ?case
    using unhandled [of s item] by (auto split: sum.split)
qed auto

lemma loop_Inl:
  "matching_scopes_loop E f item scopes acc = Inl e \<Longrightarrow> \<exists>s \<in> set scopes. handled s \<and> isl (f s item)"
proof (induction scopes arbitrary: acc)
  case (Cons s scopes)
  then show ?case
    using unhandled [of s item] by (auto split: sum.splits)
qed auto

end

lemma scope_func_unhandled:
  "ss_ScopeName s \<noteq> ResourceQuotaScopeNodeSelector \<Longrightarrow>
   ConditionalPodMatchesScopeFunc E parse s item = Inr False"
  by (simp add: ConditionalPodMatchesScopeFunc_def split: runtime_object.split)

interpretation node_scope: scope_matcher "ConditionalPodMatchesScopeFunc E parse"
  "\<lambda>s. ss_ScopeName s = ResourceQuotaScopeNodeSelector" for E parse
  by unfold_locales (rule scope_func_unhandled)

text \<open>
  The part of the contract of \<open>quota.Evaluator\<close> that its callers build on: an evaluator answers
  \<open>MatchingScopes\<close> with scopes it was asked about, and \<open>MatchingResources\<close> with resources of its
  input. The decorator keeps the contract of what it decorates.
\<close>

locale evaluator_contract =
  fixes ev :: "('a, 'o, 'p, 'e) evaluator"
  assumes scopes_subset: "ev_MatchingScopes ev item scopes = Inr ms \<Longrightarrow> set ms \<subseteq> set scopes"
    and resources_subset: "set (ev_MatchingResources ev names) \<subseteq> set names"
begin

lemma no_scopes: "ev_MatchingScopes ev item [] = Inr ms \<Longrightarrow> ms = []"
  using scopes_subset by fastforce

end

locale decorated_evaluator = wrapped: evaluator_contract "cpe_Evaluator c"
  for c :: "('a, 'o, 'p, 'e, 'l) conditional_pod_evaluator" +
  fixes E :: "'e err_lib" and parse :: "'e label_parser" and G :: "('o, 'p, 'e, 'l) generic_lib"
begin

lemma decorated_scopes:
  assumes "MatchingScopes E parse c item scopes = Inr ms"
  obtains ms0 where "ev_MatchingScopes (cpe_Evaluator c) item scopes = Inr ms0"
    and "ms = ms0 @ filter (\<lambda>s. ConditionalPodMatchesScopeFunc E parse s item = Inr True) scopes"
  using assms by (auto simp: MatchingScopes_def node_scope.loop_Inr_iff split: sum.splits)

end

sublocale decorated_evaluator \<subseteq> decorated: evaluator_contract "conditional_evaluator E parse G c"
proof unfold_locales
  fix item scopes ms names
  show "set ms \<subseteq> set scopes"
    if "ev_MatchingScopes (conditional_evaluator E parse G c) item scopes = Inr ms"
    using that wrapped.scopes_subset
    by (fastforce simp: conditional_evaluator_def elim: decorated_scopes)
  show "set (ev_MatchingResources (conditional_evaluator E parse G c) names) \<subseteq> set names"
    using wrapped.resources_subset by (simp add: conditional_evaluator_def)
qed

context decorated_evaluator
begin

lemma decorated_contract: "evaluator_contract (conditional_evaluator E parse G c)"
  by unfold_locales

end

text \<open>
  A quota applies to an object that matches all of its scopes: the documented meaning of
  \<open>ResourceQuotaSpec.scopes\<close> and \<open>scopeSelector\<close>, which \<open>generic.Matches\<close> implements.
\<close>

definition quota_scopes :: "core_resource_quota \<Rightarrow> scoped_selector list" where
  "quota_scopes q =
     map (\<lambda>n. \<lparr>ss_ScopeName = n, ss_Operator = OpExists, ss_Values = []\<rparr>) (rqs_Scopes (crv1_Spec q)) @
     (case rqs_ScopeSelector (crv1_Spec q) of None \<Rightarrow> [] | Some ss \<Rightarrow> ss)"

locale generic_quota =
  fixes G :: "('o, 'p, 'e, 'l) generic_lib"
  assumes all_scopes: "generic_Matches G q item mr f = Inr True \<Longrightarrow> s \<in> set (quota_scopes q) \<Longrightarrow>
      f s item = Inr True"
begin

lemma one_scope_fails:
  "s \<in> set (quota_scopes q) \<Longrightarrow> f s item \<noteq> Inr True \<Longrightarrow> generic_Matches G q item mr f \<noteq> Inr True"
  using all_scopes by blast

end

text \<open>
  The same with both directions: \<open>generic.Matches\<close> answers true if and only if the quota limits a resource that the evaluator
  measures and all scopes match, and its errors are those of the scope function.
\<close>

locale generic_matcher =
  fixes G :: "('o, 'p, 'e, 'l) generic_lib"
  assumes matches_iff: "generic_Matches G q item mr f = Inr True \<longleftrightarrow>
      mr (map fst (rqst_Hard (crv1_Status q))) \<noteq> [] \<and> (\<forall>s \<in> set (quota_scopes q). f s item = Inr True)"
    and matches_error: "generic_Matches G q item mr f = Inl e \<Longrightarrow> \<exists>s \<in> set (quota_scopes q). f s item = Inl e"

sublocale generic_matcher \<subseteq> generic_quota
  by unfold_locales (simp add: matches_iff)

text \<open>When a set of node labels satisfies one requirement of the scope \<open>NodeSelector\<close>.\<close>

definition requirement_holds :: "'e label_parser \<Rightarrow> labels \<Rightarrow> scoped_selector \<Rightarrow> bool" where
  "requirement_holds parse ns s =
    (case ss_Operator s of
      OpIn \<Rightarrow> \<exists>i sel. no_match_before parse ns (ss_Values s) i \<and> parse (ss_Values s ! i) = Inr sel \<and> sel ns
    | OpNotIn \<Rightarrow> \<forall>v \<in> set (ss_Values s). \<exists>sel. parse v = Inr sel \<and> \<not> sel ns
    | OpExists \<Rightarrow> ns \<noteq> []
    | OpDoesNotExist \<Rightarrow> ns = []
    | OpOther _ \<Rightarrow> False)"

lemma values_not_in_True_iff: "values_not_in parse ns vs = Inr True \<longleftrightarrow> values_in parse ns vs = Inr False"
  unfolding values_not_in_eq by (cases "values_in parse ns vs") auto

lemma pod_match_iff:
  "PodNodeSelectorMatch E parse pod s = Inr True \<longleftrightarrow> requirement_holds parse (pod_NodeSelector pod) s"
  by (simp add: eval_simps requirement_holds_def values_in_True_iff values_not_in_True_iff values_in_False_iff
      split: scope_operator.split)

subsection \<open>Reference instances\<close>

text \<open>
  A parser for selectors of the form \<open>key=value\<close>, a pod evaluator whose pods carry the standard
  scopes they belong to, and \<open>generic.Matches\<close> as a conjunction over the scopes.
\<close>

definition ref_parse :: "ref_error label_parser" where
  "ref_parse v =
    (if CHR ''='' \<in> set v
     then Inr (\<lambda>m. map_of m (takeWhile (\<lambda>c. c \<noteq> CHR ''='') v) =
       Some (tl (dropWhile (\<lambda>c. c \<noteq> CHR ''='') v)))
     else Inl (RPlain ''unable to parse requirement''))"

definition ref_pod_scope :: "(string list, ref_error) scope_func" where
  "ref_pod_scope s item =
    (case item of
      PodObject p \<Rightarrow> Inr (ss_ScopeName s \<in> {''BestEffort'', ''NotBestEffort'', ''Terminating''} \<and>
        ss_ScopeName s \<in> set (pod_Rest p))
    | OtherObject _ \<Rightarrow> Inr False)"

fun ref_all_scopes :: "('o, 'e) scope_func \<Rightarrow> 'o runtime_object \<Rightarrow> scoped_selector list \<Rightarrow> 'e + bool" where
  "ref_all_scopes f item [] = Inr True"
| "ref_all_scopes f item (s # ss) =
    sum_bind (f s item) (\<lambda>b. sum_bind (ref_all_scopes f item ss) (\<lambda>b'. Inr (b \<and> b')))"

definition ref_generic_Matches :: "core_resource_quota \<Rightarrow> 'o runtime_object \<Rightarrow>
    (string list \<Rightarrow> string list) \<Rightarrow> ('o, 'e) scope_func \<Rightarrow> 'e + bool" where
  "ref_generic_Matches q item mr f =
    sum_bind (ref_all_scopes f item (quota_scopes q))
      (\<lambda>b. Inr (b \<and> mr (map fst (rqst_Hard (crv1_Status q))) \<noteq> []))"

definition ref_generic :: "('o, unit, 'e, unit) generic_lib" where
  "ref_generic = \<lparr>
     generic_Matches = ref_generic_Matches,
     generic_CalculateUsageStats = (\<lambda>_ _ _ _. Inr \<lparr>us_Used = []\<rparr>)\<rparr>"

definition ref_pod_evaluator :: "(unit, string list, unit, ref_error) evaluator" where
  "ref_pod_evaluator = \<lparr>
     ev_Constraints = (\<lambda>_ _. None),
     ev_GroupResource = ([], ''pods''),
     ev_Handles = (\<lambda>_. True),
     ev_MatchingResources = filter (\<lambda>n. n \<in> {''pods'', ''cpu'', ''memory''}),
     ev_MatchingScopes = (\<lambda>item ss. Inr (filter (\<lambda>s. ref_pod_scope s item = Inr True) ss)),
     ev_UncoveredQuotaScopes = (\<lambda>ls ms. Inr (filter (\<lambda>s. s \<notin> set ms) ls)),
     ev_Usage = (\<lambda>_. Inr [(''pods'', Quantity 1)]),
     ev_Matches = (\<lambda>q item. ref_generic_Matches q item
       (filter (\<lambda>n. n \<in> {''pods'', ''cpu'', ''memory''})) ref_pod_scope),
     ev_UsageStats = (\<lambda>_. Inr \<lparr>us_Used = []\<rparr>)\<rparr>"

definition ref_conditional :: "(unit, string list, unit, ref_error, unit) conditional_pod_evaluator" where
  "ref_conditional = \<lparr>cpe_Evaluator = ref_pod_evaluator, cpe_listFuncByNamespace = ()\<rparr>"

lemma ref_all_scopes_iff: "ref_all_scopes f item ss = Inr True \<longleftrightarrow> (\<forall>s \<in> set ss. f s item = Inr True)"
  by (induction ss) (auto simp: sum_bind_Inr_iff)

lemma ref_all_scopes_Inl: "ref_all_scopes f item ss = Inl e \<Longrightarrow> \<exists>s \<in> set ss. f s item = Inl e"
proof (induction ss)
  case (Cons s ss)
  then show ?case
    by (cases "f s item"; cases "ref_all_scopes f item ss") auto
qed simp

interpretation ref_generic: generic_matcher ref_generic
proof unfold_locales
  fix q :: core_resource_quota and item :: "'o runtime_object" and mr and f :: "('o, 'e) scope_func" and e
  show "generic_Matches ref_generic q item mr f = Inr True \<longleftrightarrow>
      mr (map fst (rqst_Hard (crv1_Status q))) \<noteq> [] \<and> (\<forall>s \<in> set (quota_scopes q). f s item = Inr True)"
    using ref_all_scopes_iff [of f item "quota_scopes q"]
    by (auto simp: ref_generic_def ref_generic_Matches_def sum_bind_Inr_iff)
  show "\<exists>s \<in> set (quota_scopes q). f s item = Inl e"
    if "generic_Matches ref_generic q item mr f = Inl e"
    using that ref_all_scopes_Inl [of f item "quota_scopes q" e]
    by (cases "ref_all_scopes f item (quota_scopes q)") (auto simp: ref_generic_def ref_generic_Matches_def)
qed

interpretation ref_decorated: decorated_evaluator ref_conditional ref_errs ref_parse ref_generic
  by unfold_locales (auto simp: ref_conditional_def ref_pod_evaluator_def)

subsection \<open>Properties\<close>

text \<open>
  With the operator \<open>In\<close>, the values are tried in order: the pod matches if some value parses
  and selects its node selector while every value before it parsed without selecting it; it does
  not match if every value parses and none selects; the first value that fails to parse before a
  match is reported as the error.
\<close>
lemma pod_match_in:
  assumes "ss_Operator selector = OpIn"
  shows "(PodNodeSelectorMatch E parse pod selector = Inr True \<longleftrightarrow>
      (\<exists>i s. no_match_before parse (pod_NodeSelector pod) (ss_Values selector) i \<and>
        parse (ss_Values selector ! i) = Inr s \<and> s (pod_NodeSelector pod))) \<and>
    (PodNodeSelectorMatch E parse pod selector = Inr False \<longleftrightarrow>
      (\<forall>v \<in> set (ss_Values selector). \<exists>s. parse v = Inr s \<and> \<not> s (pod_NodeSelector pod))) \<and>
    (PodNodeSelectorMatch E parse pod selector = Inl e \<longleftrightarrow>
      (\<exists>i. no_match_before parse (pod_NodeSelector pod) (ss_Values selector) i \<and>
        parse (ss_Values selector ! i) = Inl e))"
  using assms
  by (simp add: eval_simps values_in_True_iff values_in_False_iff values_in_Inl_iff)

theorem pod_match_in_witness:
  "PodNodeSelectorMatch ref_errs ref_parse
     \<lparr>pod_NodeSelector = [(''gpu'', ''A100'')], pod_Rest = ()\<rparr>
     \<lparr>ss_ScopeName = ''NodeSelector'', ss_Operator = OpIn, ss_Values = [''gpu=H100'', ''gpu=A100'', ''x'']\<rparr>
   = Inr True"
  by (subst pod_match_in [THEN conjunct1])
    (simp, rule exI [of _ "1::nat"], simp add: no_match_before_def ref_parse_def)

text \<open>
  For every selector and pod, \<open>NotIn\<close> answers the negation of \<open>In\<close> and fails with the same
  error; \<open>Exists\<close> and \<open>DoesNotExist\<close> never fail and are opposites; any other operator is an
  error.
\<close>
lemma pod_match_complement:
  "PodNodeSelectorMatch E parse pod (sel\<lparr>ss_Operator := OpNotIn\<rparr>) =
     map_sum id Not (PodNodeSelectorMatch E parse pod (sel\<lparr>ss_Operator := OpIn\<rparr>)) \<and>
   PodNodeSelectorMatch E parse pod (sel\<lparr>ss_Operator := OpDoesNotExist\<rparr>) =
     map_sum id Not (PodNodeSelectorMatch E parse pod (sel\<lparr>ss_Operator := OpExists\<rparr>)) \<and>
   (\<exists>b. PodNodeSelectorMatch E parse pod (sel\<lparr>ss_Operator := OpExists\<rparr>) = Inr b) \<and>
   isl (PodNodeSelectorMatch E parse pod (sel\<lparr>ss_Operator := OpOther op\<rparr>))"
  by (simp add: eval_simps values_not_in_eq)

text \<open>
  C28. \<open>MatchingScopes\<close> returns what the wrapped evaluator matched, followed by the given scopes,
  in their order, that the pod matches as \<open>NodeSelector\<close> scopes; nothing is dropped, repeated or
  invented on the way.
\<close>
theorem matching_scopes_exact:
  assumes "MatchingScopes E parse c item scopes = Inr ms"
  shows "\<exists>ms0. ev_MatchingScopes (cpe_Evaluator c) item scopes = Inr ms0 \<and>
    ms = ms0 @ filter (\<lambda>s. ss_ScopeName s = ResourceQuotaScopeNodeSelector \<and>
      (\<exists>pod. item = PodObject pod \<and> PodNodeSelectorMatch E parse pod s = Inr True)) scopes"
proof -
  have "(ConditionalPodMatchesScopeFunc E parse s item = Inr True) =
      (ss_ScopeName s = ResourceQuotaScopeNodeSelector \<and>
       (\<exists>pod. item = PodObject pod \<and> PodNodeSelectorMatch E parse pod s = Inr True))" for s
    by (auto simp: ConditionalPodMatchesScopeFunc_def split: runtime_object.split)
  then show ?thesis
    using assms by (auto simp: MatchingScopes_def node_scope.loop_Inr_iff split: sum.splits)
qed

definition a100_selector :: scoped_selector where
  "a100_selector = \<lparr>ss_ScopeName = ''NodeSelector'', ss_Operator = OpIn, ss_Values = [''gpu=A100'']\<rparr>"

definition best_effort_selector :: scoped_selector where
  "best_effort_selector = \<lparr>ss_ScopeName = ''BestEffort'', ss_Operator = OpExists, ss_Values = []\<rparr>"

definition a100_pod :: "string list pod" where
  "a100_pod = \<lparr>pod_NodeSelector = [(''gpu'', ''A100'')], pod_Rest = [''BestEffort'']\<rparr>"

lemmas a100_defs = a100_selector_def best_effort_selector_def a100_pod_def

lemma a100_match:
  "ConditionalPodMatchesScopeFunc ref_errs ref_parse a100_selector (PodObject a100_pod) = Inr True"
  "ConditionalPodMatchesScopeFunc ref_errs ref_parse best_effort_selector item = Inr False"
  by (simp_all add: eval_simps a100_defs ResourceQuotaScopeNodeSelector_def ref_parse_def
      split: runtime_object.split)

theorem matching_scopes_exact_witness:
  "\<exists>ms0. ev_MatchingScopes (cpe_Evaluator ref_conditional) (PodObject a100_pod)
      [a100_selector, best_effort_selector] = Inr ms0 \<and>
    [best_effort_selector, a100_selector] =
      ms0 @ filter (\<lambda>s. ss_ScopeName s = ResourceQuotaScopeNodeSelector \<and>
        (\<exists>pod. PodObject a100_pod = PodObject pod \<and>
          PodNodeSelectorMatch ref_errs ref_parse pod s = Inr True)) [a100_selector, best_effort_selector]"
  by (rule matching_scopes_exact)
    (simp add: MatchingScopes_def ref_conditional_def ref_pod_evaluator_def a100_match,
      simp add: ref_pod_scope_def a100_defs)

text \<open>
  C29. What a quota with scopes counts. If all its scopes are \<open>NodeSelector\<close> scopes, it matches exactly the pods whose node
  selector satisfies every one of the requirements - \<open>In\<close>: some value selects it, those before it parse and do not;
  \<open>NotIn\<close>: every value parses and none selects it; \<open>Exists\<close> and \<open>DoesNotExist\<close>: it is not, or is, empty -
  provided that it limits a resource the evaluator measures. If none of them is, the decorator answers
  what the wrapped evaluator answers. The wrapped evaluator is taken to use \<open>generic.Matches\<close>, which is true when some
  limited resource is measured and all scopes match, with a scope function that does not know \<open>NodeSelector\<close>.
\<close>
theorem scoped_quota_matches_exactly:
  assumes "generic_matcher G" and "quota_scopes q \<noteq> []"
    and "\<And>q item. ev_Matches (cpe_Evaluator c) q item = generic_Matches G q item mr podMatchesScopeFunc"
    and "\<And>s item. ss_ScopeName s = ResourceQuotaScopeNodeSelector \<Longrightarrow> podMatchesScopeFunc s item \<noteq> Inr True"
  shows "((\<forall>s \<in> set (quota_scopes q). ss_ScopeName s = ResourceQuotaScopeNodeSelector) \<longrightarrow>
      (Matches E parse G c q item = Inr True \<longleftrightarrow>
        (\<exists>pod. item = PodObject pod \<and> (\<forall>s \<in> set (quota_scopes q). requirement_holds parse (pod_NodeSelector pod) s)) \<and>
        ev_MatchingResources (cpe_Evaluator c) (map fst (rqst_Hard (crv1_Status q))) \<noteq> [])) \<and>
    ((\<forall>s \<in> set (quota_scopes q). ss_ScopeName s \<noteq> ResourceQuotaScopeNodeSelector) \<longrightarrow>
      Matches E parse G c q item = ev_Matches (cpe_Evaluator c) q item)"
proof (intro conjI impI)
  let ?f = "ConditionalPodMatchesScopeFunc E parse" and ?mr = "ev_MatchingResources (cpe_Evaluator c)"
  note iff = generic_matcher.matches_iff [OF assms(1)]
  obtain s0 where s0: "s0 \<in> set (quota_scopes q)"
    using assms(2) by (cases "quota_scopes q") auto
  show "Matches E parse G c q item = Inr True \<longleftrightarrow>
      (\<exists>pod. item = PodObject pod \<and> (\<forall>s \<in> set (quota_scopes q). requirement_holds parse (pod_NodeSelector pod) s)) \<and>
      ?mr (map fst (rqst_Hard (crv1_Status q))) \<noteq> []"
    if ns: "\<forall>s \<in> set (quota_scopes q). ss_ScopeName s = ResourceQuotaScopeNodeSelector"
  proof -
    have "?f s item = Inr True \<longleftrightarrow> (\<exists>pod. item = PodObject pod \<and> requirement_holds parse (pod_NodeSelector pod) s)"
      if "s \<in> set (quota_scopes q)" for s
      using ns that by (simp add: ConditionalPodMatchesScopeFunc_def pod_match_iff split: runtime_object.split)
    moreover have "ev_Matches (cpe_Evaluator c) q item \<noteq> Inr True"
      unfolding assms(3) iff using assms(4) ns s0 by blast
    ultimately have "Matches E parse G c q item = Inr True \<longleftrightarrow> ?mr (map fst (rqst_Hard (crv1_Status q))) \<noteq> [] \<and>
        (\<forall>s \<in> set (quota_scopes q). \<exists>pod. item = PodObject pod \<and> requirement_holds parse (pod_NodeSelector pod) s)"
      using iff [of q item ?mr ?f] by (auto simp: Matches_def split: sum.splits if_splits)
    then show ?thesis
      using s0 by (cases item) auto
  qed
  show "Matches E parse G c q item = ev_Matches (cpe_Evaluator c) q item"
    if ns: "\<forall>s \<in> set (quota_scopes q). ss_ScopeName s \<noteq> ResourceQuotaScopeNodeSelector"
  proof -
    have no: "?f s item = Inr False" if "s \<in> set (quota_scopes q)" for s
      using ns that by (intro scope_func_unhandled) blast
    have "generic_Matches G q item ?mr ?f = Inr False"
    proof (cases "generic_Matches G q item ?mr ?f")
      case (Inl e)
      then show ?thesis
        using generic_matcher.matches_error [OF assms(1) Inl] no by auto
    next
      case (Inr b)
      then show ?thesis
        using iff [of q item ?mr ?f] no s0 by (cases b) auto
    qed
    then show ?thesis
      by (simp add: Matches_def)
  qed
qed

definition gpu_quota :: core_resource_quota where
  "gpu_quota = \<lparr>crv1_TypeMeta = empty_type_meta, crv1_ObjectMeta = empty_object_meta,
     crv1_Spec = \<lparr>rqs_Hard = [(''pods'', Quantity 1)], rqs_Scopes = [], rqs_ScopeSelector = Some [a100_selector]\<rparr>,
     crv1_Status = \<lparr>rqst_Hard = [(''pods'', Quantity 1)], rqst_Used = []\<rparr>\<rparr>"

lemma ref_pod_scope_node: "ss_ScopeName s = ResourceQuotaScopeNodeSelector \<Longrightarrow> ref_pod_scope s item \<noteq> Inr True"
  by (auto simp: ref_pod_scope_def ResourceQuotaScopeNodeSelector_def split: runtime_object.split)

lemma ref_conditional_Matches: "ev_Matches (cpe_Evaluator ref_conditional) q item = generic_Matches ref_generic q item
    (filter (\<lambda>n. n \<in> {''pods'', ''cpu'', ''memory''})) ref_pod_scope"
  by (simp add: ref_conditional_def ref_pod_evaluator_def ref_generic_def)

theorem scoped_quota_matches_exactly_witness:
  "Matches ref_errs ref_parse ref_generic ref_conditional gpu_quota (PodObject a100_pod) = Inr True \<and>
   Matches ref_errs ref_parse ref_generic ref_conditional gpu_quota
     (PodObject (a100_pod\<lparr>pod_NodeSelector := [(''gpu'', ''H100'')]\<rparr>)) \<noteq> Inr True"
proof -
  have scopes: "quota_scopes gpu_quota = [a100_selector]"
    by (simp add: gpu_quota_def quota_scopes_def)
  then have "quota_scopes gpu_quota \<noteq> []"
    and node: "\<forall>s \<in> set (quota_scopes gpu_quota). ss_ScopeName s = ResourceQuotaScopeNodeSelector"
    by (simp_all add: a100_selector_def ResourceQuotaScopeNodeSelector_def)
  have exact: "Matches ref_errs ref_parse ref_generic ref_conditional gpu_quota item = Inr True \<longleftrightarrow>
      (\<exists>pod. item = PodObject pod \<and>
        (\<forall>s \<in> set (quota_scopes gpu_quota). requirement_holds ref_parse (pod_NodeSelector pod) s)) \<and>
      ev_MatchingResources (cpe_Evaluator ref_conditional) (map fst (rqst_Hard (crv1_Status gpu_quota))) \<noteq> []" for item
    by (rule mp [OF conjunct1 [OF scoped_quota_matches_exactly [OF ref_generic.generic_matcher_axioms
        \<open>quota_scopes gpu_quota \<noteq> []\<close> ref_conditional_Matches]] node]) (rule ref_pod_scope_node)
  have "requirement_holds ref_parse [(''gpu'', ''A100'')] a100_selector"
    and "\<not> requirement_holds ref_parse [(''gpu'', ''H100'')] a100_selector"
    by (auto simp: requirement_holds_def a100_selector_def no_match_before_def ref_parse_def)
  then show ?thesis
    unfolding exact scopes by (simp add: a100_pod_def ref_conditional_def ref_pod_evaluator_def gpu_quota_def)
qed

text \<open>
  C30. A quota that names the scope \<open>NodeSelector\<close> and another scope matches no object at all, even a
  pod that satisfies both. The decorator asks \<open>generic.Matches\<close> with a scope function that rejects
  every other scope, and then the wrapped evaluator, whose scope function does not know
  \<open>NodeSelector\<close>; each of the two asks for all scopes at once.
\<close>
theorem mixed_scopes_never_match:
  assumes "generic_quota G"
    and "\<And>q item. ev_Matches (cpe_Evaluator c) q item = generic_Matches G q item mr podMatchesScopeFunc"
    and "\<And>s item. ss_ScopeName s = ResourceQuotaScopeNodeSelector \<Longrightarrow> podMatchesScopeFunc s item \<noteq> Inr True"
    and "sN \<in> set (quota_scopes q)" and "ss_ScopeName sN = ResourceQuotaScopeNodeSelector"
    and "sO \<in> set (quota_scopes q)" and "ss_ScopeName sO \<noteq> ResourceQuotaScopeNodeSelector"
  shows "Matches E parse G c q item \<noteq> Inr True"
proof -
  have "generic_Matches G q item (ev_MatchingResources (cpe_Evaluator c))
      (ConditionalPodMatchesScopeFunc E parse) \<noteq> Inr True"
    using assms(6,7) scope_func_unhandled [of sO E parse item]
    by (intro generic_quota.one_scope_fails [OF assms(1)]) auto
  moreover have "ev_Matches (cpe_Evaluator c) q item \<noteq> Inr True"
    unfolding assms(2) using assms(3-5) by (intro generic_quota.one_scope_fails [OF assms(1)])
  ultimately show ?thesis
    by (auto simp: Matches_def split: sum.splits)
qed

definition mixed_quota :: core_resource_quota where
  "mixed_quota = \<lparr>crv1_TypeMeta = empty_type_meta, crv1_ObjectMeta = empty_object_meta,
     crv1_Spec = \<lparr>rqs_Hard = [(''pods'', Quantity 1)], rqs_Scopes = [],
       rqs_ScopeSelector = Some [a100_selector, best_effort_selector]\<rparr>,
     crv1_Status = \<lparr>rqst_Hard = [(''pods'', Quantity 1)], rqst_Used = []\<rparr>\<rparr>"

theorem mixed_scopes_never_match_witness:
  "Matches ref_errs ref_parse ref_generic ref_conditional mixed_quota (PodObject a100_pod) \<noteq> Inr True \<and>
   ConditionalPodMatchesScopeFunc ref_errs ref_parse a100_selector (PodObject a100_pod) = Inr True \<and>
   ref_pod_scope best_effort_selector (PodObject a100_pod) = Inr True"
proof (intro conjI)
  show "ConditionalPodMatchesScopeFunc ref_errs ref_parse a100_selector (PodObject a100_pod) = Inr True"
    by (rule a100_match)
  show "ref_pod_scope best_effort_selector (PodObject a100_pod) = Inr True"
    by (simp add: ref_pod_scope_def a100_defs)
  show "Matches ref_errs ref_parse ref_generic ref_conditional mixed_quota (PodObject a100_pod) \<noteq> Inr True"
  proof (rule mixed_scopes_never_match [where sN = a100_selector and sO = best_effort_selector
        and podMatchesScopeFunc = ref_pod_scope])
    show "ev_Matches (cpe_Evaluator ref_conditional) q item = generic_Matches ref_generic q item
        (filter (\<lambda>n. n \<in> {''pods'', ''cpu'', ''memory''})) ref_pod_scope" for q item
      by (rule ref_conditional_Matches)
    show "ref_pod_scope s item \<noteq> Inr True" if "ss_ScopeName s = ResourceQuotaScopeNodeSelector" for s item
      using that by (rule ref_pod_scope_node)
  qed (auto simp: ref_generic.generic_quota_axioms mixed_quota_def quota_scopes_def a100_defs
      ResourceQuotaScopeNodeSelector_def)
qed

end
