(* ===== verification/Api_Server.thy ===== *)
theory Api_Server
  imports Externals
begin

section \<open>The API server as the code sees it\<close>

text \<open>
  \<open>sigs.k8s.io/controller-runtime/pkg/client.Client\<close>, \<open>controllerutil.CreateOrUpdate\<close> and
  \<open>time.Now\<close>, over a world \<open>'w\<close> that the model does not look into. Every call takes the world
  and returns the world after it, because other clients, the server and the clock run on.

  \<open>CreateOrUpdate(ctx, c, obj, f)\<close> fetches \<open>obj\<close>, runs \<open>f\<close> and creates or updates \<open>obj\<close>. The
  closure \<open>f\<close> of the program changes both the ResourceQuota and the ClusterResourceQuota, so the
  two together are the state it runs on.
\<close>

type_synonym time = int

definition second :: time where
  "second = 1000000000"

record ('w, 'e) kube_client =
  Get_crq :: "string \<Rightarrow> 'w \<Rightarrow> ('e + cluster_resource_quota) \<times> 'w"
  List_crq :: "'w \<Rightarrow> ('e + cluster_resource_quota list) \<times> 'w"
  List_rq :: "'w \<Rightarrow> ('e + resource_quota list) \<times> 'w"
  List_ns :: "'w \<Rightarrow> ('e + kube_namespace list) \<times> 'w"
  Status_Update :: "cluster_resource_quota \<Rightarrow> 'w \<Rightarrow> 'e option \<times> 'w"
  CreateOrUpdate ::
    "(cluster_resource_quota \<times> resource_quota \<Rightarrow> 'e option \<times> cluster_resource_quota \<times> resource_quota) \<Rightarrow>
     cluster_resource_quota \<times> resource_quota \<Rightarrow> 'w \<Rightarrow>
     ('e option \<times> cluster_resource_quota \<times> resource_quota) \<times> 'w"
  time_Now :: "'w \<Rightarrow> time \<times> 'w"

text \<open>
  What the theorems use of the server. \<open>stored\<close> is what the server holds, which a read through
  the client's informer cache may lag behind, so no law says that \<open>Get\<close> returns it:
  \<^item> a status update that returns no error has stored the status, of that object only;
  \<^item> reads and the clock store nothing; \<open>Get\<close> returns the object it was asked for;
  \<^item> \<open>CreateOrUpdate\<close> without an error ran the closure once, on the object it fetched or on the
    one it was given, without an error, and leaves ClusterResourceQuota objects on the server alone;
    with an error the closure may have run or not.
\<close>

locale api_server =
  fixes C :: "('w, 'e) kube_client"
    and stored :: "'w \<Rightarrow> string \<Rightarrow> cluster_resource_quota option"
  assumes update_stored: "Status_Update C c w = (None, w') \<Longrightarrow>
      \<exists>c'. stored w' (crq_Name c) = Some c' \<and> crq_Status c' = crq_Status c"
    and update_frame: "Status_Update C c w = (r, w') \<Longrightarrow> n \<noteq> crq_Name c \<Longrightarrow> stored w' n = stored w n"
    and get_stored: "stored (snd (Get_crq C n w)) = stored w"
    and get_name: "fst (Get_crq C n w) = Inr c \<Longrightarrow> crq_Name c = n"
    and now_stored: "stored (snd (time_Now C w)) = stored w"
    and list_ns_stored: "stored (snd (List_ns C w)) = stored w"
    and create_stored: "stored (snd (CreateOrUpdate C f s w)) = stored w"
    and create_crq: "CreateOrUpdate C f (c, q) w = ((r, c', q'), w') \<Longrightarrow>
      c' = c \<or> (\<exists>q0. c' = fst (snd (f (c, q0))))"
    and create_ran: "CreateOrUpdate C f (c, q) w = ((None, c', q'), w') \<Longrightarrow>
      \<exists>q0. fst (f (c, q0)) = None \<and> fst (snd (f (c, q0))) = c' \<and>
        rq_Spec q' = rq_Spec (snd (snd (f (c, q0)))) \<and>
        managed_by (rq_Labels q') = managed_by (rq_Labels (snd (snd (f (c, q0))))) \<and>
        rq_Namespace q0 = rq_Namespace q"
begin

lemma get_Some:
  assumes "Get_crq C n w = (Inr c, w')"
  shows "crq_Name c = n" and "stored w' = stored w"
  using assms get_name [of n w c] get_stored [of n w] by auto

lemma update_Some:
  assumes "Status_Update C c w = (None, w')"
  obtains c' where "stored w' (crq_Name c) = Some c'" and "crq_Status c' = crq_Status c"
  using update_stored [OF assms] by blast

end

text \<open>
  What a client is shown of the ResourceQuotas, by namespace and name: \<open>shown\<close> is the view that its
  reads go through, the informer cache. A \<open>CreateOrUpdate\<close> whose closure leaves the status alone returns, without
  an error, the status of the object it was shown, or the empty one if it was shown none: the status of a ResourceQuota
  is a subresource, which creating or updating the object does not write, and an update of an object that
  has changed since it was read is refused.
\<close>

definition quota_key :: "resource_quota \<Rightarrow> string \<times> string" where
  "quota_key q = (rq_Namespace q, om_Name (rq_ObjectMeta q))"

lemma quota_key_status [simp]: "quota_key (q\<lparr>rq_Status := st\<rparr>) = quota_key q"
  by (simp add: quota_key_def)

abbreviation keeps_status :: "('c \<times> resource_quota \<Rightarrow> 'r \<times> 'c \<times> resource_quota) \<Rightarrow> bool" where
  "keeps_status f \<equiv> \<forall>s. rq_Status (snd (snd (f s))) = rq_Status (snd s)"

definition status_of :: "resource_quota option \<Rightarrow> rq_status" where
  "status_of v = (case v of None \<Rightarrow> empty_rq_status | Some q \<Rightarrow> rq_Status q)"

locale quota_view =
  fixes C :: "('w, 'e) kube_client"
    and shown :: "'w \<Rightarrow> string \<times> string \<Rightarrow> resource_quota option"
  assumes create_status: "CreateOrUpdate C f (c, q) w = ((None, c', q'), w') \<Longrightarrow> keeps_status f \<Longrightarrow>
      rq_Status q = empty_rq_status \<Longrightarrow> rq_Status q' = status_of (shown w (quota_key q))"

text \<open>
  The same view while nobody but this client writes: reads, the clock and status writes of
  ClusterResourceQuotas leave it as it is, every object is shown under its own namespace and name, \<open>CreateOrUpdate\<close> touches the object it was given only and puts there what it
  returns, and a listing holds what is shown, each object once.
\<close>

locale quiet_quota_view = quota_view C shown
  for C :: "('w, 'e) kube_client" and shown :: "'w \<Rightarrow> string \<times> string \<Rightarrow> resource_quota option" +
  assumes shown_key: "shown w k = Some q \<Longrightarrow> quota_key q = k"
    and get_shown: "shown (snd (Get_crq C n w)) = shown w"
    and list_ns_shown: "shown (snd (List_ns C w)) = shown w"
    and update_shown: "shown (snd (Status_Update C c w)) = shown w"
    and create_frame: "k \<noteq> quota_key q \<Longrightarrow> shown (snd (CreateOrUpdate C f (c, q) w)) k = shown w k"
    and create_shows: "CreateOrUpdate C f (c, q) w = ((None, c', q'), w') \<Longrightarrow>
      \<exists>q1. shown w' (quota_key q) = Some q1 \<and> rq_Status q1 = rq_Status q' \<and>
        rq_Labels q1 = rq_Labels q'"
    and list_shown: "List_rq C w = (Inr qs, w') \<Longrightarrow>
      shown w' = shown w \<and> distinct (map quota_key qs) \<and> (\<forall>q. q \<in> set qs \<longleftrightarrow> shown w (quota_key q) = Some q)"
begin

lemma same_view:
  "Get_crq C n w = (r1, w1) \<Longrightarrow> shown w1 = shown w"
  "List_ns C w = (r2, w2) \<Longrightarrow> shown w2 = shown w"
  "Status_Update C c w = (r3, w3) \<Longrightarrow> shown w3 = shown w"
  using get_shown [of n w] list_ns_shown [of w] update_shown [of c w] by simp_all

text \<open>Two listings of the same view are permutations of each other.\<close>

lemma listings_agree:
  assumes "List_rq C w = (Inr ps, w1)" and "List_rq C v = (Inr qs, v1)"
    and "\<And>q. P q \<Longrightarrow> shown w (quota_key q) = Some q \<longleftrightarrow> shown v (quota_key q) = Some q"
  shows "mset (filter P ps) = mset (filter P qs)"
proof -
  note ps = list_shown [OF assms(1)] and qs = list_shown [OF assms(2)]
  have "distinct ps" and "distinct qs"
    using ps qs by (simp_all add: distinct_map)
  then have "distinct (filter P ps)" and "distinct (filter P qs)"
    by simp_all
  moreover have "set (filter P ps) = set (filter P qs)"
    using ps qs assms(3) by auto
  ultimately show ?thesis
    using set_eq_iff_mset_eq_distinct by blast
qed

end

subsection \<open>A server in memory\<close>

text \<open>
  The reference implementation: objects in maps by name, a resource version that a status update
  must match and that every write advances (optimistic concurrency), 404 for a missing object and
  409 for a stale one, and a clock.
\<close>

record mem_world =
  mw_crqs :: "(string, cluster_resource_quota) gomap"
  mw_rqs :: "(string \<times> string, resource_quota) gomap"
  mw_nss :: "kube_namespace list"
  mw_clock :: time

definition mem_get :: "string \<Rightarrow> mem_world \<Rightarrow> (ref_error + cluster_resource_quota) \<times> mem_world" where
  "mem_get n w =
    (case map_of (mw_crqs w) n of
      None \<Rightarrow> (Inl (RStatus 404 n), w)
    | Some c \<Rightarrow> (Inr (c\<lparr>crq_ObjectMeta := (crq_ObjectMeta c)\<lparr>om_Name := n\<rparr>\<rparr>), w))"

definition mem_status_update :: "cluster_resource_quota \<Rightarrow> mem_world \<Rightarrow> ref_error option \<times> mem_world" where
  "mem_status_update c w =
    (case map_of (mw_crqs w) (crq_Name c) of
      None \<Rightarrow> (Some (RStatus 404 (crq_Name c)), w)
    | Some c0 \<Rightarrow>
        if om_ResourceVersion (crq_ObjectMeta c0) \<noteq> om_ResourceVersion (crq_ObjectMeta c)
        then (Some (RStatus 409 (crq_Name c)), w)
        else (None, w\<lparr>mw_crqs := mput (crq_Name c)
          (c0\<lparr>crq_Status := crq_Status c,
              crq_ObjectMeta := (crq_ObjectMeta c0)\<lparr>om_ResourceVersion :=
                om_ResourceVersion (crq_ObjectMeta c0) @ ''+''\<rparr>\<rparr>) (mw_crqs w)\<rparr>))"

text \<open>The object the closure runs on: the stored one if there is one, else the given one.\<close>

definition mem_shown :: "mem_world \<Rightarrow> string \<times> string \<Rightarrow> resource_quota option" where
  "mem_shown w k = map_option (\<lambda>q. q\<lparr>rq_ObjectMeta := (rq_ObjectMeta q)\<lparr>
     om_Namespace := fst k, om_Name := snd k\<rparr>\<rparr>) (map_of (mw_rqs w) k)"

definition mem_list :: "mem_world \<Rightarrow> resource_quota list" where
  "mem_list w = map (\<lambda>k. the (mem_shown w k)) (remdups (map fst (mw_rqs w)))"

definition mem_fetch :: "resource_quota \<Rightarrow> mem_world \<Rightarrow> resource_quota" where
  "mem_fetch q w = (case mem_shown w (quota_key q) of None \<Rightarrow> q | Some q1 \<Rightarrow> q1)"

definition mem_create_or_update ::
  "(cluster_resource_quota \<times> resource_quota \<Rightarrow> ref_error option \<times> cluster_resource_quota \<times> resource_quota) \<Rightarrow>
   cluster_resource_quota \<times> resource_quota \<Rightarrow> mem_world \<Rightarrow>
   (ref_error option \<times> cluster_resource_quota \<times> resource_quota) \<times> mem_world" where
  "mem_create_or_update f s w =
    (case f (fst s, mem_fetch (snd s) w) of
      (Some e, c', q') \<Rightarrow> ((Some e, c', q'), w)
    | (None, c', q') \<Rightarrow> ((None, c', q'),
        w\<lparr>mw_rqs := mput (quota_key (snd s)) q' (mw_rqs w)\<rparr>))"

lemma mem_shown_key: "mem_shown w k = Some q \<Longrightarrow> quota_key q = k"
  by (auto simp: mem_shown_def quota_key_def)

lemma mem_fetch_Namespace [simp]: "rq_Namespace (mem_fetch q w) = rq_Namespace q"
  by (auto simp: mem_fetch_def mem_shown_def quota_key_def split: option.split)

lemma mem_list_shown:
  "distinct (map quota_key (mem_list w))" "q \<in> set (mem_list w) \<longleftrightarrow> mem_shown w (quota_key q) = Some q"
proof -
  have shown: "k \<in> set (map fst (mw_rqs w)) \<longleftrightarrow> (\<exists>q. mem_shown w k = Some q)" for k
    using map_of_eq_None_iff [of "mw_rqs w" k] by (auto simp: mem_shown_def)
  have "quota_key (the (mem_shown w k)) = k" if "k \<in> set (map fst (mw_rqs w))" for k
    using that mem_shown_key [of w k] unfolding shown by (elim exE) simp
  then have "map quota_key (mem_list w) = remdups (map fst (mw_rqs w))"
    by (auto simp: mem_list_def intro!: map_idI)
  then show "distinct (map quota_key (mem_list w))"
    by simp
  show "q \<in> set (mem_list w) \<longleftrightarrow> mem_shown w (quota_key q) = Some q"
  proof
    assume "q \<in> set (mem_list w)"
    then obtain k where "k \<in> set (map fst (mw_rqs w))" and "q = the (mem_shown w k)"
      by (auto simp: mem_list_def)
    then show "mem_shown w (quota_key q) = Some q"
      using shown [of k] mem_shown_key by fastforce
  next
    assume q: "mem_shown w (quota_key q) = Some q"
    then have "quota_key q \<in> set (map fst (mw_rqs w))"
      using shown by blast
    then show "q \<in> set (mem_list w)"
      using image_eqI [of q "\<lambda>k. the (mem_shown w k)" "quota_key q"] q by (simp add: mem_list_def)
  qed
qed

definition mem_client :: "(mem_world, ref_error) kube_client" where
  "mem_client = \<lparr>
     Get_crq = mem_get,
     List_crq = (\<lambda>w. (Inr (map snd (mw_crqs w)), w)),
     List_rq = (\<lambda>w. (Inr (mem_list w), w)),
     List_ns = (\<lambda>w. (Inr (mw_nss w), w)),
     Status_Update = mem_status_update,
     CreateOrUpdate = mem_create_or_update,
     time_Now = (\<lambda>w. (mw_clock w, w\<lparr>mw_clock := mw_clock w + 1\<rparr>))\<rparr>"

abbreviation mem_stored :: "mem_world \<Rightarrow> string \<Rightarrow> cluster_resource_quota option" where
  "mem_stored w \<equiv> map_of (mw_crqs w)"

interpretation mem: api_server mem_client mem_stored
proof unfold_locales
  fix c c' :: cluster_resource_quota and q q' :: resource_quota and w w' :: mem_world
    and r :: "ref_error option" and n :: string and f and s
  show "\<exists>c'. mem_stored w' (crq_Name c) = Some c' \<and> crq_Status c' = crq_Status c"
    if "Status_Update mem_client c w = (None, w')"
    using that by (auto simp: mem_client_def mem_status_update_def gomap_simps
        split: option.splits if_splits)
  show "mem_stored w' n = mem_stored w n"
    if "Status_Update mem_client c w = (r, w')" and "n \<noteq> crq_Name c"
    using that by (auto simp: mem_client_def mem_status_update_def gomap_simps
        split: option.splits if_splits)
  show "mem_stored (snd (Get_crq mem_client n w)) = mem_stored w"
    by (auto simp: mem_client_def mem_get_def split: option.splits)
  show "crq_Name c = n" if "fst (Get_crq mem_client n w) = Inr c"
    using that by (auto simp: mem_client_def mem_get_def split: option.splits)
  show "mem_stored (snd (time_Now mem_client w)) = mem_stored w"
    by (simp add: mem_client_def)
  show "mem_stored (snd (List_ns mem_client w)) = mem_stored w"
    by (simp add: mem_client_def)
  show "mem_stored (snd (CreateOrUpdate mem_client f s w)) = mem_stored w"
    by (simp add: mem_client_def mem_create_or_update_def split: prod.split option.split)
  show "c' = c \<or> (\<exists>q0. c' = fst (snd (f (c, q0))))"
    if "CreateOrUpdate mem_client f (c, q) w = ((r, c', q'), w')"
    using that by (auto simp: mem_client_def mem_create_or_update_def split: prod.splits option.splits)
      (metis fst_conv snd_conv)+
  show "\<exists>q0. fst (f (c, q0)) = None \<and> fst (snd (f (c, q0))) = c' \<and>
      rq_Spec q' = rq_Spec (snd (snd (f (c, q0)))) \<and>
      managed_by (rq_Labels q') = managed_by (rq_Labels (snd (snd (f (c, q0))))) \<and>
      rq_Namespace q0 = rq_Namespace q"
    if "CreateOrUpdate mem_client f (c, q) w = ((None, c', q'), w')"
    using that
    by (intro exI [of _ "mem_fetch q w"])
      (auto simp: mem_client_def mem_create_or_update_def split: prod.splits option.splits)
qed

interpretation mem_quotas: quiet_quota_view mem_client mem_shown
proof unfold_locales
  fix c c' :: cluster_resource_quota and q q' :: resource_quota and w w' :: mem_world
    and n :: string and f and qs and k
  show "rq_Status q' = status_of (mem_shown w (quota_key q))"
    if "CreateOrUpdate mem_client f (c, q) w = ((None, c', q'), w')" and "keeps_status f"
      and "rq_Status q = empty_rq_status"
  proof -
    have "q' = snd (snd (f (c, mem_fetch q w)))"
      using that(1) by (auto simp: mem_client_def mem_create_or_update_def split: prod.splits option.splits)
    then show ?thesis
      using that(2,3) by (simp add: mem_fetch_def status_of_def split: option.split)
  qed
  show "quota_key q = k" if "mem_shown w k = Some q"
    using that by (rule mem_shown_key)
  show "mem_shown (snd (Get_crq mem_client n w)) = mem_shown w"
    by (auto simp: mem_client_def mem_get_def split: option.splits)
  show "mem_shown (snd (List_ns mem_client w)) = mem_shown w"
    by (simp add: mem_client_def)
  show "mem_shown (snd (Status_Update mem_client c w)) = mem_shown w"
    by (auto simp: mem_client_def mem_status_update_def mem_shown_def fun_eq_iff split: option.splits)
  show "mem_shown (snd (CreateOrUpdate mem_client f (c, q) w)) k = mem_shown w k" if "k \<noteq> quota_key q"
    using that by (auto simp: mem_client_def mem_create_or_update_def mem_shown_def gomap_simps
        split: prod.split option.split)
  show "\<exists>q1. mem_shown w' (quota_key q) = Some q1 \<and> rq_Status q1 = rq_Status q' \<and> rq_Labels q1 = rq_Labels q'"
    if "CreateOrUpdate mem_client f (c, q) w = ((None, c', q'), w')"
    using that by (auto simp: mem_client_def mem_create_or_update_def mem_shown_def gomap_simps
        split: prod.splits option.splits)
  show "mem_shown w' = mem_shown w \<and> distinct (map quota_key qs) \<and>
      (\<forall>q. q \<in> set qs \<longleftrightarrow> mem_shown w (quota_key q) = Some q)"
    if "List_rq mem_client w = (Inr qs, w')"
    using that mem_list_shown by (auto simp: mem_client_def)
qed

end
