(* ===== verification/Informer_Factory.thy ===== *)
theory Informer_Factory
  imports Api_Server
begin

section \<open>The shared informer factory (\<open>generated/informers/externalversions\<close>)\<close>

text \<open>
  The factory that hands out, starts and stops the informers of the two quota types. It is the
  one piece of generated code with state of its own, and the adaptor of
  \<open>resourcequota-adaptor.go\<close> depends on how it shares informers.

  An informer is an object behind a pointer, so the factory owns a store of informers: the
  address of an informer is its position in \<open>f_store\<close>. The mutex \<open>f.lock\<close> makes each method one
  atomic step; the goroutines that \<open>Start\<close> launches end at some later step, and \<open>Shutdown\<close> is
  two steps, because it waits in between without the lock.
\<close>

named_theorems factory_simps "the operations of the factory, unfolded"

subsection \<open>State\<close>

text \<open>
  \<open>'o\<close> are list options, \<open>'tr\<close> transform functions. \<open>inf_Launched\<close> counts the calls of \<open>Run\<close>. The indexers
  name the index functions of client-go; the code uses one.
\<close>

datatype index_func = MetaNamespaceIndexFunc

type_synonym indexers = "(string, index_func) gomap"

definition NamespaceIndex :: string where
  "NamespaceIndex = ''namespace''"

record ('o, 'tr) informer =
  inf_Type :: string
  inf_Namespace :: string
  inf_tweakListOptions :: "('o \<Rightarrow> 'o) option"
  inf_Resync :: time
  inf_Indexers :: indexers
  inf_Transform :: "'tr option"
  inf_Launched :: nat

record ('o, 'tr) factory =
  f_namespace :: string
  f_tweakListOptions :: "('o \<Rightarrow> 'o) option"
  f_defaultResync :: time
  f_customResync :: "(string, time) gomap"
  f_transform :: "'tr option"
  f_informers :: "(string, nat) gomap"
  f_startedInformers :: "(string, bool) gomap"
  f_shuttingDown :: bool
  f_wg :: nat
  f_store :: "('o, 'tr) informer list"

definition NamespaceAll :: string where
  "NamespaceAll = []"

subsection \<open>Options and constructor\<close>

type_synonym ('o, 'tr) factory_option = "('o, 'tr) factory \<Rightarrow> ('o, 'tr) factory"

definition WithCustomResyncConfig :: "(string, time) gomap \<Rightarrow> ('o, 'tr) factory_option" where
  "WithCustomResyncConfig resyncConfig factory =
     factory\<lparr>f_customResync := fold (\<lambda>(k, v). mput k v) resyncConfig (f_customResync factory)\<rparr>"

definition WithTweakListOptions :: "('o \<Rightarrow> 'o) option \<Rightarrow> ('o, 'tr) factory_option" where
  "WithTweakListOptions tweakListOptions factory = factory\<lparr>f_tweakListOptions := tweakListOptions\<rparr>"

definition WithNamespace :: "string \<Rightarrow> ('o, 'tr) factory_option" where
  "WithNamespace namespace factory = factory\<lparr>f_namespace := namespace\<rparr>"

definition WithTransform :: "'tr option \<Rightarrow> ('o, 'tr) factory_option" where
  "WithTransform transform factory = factory\<lparr>f_transform := transform\<rparr>"

definition NewSharedInformerFactoryWithOptions ::
  "time \<Rightarrow> ('o, 'tr) factory_option list \<Rightarrow> ('o, 'tr) factory" where
  "NewSharedInformerFactoryWithOptions defaultResync options =
    fold (\<lambda>opt factory. opt factory) options
      \<lparr>f_namespace = NamespaceAll, f_tweakListOptions = None, f_defaultResync = defaultResync,
       f_customResync = [], f_transform = None, f_informers = [], f_startedInformers = [],
       f_shuttingDown = False, f_wg = 0, f_store = []\<rparr>"

definition NewSharedInformerFactory :: "time \<Rightarrow> ('o, 'tr) factory" where
  "NewSharedInformerFactory defaultResync = NewSharedInformerFactoryWithOptions defaultResync []"

definition NewFilteredSharedInformerFactory ::
  "time \<Rightarrow> string \<Rightarrow> ('o \<Rightarrow> 'o) option \<Rightarrow> ('o, 'tr) factory" where
  "NewFilteredSharedInformerFactory defaultResync namespace tweakListOptions =
    NewSharedInformerFactoryWithOptions defaultResync
      [WithNamespace namespace, WithTweakListOptions tweakListOptions]"

subsection \<open>Informers of the two types\<close>

text \<open>The constructors close over the namespace and the tweak; cluster-scoped objects have none.\<close>

definition NewFilteredResourceQuotaInformer ::
  "string \<Rightarrow> time \<Rightarrow> indexers \<Rightarrow> ('o \<Rightarrow> 'o) option \<Rightarrow> ('o, 'tr) informer" where
  "NewFilteredResourceQuotaInformer namespace resyncPeriod indexers tweakListOptions =
    \<lparr>inf_Type = ''ResourceQuota'', inf_Namespace = namespace, inf_tweakListOptions = tweakListOptions,
     inf_Resync = resyncPeriod, inf_Indexers = indexers, inf_Transform = None, inf_Launched = 0\<rparr>"

definition NewResourceQuotaInformer :: "string \<Rightarrow> time \<Rightarrow> indexers \<Rightarrow> ('o, 'tr) informer" where
  "NewResourceQuotaInformer namespace resyncPeriod indexers =
    NewFilteredResourceQuotaInformer namespace resyncPeriod indexers None"

definition NewFilteredClusterResourceQuotaInformer ::
  "time \<Rightarrow> indexers \<Rightarrow> ('o \<Rightarrow> 'o) option \<Rightarrow> ('o, 'tr) informer" where
  "NewFilteredClusterResourceQuotaInformer resyncPeriod indexers tweakListOptions =
    \<lparr>inf_Type = ''ClusterResourceQuota'', inf_Namespace = [], inf_tweakListOptions = tweakListOptions,
     inf_Resync = resyncPeriod, inf_Indexers = indexers, inf_Transform = None, inf_Launched = 0\<rparr>"

definition NewClusterResourceQuotaInformer :: "time \<Rightarrow> indexers \<Rightarrow> ('o, 'tr) informer" where
  "NewClusterResourceQuotaInformer resyncPeriod indexers =
    NewFilteredClusterResourceQuotaInformer resyncPeriod indexers None"

text \<open>
  \<open>ListFunc\<close> and \<open>WatchFunc\<close> of an informer, and their variants with a context: the client is asked with the
  tweaked options.
\<close>

definition informer_options :: "('o, 'tr) informer \<Rightarrow> 'o \<Rightarrow> 'o" where
  "informer_options i options =
    (case inf_tweakListOptions i of None \<Rightarrow> options | Some tweak \<Rightarrow> tweak options)"

definition informer_ListFunc :: "(string \<Rightarrow> 'o \<Rightarrow> 'w \<Rightarrow> 'r \<times> 'w) \<Rightarrow> ('o, 'tr) informer \<Rightarrow> 'o \<Rightarrow> 'w \<Rightarrow> 'r \<times> 'w" where
  "informer_ListFunc client_List i options w =
    client_List (inf_Namespace i) (informer_options i options) w"

definition informer_WatchFunc :: "(string \<Rightarrow> 'o \<Rightarrow> 'w \<Rightarrow> 'x \<times> 'w) \<Rightarrow> ('o, 'tr) informer \<Rightarrow> 'o \<Rightarrow> 'w \<Rightarrow> 'x \<times> 'w" where
  "informer_WatchFunc client_Watch i options w =
    client_Watch (inf_Namespace i) (informer_options i options) w"

subsection \<open>Operations\<close>

definition set_inf :: "nat \<Rightarrow> (('o, 'tr) informer \<Rightarrow> ('o, 'tr) informer) \<Rightarrow> ('o, 'tr) factory \<Rightarrow> ('o, 'tr) factory" where
  "set_inf a u f = f\<lparr>f_store := (f_store f)[a := u (f_store f ! a)]\<rparr>"

definition InformerFor ::
  "string \<Rightarrow> (time \<Rightarrow> ('o, 'tr) informer) \<Rightarrow> ('o, 'tr) factory \<Rightarrow> nat \<times> ('o, 'tr) factory" where
  "InformerFor informerType newFunc f =
    (case map_of (f_informers f) informerType of
      Some informer \<Rightarrow> (informer, f)
    | None \<Rightarrow>
        let resyncPeriod = (case map_of (f_customResync f) informerType of
              None \<Rightarrow> f_defaultResync f | Some r \<Rightarrow> r);
            informer = length (f_store f);
            obj = (newFunc resyncPeriod)\<lparr>inf_Transform := f_transform f\<rparr>
        in (informer, f\<lparr>f_store := f_store f @ [obj],
              f_informers := mput informerType informer (f_informers f)\<rparr>))"

text \<open>One round of the loop of \<open>Start\<close>.\<close>

definition start_one :: "string \<times> nat \<Rightarrow> ('o, 'tr) factory \<Rightarrow> ('o, 'tr) factory" where
  "start_one ti f =
    (case ti of (informerType, informer) \<Rightarrow>
      if map_of (f_startedInformers f) informerType = Some True then f
      else (set_inf informer (\<lambda>i. i\<lparr>inf_Launched := Suc (inf_Launched i)\<rparr>) f)
        \<lparr>f_wg := Suc (f_wg f),
         f_startedInformers := mput informerType True (f_startedInformers f)\<rparr>)"

definition Start :: "('o, 'tr) factory \<Rightarrow> ('o, 'tr) factory" where
  "Start f = (if f_shuttingDown f then f else fold start_one (f_informers f) f)"

definition Shutdown_begin :: "('o, 'tr) factory \<Rightarrow> ('o, 'tr) factory" where
  "Shutdown_begin f = f\<lparr>f_shuttingDown := True\<rparr>"

text \<open>\<open>wg.Wait()\<close> returns when no goroutine of the factory is left.\<close>

definition Shutdown_returns :: "('o, 'tr) factory \<Rightarrow> bool" where
  "Shutdown_returns f \<longleftrightarrow> f_wg f = 0"

text \<open>The deferred \<open>wg.Done()\<close> of one launched goroutine.\<close>

definition goroutine_done :: "('o, 'tr) factory \<Rightarrow> ('o, 'tr) factory" where
  "goroutine_done f = f\<lparr>f_wg := f_wg f - 1\<rparr>"

definition started_informers :: "('o, 'tr) factory \<Rightarrow> (string, nat) gomap" where
  "started_informers f =
    filter (\<lambda>(informerType, _). map_of (f_startedInformers f) informerType = Some True) (f_informers f)"

text \<open>
  \<open>WaitForCacheSync\<close>: \<open>synced a\<close> is what \<open>cache.WaitForCacheSync(stopCh, informer.HasSynced)\<close>
  answers for the informer at address \<open>a\<close>.
\<close>

definition WaitForCacheSync :: "(nat \<Rightarrow> bool) \<Rightarrow> ('o, 'tr) factory \<Rightarrow> (string, bool) gomap" where
  "WaitForCacheSync synced f =
    fold (\<lambda>(informType, informer). mput informType (synced informer)) (started_informers f) []"

subsection \<open>Access by type (\<open>quota/interface.go\<close>, \<open>quota/v1\<close>)\<close>

text \<open>
  The accessors on the way from the factory to an informer. Each is a struct with the factory, a
  pointer, and copies of the namespace and the tweak; the factory is the state here, so the records
  have the copies.
\<close>

record 'o quota_group =
  qg_namespace :: string
  qg_tweakListOptions :: "('o \<Rightarrow> 'o) option"

record 'o quota_version =
  qv_namespace :: string
  qv_tweakListOptions :: "('o \<Rightarrow> 'o) option"

record 'o resource_quota_informer =
  rqi_tweakListOptions :: "('o \<Rightarrow> 'o) option"
  rqi_namespace :: string

record 'o cluster_resource_quota_informer =
  crqi_tweakListOptions :: "('o \<Rightarrow> 'o) option"

definition quota_New :: "string \<Rightarrow> ('o \<Rightarrow> 'o) option \<Rightarrow> 'o quota_group" where
  "quota_New namespace tweakListOptions = \<lparr>qg_namespace = namespace, qg_tweakListOptions = tweakListOptions\<rparr>"

definition v1_New :: "string \<Rightarrow> ('o \<Rightarrow> 'o) option \<Rightarrow> 'o quota_version" where
  "v1_New namespace tweakListOptions = \<lparr>qv_namespace = namespace, qv_tweakListOptions = tweakListOptions\<rparr>"

definition factory_Quota :: "('o, 'tr) factory \<Rightarrow> 'o quota_group" where
  "factory_Quota f = quota_New (f_namespace f) (f_tweakListOptions f)"

definition group_V1 :: "'o quota_group \<Rightarrow> 'o quota_version" where
  "group_V1 g = v1_New (qg_namespace g) (qg_tweakListOptions g)"

definition version_ClusterResourceQuotas :: "'o quota_version \<Rightarrow> 'o cluster_resource_quota_informer" where
  "version_ClusterResourceQuotas v = \<lparr>crqi_tweakListOptions = qv_tweakListOptions v\<rparr>"

definition version_ResourceQuotas :: "'o quota_version \<Rightarrow> 'o resource_quota_informer" where
  "version_ResourceQuotas v =
    \<lparr>rqi_tweakListOptions = qv_tweakListOptions v, rqi_namespace = qv_namespace v\<rparr>"

definition resourceQuota_defaultInformer :: "'o resource_quota_informer \<Rightarrow> time \<Rightarrow> ('o, 'tr) informer" where
  "resourceQuota_defaultInformer i resyncPeriod =
    NewFilteredResourceQuotaInformer (rqi_namespace i) resyncPeriod
      [(NamespaceIndex, MetaNamespaceIndexFunc)] (rqi_tweakListOptions i)"

definition resourceQuota_Informer :: "'o resource_quota_informer \<Rightarrow> ('o, 'tr) factory \<Rightarrow> nat \<times> ('o, 'tr) factory" where
  "resourceQuota_Informer i f = InformerFor ''ResourceQuota'' (resourceQuota_defaultInformer i) f"

definition clusterResourceQuota_defaultInformer ::
  "'o cluster_resource_quota_informer \<Rightarrow> time \<Rightarrow> ('o, 'tr) informer" where
  "clusterResourceQuota_defaultInformer i resyncPeriod =
    NewFilteredClusterResourceQuotaInformer resyncPeriod
      [(NamespaceIndex, MetaNamespaceIndexFunc)] (crqi_tweakListOptions i)"

definition clusterResourceQuota_Informer ::
  "'o cluster_resource_quota_informer \<Rightarrow> ('o, 'tr) factory \<Rightarrow> nat \<times> ('o, 'tr) factory" where
  "clusterResourceQuota_Informer i f = InformerFor ''ClusterResourceQuota'' (clusterResourceQuota_defaultInformer i) f"

text \<open>\<open>f.Quota().V1().ResourceQuotas().Informer()\<close>, and the same for the other type.\<close>

definition ResourceQuotas_Informer :: "('o, 'tr) factory \<Rightarrow> nat \<times> ('o, 'tr) factory" where
  "ResourceQuotas_Informer f = resourceQuota_Informer (version_ResourceQuotas (group_V1 (factory_Quota f))) f"

definition ClusterResourceQuotas_Informer :: "('o, 'tr) factory \<Rightarrow> nat \<times> ('o, 'tr) factory" where
  "ClusterResourceQuotas_Informer f =
    clusterResourceQuota_Informer (version_ClusterResourceQuotas (group_V1 (factory_Quota f))) f"

lemmas access_defs = quota_New_def v1_New_def factory_Quota_def group_V1_def version_ResourceQuotas_def
  version_ClusterResourceQuotas_def resourceQuota_Informer_def clusterResourceQuota_Informer_def
  resourceQuota_defaultInformer_def clusterResourceQuota_defaultInformer_def

text \<open>What the chain comes to: the namespace and the tweak of the factory reach the informer.\<close>

lemma ResourceQuotas_Informer_eq:
  "ResourceQuotas_Informer f = InformerFor ''ResourceQuota'' (\<lambda>r. NewFilteredResourceQuotaInformer
     (f_namespace f) r [(NamespaceIndex, MetaNamespaceIndexFunc)] (f_tweakListOptions f)) f"
  unfolding ResourceQuotas_Informer_def access_defs resourceQuota_defaultInformer_def [abs_def] by simp

lemma ClusterResourceQuotas_Informer_eq:
  "ClusterResourceQuotas_Informer f = InformerFor ''ClusterResourceQuota'' (\<lambda>r.
     NewFilteredClusterResourceQuotaInformer r [(NamespaceIndex, MetaNamespaceIndexFunc)] (f_tweakListOptions f)) f"
  unfolding ClusterResourceQuotas_Informer_def access_defs clusterResourceQuota_defaultInformer_def [abs_def] by simp

subsection \<open>Access by resource (\<open>generic.go\<close>)\<close>

record generic_informer =
  gi_informer :: nat
  gi_resource :: group_resource

definition generic_Informer :: "generic_informer \<Rightarrow> nat" where
  "generic_Informer g = gi_informer g"

definition v1_resource :: "string \<Rightarrow> group_version_resource" where
  "v1_resource r = \<lparr>gvr_Group = GroupName, gvr_Version = ''v1'', gvr_Resource = r\<rparr>"

definition GroupResource :: "group_version_resource \<Rightarrow> group_resource" where
  "GroupResource r = \<lparr>gr_Group = gvr_Group r, gr_Resource = gvr_Resource r\<rparr>"

definition ForResource :: "'e err_lib \<Rightarrow> group_version_resource \<Rightarrow> ('o, 'tr) factory \<Rightarrow>
    ('e + generic_informer) \<times> ('o, 'tr) factory" where
  "ForResource E resource f =
    (if resource = v1_resource ''clusterresourcequotas'' then
       (case ClusterResourceQuotas_Informer f of (a, f') \<Rightarrow>
         (Inr \<lparr>gi_informer = a, gi_resource = GroupResource resource\<rparr>, f'))
     else if resource = v1_resource ''resourcequotas'' then
       (case ResourceQuotas_Informer f of (a, f') \<Rightarrow>
         (Inr \<lparr>gi_informer = a, gi_resource = GroupResource resource\<rparr>, f'))
     else (Inl (Errorf E ''no informer found for %v'' [FStr (gvr_Resource resource)]), f))"

text \<open>
  \<open>SetTransform\<close> of client-go: it is refused once the informer runs, which the callers of the
  repository do not look at.
\<close>

definition SetTransform :: "nat \<Rightarrow> 'tr \<Rightarrow> ('o, 'tr) factory \<Rightarrow> ('o, 'tr) factory" where
  "SetTransform a tr f =
    (if inf_Launched (f_store f ! a) = 0 then set_inf a (\<lambda>i. i\<lparr>inf_Transform := Some tr\<rparr>) f else f)"

subsection \<open>The interface the adaptor uses\<close>

text \<open>
  A source of shared informers: an object type is registered once, and from then on asking for
  it returns the registered informer and changes nothing.
\<close>

locale informer_source =
  fixes informer_for :: "'t \<Rightarrow> 's \<Rightarrow> 'a \<times> 's" and registered :: "'s \<Rightarrow> 't \<Rightarrow> 'a option"
  assumes registers: "registered (snd (informer_for t s)) t = Some (fst (informer_for t s))"
    and shares: "registered s t = Some a \<Longrightarrow> informer_for t s = (a, s)"
begin

lemma ask_twice: "informer_for t s = (a, s') \<Longrightarrow> informer_for t s' = (a, s')"
  using registers [of t s] shares by simp

lemma ask_again: "informer_for t s = (a, s') \<Longrightarrow> registered s'' t = registered s' t \<Longrightarrow>
    informer_for t s'' = (a, s'')"
  using registers [of t s] shares by simp

end

lemma InformerFor_registered:
  "map_of (f_informers f) t = Some a \<Longrightarrow> InformerFor t nf f = (a, f)"
  by (simp add: InformerFor_def)

lemma InformerFor_new:
  assumes "map_of (f_informers f) t = None"
  shows "fst (InformerFor t nf f) = length (f_store f)"
    and "f_informers (snd (InformerFor t nf f)) = mput t (length (f_store f)) (f_informers f)"
    and "f_store (snd (InformerFor t nf f)) = f_store f @
      [(nf (case map_of (f_customResync f) t of None \<Rightarrow> f_defaultResync f | Some r \<Rightarrow> r))
        \<lparr>inf_Transform := f_transform f\<rparr>]"
    and "f_startedInformers (snd (InformerFor t nf f)) = f_startedInformers f"
    and "f_shuttingDown (snd (InformerFor t nf f)) = f_shuttingDown f"
    and "f_wg (snd (InformerFor t nf f)) = f_wg f"
  using assms by (simp_all add: InformerFor_def Let_def)

interpretation source: informer_source "\<lambda>t. InformerFor t (newFunc t)" "\<lambda>f. map_of (f_informers f)"
  for newFunc :: "string \<Rightarrow> time \<Rightarrow> ('o, 'tr) informer"
proof unfold_locales
  fix t and f :: "('o, 'tr) factory" and a
  show "map_of (f_informers (snd (InformerFor t (newFunc t) f))) t = Some (fst (InformerFor t (newFunc t) f))"
    by (cases "map_of (f_informers f) t")
      (simp_all add: InformerFor_new InformerFor_registered gomap_simps)
  show "InformerFor t (newFunc t) f = (a, f)" if "map_of (f_informers f) t = Some a"
    using that by (rule InformerFor_registered)
qed

subsection \<open>Steps and reachable states\<close>

text \<open>
  The methods of the factory and the end of a goroutine are lifecycle steps; besides, a client
  may set the transform of an informer it holds.
\<close>

inductive lifecycle_step :: "('o, 'tr) factory \<Rightarrow> ('o, 'tr) factory \<Rightarrow> bool" where
  informer_for: "(\<And>r. inf_Launched (nf r) = 0) \<Longrightarrow> lifecycle_step f (snd (InformerFor t nf f))"
| start: "lifecycle_step f (Start f)"
| shutdown: "lifecycle_step f (Shutdown_begin f)"
| goroutine: "0 < f_wg f \<Longrightarrow> lifecycle_step f (goroutine_done f)"

inductive factory_step :: "('o, 'tr) factory \<Rightarrow> ('o, 'tr) factory \<Rightarrow> bool" where
  lifecycle: "lifecycle_step f f' \<Longrightarrow> factory_step f f'"
| transform: "a < length (f_store f) \<Longrightarrow> factory_step f (SetTransform a tr f)"

inductive_simps factory_step_iff: "factory_step f f'"

definition fresh_factory :: "('o, 'tr) factory \<Rightarrow> bool" where
  "fresh_factory f \<longleftrightarrow> f_informers f = [] \<and> f_startedInformers f = [] \<and> f_store f = [] \<and>
     f_wg f = 0 \<and> \<not> f_shuttingDown f"

inductive factory_reach :: "('o, 'tr) factory \<Rightarrow> bool" where
  fresh: "fresh_factory f \<Longrightarrow> factory_reach f"
| step: "factory_reach f \<Longrightarrow> factory_step f f' \<Longrightarrow> factory_reach f'"

definition launched :: "('o, 'tr) factory \<Rightarrow> nat \<Rightarrow> nat" where
  "launched f a = (if a < length (f_store f) then inf_Launched (f_store f ! a) else 0)"

definition is_started :: "('o, 'tr) factory \<Rightarrow> string \<Rightarrow> bool" where
  "is_started f t \<longleftrightarrow> map_of (f_startedInformers f) t = Some True"

text \<open>
  The invariant: informers have addresses of their own in the store, every address is
  registered, an informer has been launched exactly if its type is marked as started, only
  registered types are marked, and the wait group counts at most the launches.
\<close>

definition factory_inv :: "('o, 'tr) factory \<Rightarrow> bool" where
  "factory_inv f \<longleftrightarrow>
     mwf (f_informers f) \<and> mwf (f_startedInformers f) \<and>
     distinct (map snd (f_informers f)) \<and>
     set (map snd (f_informers f)) = {..<length (f_store f)} \<and>
     (\<forall>t a. map_of (f_informers f) t = Some a \<longrightarrow> launched f a = (if is_started f t then 1 else 0)) \<and>
     (\<forall>t. is_started f t \<longrightarrow> map_of (f_informers f) t \<noteq> None) \<and>
     f_wg f \<le> sum_list (map inf_Launched (f_store f))"

lemma factory_inv_launched:
  "factory_inv f \<Longrightarrow> map_of (f_informers f) t = Some a \<Longrightarrow>
   launched f a = (if is_started f t then 1 else 0)"
  by (simp add: factory_inv_def)

lemma factory_inv_address:
  assumes "factory_inv f" and "map_of (f_informers f) t = Some a"
  shows "a < length (f_store f)"
proof -
  have "a \<in> set (map snd (f_informers f))"
    using map_of_SomeD [OF assms(2)] by force
  then show ?thesis
    using assms(1) by (simp add: factory_inv_def)
qed

lemma factory_inv_fresh: "fresh_factory f \<Longrightarrow> factory_inv f"
  by (simp add: factory_inv_def fresh_factory_def is_started_def)

lemma launched_set_inf:
  "a < length (f_store f) \<Longrightarrow>
   launched (set_inf a u f) b = (if b = a then inf_Launched (u (f_store f ! a)) else launched f b)"
  by (simp add: launched_def set_inf_def)

lemma set_inf_simps [simp]:
  "f_informers (set_inf a u f) = f_informers f"
  "f_startedInformers (set_inf a u f) = f_startedInformers f"
  "f_shuttingDown (set_inf a u f) = f_shuttingDown f"
  "f_wg (set_inf a u f) = f_wg f"
  "length (f_store (set_inf a u f)) = length (f_store f)"
  by (simp_all add: set_inf_def)

lemma sum_launched_update:
  "a < length xs \<Longrightarrow> sum_list (map inf_Launched (xs[a := y])) + inf_Launched (xs ! a) =
     sum_list (map inf_Launched xs) + inf_Launched y"
proof (induction xs arbitrary: a)
  case (Cons x xs)
  then show ?case
    by (cases a) fastforce+
qed simp

lemma factory_inv_InformerFor:
  assumes inv: "factory_inv f" and nf: "\<And>r. inf_Launched (nf r) = 0"
  shows "factory_inv (snd (InformerFor t nf f))"
proof (cases "map_of (f_informers f) t")
  case (Some a)
  with inv show ?thesis by (simp add: InformerFor_registered)
next
  case None
  let ?f' = "snd (InformerFor t nf f)"
  have "t \<notin> fst ` set (f_informers f)"
    using None by (simp add: map_of_eq_None_iff)
  then have put: "mput t (length (f_store f)) (f_informers f) = f_informers f @ [(t, length (f_store f))]"
    by (rule mput_new)
  have launched': "launched ?f' a = launched f a" for a
    by (auto simp: launched_def InformerFor_new [OF None] nth_append nf less_Suc_eq)
  have "map_of (f_informers ?f') t' = Some a \<Longrightarrow> launched ?f' a = (if is_started ?f' t' then 1 else 0)"
    for t' a
    using inv None unfolding launched' factory_inv_def
    by (auto simp: InformerFor_new [OF None] is_started_def launched_def gomap_simps split: if_splits)
  moreover have "set (map snd (f_informers ?f')) = {..<length (f_store ?f')}"
    using inv by (simp add: factory_inv_def InformerFor_new [OF None] put lessThan_Suc)
  moreover have "distinct (map snd (f_informers ?f'))"
    using inv by (simp add: factory_inv_def InformerFor_new [OF None] put)
  ultimately show ?thesis
    using inv nf
    by (auto simp: factory_inv_def InformerFor_new [OF None] is_started_def gomap_simps intro: gm_wf)
qed

lemma start_one_simps [simp]:
  "f_informers (start_one ti f) = f_informers f"
  "f_shuttingDown (start_one ti f) = f_shuttingDown f"
  "length (f_store (start_one ti f)) = length (f_store f)"
  by (simp_all add: start_one_def split: prod.split)

lemma is_started_start_one:
  "is_started (start_one (t, a) f) t' \<longleftrightarrow> t' = t \<or> is_started f t'"
  by (auto simp: start_one_def is_started_def gomap_simps)

lemma launched_start_one:
  assumes "a < length (f_store f)"
  shows "launched (start_one (t, a) f) b =
    (if b = a \<and> \<not> is_started f t then Suc (launched f a) else launched f b)"
  using assms
  by (simp add: start_one_def is_started_def launched_def set_inf_def nth_list_update)

lemma factory_inv_start_one:
  assumes inv: "factory_inv f" and reg: "map_of (f_informers f) t = Some a"
  shows "factory_inv (start_one (t, a) f)"
proof -
  have wf: "mwf (f_informers f)" "distinct (map snd (f_informers f))"
    using inv by (simp_all add: factory_inv_def)
  have a: "a < length (f_store f)"
    using inv reg by (rule factory_inv_address)
  have same: "t' = t" if "map_of (f_informers f) t' = Some a" for t'
    using wf(2) reg that by (rule map_of_same_value)
  have "f_wg f \<le> sum_list (map inf_Launched (f_store f))"
    using inv by (simp add: factory_inv_def)
  then have wg: "f_wg (start_one (t, a) f) \<le> sum_list (map inf_Launched (f_store (start_one (t, a) f)))"
    using sum_launched_update [OF a, of "(f_store f ! a)\<lparr>inf_Launched := Suc (inf_Launched (f_store f ! a))\<rparr>"]
    by (auto simp: start_one_def set_inf_def)
  have "launched (start_one (t, a) f) b = (if is_started (start_one (t, a) f) t' then 1 else 0)"
    if t': "map_of (f_informers f) t' = Some b" for t' b
  proof (cases "t' = t")
    case True
    then have "b = a"
      using t' reg by simp
    with True show ?thesis
      using factory_inv_launched [OF inv reg] launched_start_one [OF a, of t a]
      by (simp add: is_started_start_one split: if_splits)
  next
    case False
    then have "b \<noteq> a"
      using t' same by blast
    then show ?thesis
      using False factory_inv_launched [OF inv t']
      by (simp add: launched_start_one [OF a] is_started_start_one)
  qed
  moreover have "mwf (f_startedInformers (start_one (t, a) f))"
    using inv by (auto simp: factory_inv_def start_one_def intro: gm_wf)
  ultimately show ?thesis
    using inv reg wg by (auto simp: factory_inv_def is_started_start_one)
qed

lemma fold_start_one_simps [simp]:
  "f_informers (fold start_one tis f) = f_informers f"
  "f_shuttingDown (fold start_one tis f) = f_shuttingDown f"
  "length (f_store (fold start_one tis f)) = length (f_store f)"
  by (induction tis arbitrary: f) simp_all

lemma factory_inv_fold_start_one:
  "factory_inv f \<Longrightarrow> (\<And>t a. (t, a) \<in> set tis \<Longrightarrow> map_of (f_informers f) t = Some a) \<Longrightarrow>
   factory_inv (fold start_one tis f)"
proof (induction tis arbitrary: f)
  case (Cons ti tis)
  obtain t a where ti: "ti = (t, a)"
    by (cases ti)
  have "factory_inv (start_one (t, a) f)"
    using Cons.prems ti by (intro factory_inv_start_one) auto
  then show ?case
    using Cons ti by simp
qed simp

lemma factory_inv_Start:
  assumes "factory_inv f"
  shows "factory_inv (Start f)"
proof -
  have "mwf (f_informers f)"
    using assms by (simp add: factory_inv_def)
  then show ?thesis
    using assms by (auto simp: Start_def intro!: factory_inv_fold_start_one mwf_get)
qed

lemma is_started_fold_start_one:
  "is_started (fold start_one tis f) t \<longleftrightarrow> t \<in> fst ` set tis \<or> is_started f t"
proof (induction tis arbitrary: f)
  case (Cons ti tis)
  then show ?case
    by (cases ti) (auto simp: is_started_start_one)
qed simp

lemma start_one_started: "is_started f t \<Longrightarrow> start_one (t, a) f = f"
  by (simp add: start_one_def is_started_def)

lemma fold_start_one_idle:
  "(\<And>t. t \<in> fst ` set tis \<Longrightarrow> is_started f t) \<Longrightarrow> fold start_one tis f = f"
proof (induction tis)
  case (Cons ti tis)
  then show ?case
    by (cases ti) (simp add: start_one_started)
qed simp

lemma factory_inv_cong:
  assumes "factory_inv f" and "f_informers f' = f_informers f"
    and "f_startedInformers f' = f_startedInformers f" and "f_wg f' \<le> f_wg f"
    and "map inf_Launched (f_store f') = map inf_Launched (f_store f)"
  shows "factory_inv f'"
proof -
  have "length (f_store f') = length (f_store f)"
    using assms(5) by (rule map_eq_imp_length_eq)
  then have "launched f' a = launched f a" for a
    using assms(5) by (simp add: launched_def) (metis nth_map)
  then show ?thesis
    using assms \<open>length (f_store f') = length (f_store f)\<close>
    by (simp add: factory_inv_def is_started_def)
qed

lemma factory_inv_SetTransform: "factory_inv f \<Longrightarrow> factory_inv (SetTransform a tr f)"
proof (cases "a < length (f_store f)")
  case True
  assume "factory_inv f"
  then show ?thesis
    using True
    by (auto simp: SetTransform_def set_inf_def map_update list_update_same_conv
        intro!: factory_inv_cong [of f])
next
  case False
  assume "factory_inv f"
  then show ?thesis
    using False by (auto simp: SetTransform_def set_inf_def list_update_beyond intro: factory_inv_cong [of f])
qed

lemma lifecycle_step_inv: "lifecycle_step f f' \<Longrightarrow> factory_inv f \<Longrightarrow> factory_inv f'"
proof (induction rule: lifecycle_step.induct)
  case (informer_for nf f t)
  then show ?case by (intro factory_inv_InformerFor)
next
  case (start f)
  then show ?case by (rule factory_inv_Start)
qed (auto simp: Shutdown_begin_def goroutine_done_def intro: factory_inv_cong)

lemma factory_step_inv: "factory_step f f' \<Longrightarrow> factory_inv f \<Longrightarrow> factory_inv f'"
  by (auto simp: factory_step_iff intro: lifecycle_step_inv factory_inv_SetTransform)

lemma factory_reach_inv: "factory_reach f \<Longrightarrow> factory_inv f"
  by (induction rule: factory_reach.induct) (auto intro: factory_inv_fresh factory_step_inv)

lemma InformerFor_cases:
  obtains (old) "snd (InformerFor t nf f) = f"
  | (new) "map_of (f_informers f) t = None"
  by (cases "map_of (f_informers f) t") (auto simp: InformerFor_registered)

text \<open>Registrations are never changed and addresses keep their informer.\<close>

lemma SetTransform_informers [simp]:
  "f_informers (SetTransform a tr f) = f_informers f"
  "f_shuttingDown (SetTransform a tr f) = f_shuttingDown f"
  "f_wg (SetTransform a tr f) = f_wg f"
  by (simp_all add: SetTransform_def)

lemma Start_informers [simp]: "f_informers (Start f) = f_informers f"
  by (simp add: Start_def)

lemma factory_step_informers:
  "factory_step f f' \<Longrightarrow> map_of (f_informers f) t = Some a \<Longrightarrow> map_of (f_informers f') t = Some a"
proof (induction rule: factory_step.induct)
  case (lifecycle f f')
  then show ?case
  proof (induction rule: lifecycle_step.induct)
    case (informer_for nf f t')
    then show ?case
      by (cases rule: InformerFor_cases [of t' nf f]) (auto simp: InformerFor_new gomap_simps)
  qed (simp_all add: Shutdown_begin_def goroutine_done_def)
qed simp

lemma factory_steps_informers:
  "factory_step\<^sup>*\<^sup>* f f' \<Longrightarrow> map_of (f_informers f) t = Some a \<Longrightarrow> map_of (f_informers f') t = Some a"
  by (induction rule: rtranclp_induct) (auto intro: factory_step_informers)

text \<open>The transform of an informer is written by \<open>SetTransform\<close> alone once the informer exists.\<close>

definition transform_at :: "nat \<Rightarrow> ('o, 'tr) factory \<Rightarrow> 'tr option" where
  "transform_at a f = (if a < length (f_store f) then inf_Transform (f_store f ! a) else None)"

lemma transform_at_fold_start_one: "transform_at a (fold start_one tis f) = transform_at a f"
proof (induction tis arbitrary: f)
  case (Cons ti tis)
  have "transform_at a (start_one ti f) = transform_at a f"
    by (cases "snd ti = a") (auto simp: transform_at_def start_one_def set_inf_def split: prod.split)
  then show ?case
    using Cons by simp
qed simp

lemma lifecycle_step_transform:
  "lifecycle_step f f' \<Longrightarrow> a < length (f_store f) \<Longrightarrow>
   a < length (f_store f') \<and> transform_at a f' = transform_at a f"
proof (induction rule: lifecycle_step.induct)
  case (informer_for nf f t)
  then show ?case
    by (cases rule: InformerFor_cases [of t nf f])
      (auto simp: InformerFor_new transform_at_def nth_append)
next
  case (start f)
  then show ?case
    by (simp add: Start_def transform_at_fold_start_one)
qed (simp_all add: Shutdown_begin_def goroutine_done_def transform_at_def)

lemma lifecycle_steps_transform:
  "lifecycle_step\<^sup>*\<^sup>* f f' \<Longrightarrow> a < length (f_store f) \<Longrightarrow>
   a < length (f_store f') \<and> transform_at a f' = transform_at a f"
  by (induction rule: rtranclp_induct) (auto dest: lifecycle_step_transform)

lemma lifecycle_steps_factory: "lifecycle_step\<^sup>*\<^sup>* f f' \<Longrightarrow> factory_step\<^sup>*\<^sup>* f f'"
  by (induction rule: rtranclp_induct) (auto intro: rtranclp.rtrancl_into_rtrancl factory_step.lifecycle)

text \<open>While shutting down nothing is launched.\<close>

lemma factory_step_shutting_down:
  "factory_step f f' \<Longrightarrow> f_shuttingDown f \<Longrightarrow>
   f_shuttingDown f' \<and> f_wg f' \<le> f_wg f \<and> (\<forall>a. launched f' a = launched f a)"
proof (induction rule: factory_step.induct)
  case (lifecycle f f')
  then show ?case
  proof (induction rule: lifecycle_step.induct)
    case (informer_for nf f t)
    then show ?case
      by (cases rule: InformerFor_cases [of t nf f])
        (auto simp: InformerFor_new launched_def nth_append less_Suc_eq)
  qed (auto simp: Shutdown_begin_def goroutine_done_def Start_def launched_def)
next
  case (transform a f tr)
  then show ?case
    by (auto simp: SetTransform_def launched_set_inf) (simp add: launched_def)
qed

subsection \<open>Launching\<close>

lemma launched_at_most_once:
  assumes "factory_reach f"
  shows "launched f a \<le> 1 \<and> f_wg f \<le> sum_list (map inf_Launched (f_store f))"
proof -
  have inv: "factory_inv f"
    using assms by (rule factory_reach_inv)
  show ?thesis
  proof (cases "a < length (f_store f)")
    case True
    then have "a \<in> set (map snd (f_informers f))"
      using inv by (simp add: factory_inv_def)
    then obtain t where "(t, a) \<in> set (f_informers f)"
      by auto
    then have "map_of (f_informers f) t = Some a"
      using inv by (intro mwf_get) (simp_all add: factory_inv_def)
    then show ?thesis
      using inv factory_inv_launched [OF inv] by (simp add: factory_inv_def)
  next
    case False
    then show ?thesis
      using inv by (simp add: launched_def factory_inv_def)
  qed
qed

text \<open>
  An informer is shared for good: once \<open>InformerFor\<close> has returned an informer for an object
  type, every later call for that type, after any steps of the factory and with any constructor,
  returns the same informer and leaves the factory as it is.
\<close>
lemma informer_shared_forever:
  assumes "InformerFor t nf f = (a, f1)" and "factory_step\<^sup>*\<^sup>* f1 f2"
  shows "InformerFor t nf' f2 = (a, f2)"
proof -
  have "map_of (f_informers f1) t = Some a"
    using source.registers [where newFunc = "\<lambda>_. nf" and t = t and s = f] assms(1) by simp
  then show ?thesis
    using factory_steps_informers [OF assms(2)] by (intro InformerFor_registered)
qed

text \<open>
  \<open>Start\<close> is complete and idempotent: unless the factory is shutting down, after it every
  registered informer has been launched exactly once, and a second \<open>Start\<close> does nothing.
\<close>
lemma start_launches_all:
  assumes "factory_reach f" and "\<not> f_shuttingDown f"
  shows "(\<forall>t a. map_of (f_informers f) t = Some a \<longrightarrow> launched (Start f) a = 1) \<and>
    Start (Start f) = Start f"
proof -
  have inv: "factory_inv (Start f)"
    using assms(1) by (intro factory_inv_Start factory_reach_inv)
  have all: "is_started (Start f) t" if "t \<in> fst ` set (f_informers f)" for t
    using that assms(2) by (simp add: Start_def is_started_fold_start_one)
  have "launched (Start f) a = 1" if "map_of (f_informers f) t = Some a" for t a
    using that factory_inv_launched [OF inv, of t a] all [of t] map_of_SomeD [OF that]
    by (simp add: image_iff) (metis fst_conv)
  moreover have "Start (Start f) = Start f"
    using assms(2) all by (simp add: Start_def [of "Start f"] fold_start_one_idle)
  ultimately show ?thesis by blast
qed

subsection \<open>Properties\<close>

text \<open>
  C36. Whatever sequence of requests, starts, shutdowns and ended goroutines a factory goes
  through, no informer is ever launched twice, and the wait group never counts more goroutines
  than were launched. \<open>Start\<close> is complete: unless the factory is shutting down, after it every registered informer has
  been launched exactly once, and a second \<open>Start\<close> does nothing.
\<close>
theorem informers_launched_at_most_once:
  assumes "factory_reach f"
  shows "launched f a \<le> 1 \<and> f_wg f \<le> sum_list (map inf_Launched (f_store f)) \<and>
    (if f_shuttingDown f then Start f = f
     else Start (Start f) = Start f \<and>
       list_all (\<lambda>(t, i). launched (Start f) i = 1) (f_informers f))"
proof (cases "f_shuttingDown f")
  case True
  then show ?thesis
    using launched_at_most_once [OF assms] by (simp add: Start_def)
next
  case False
  have "mwf (f_informers f)"
    using factory_reach_inv [OF assms] by (simp add: factory_inv_def)
  then have "list_all (\<lambda>(t, i). launched (Start f) i = 1) (f_informers f)"
    using start_launches_all [OF assms False] by (auto simp: list_all_iff mwf_get_iff)
  then show ?thesis
    using launched_at_most_once [OF assms] start_launches_all [OF assms False] False by simp
qed

definition demo_factory :: "(unit, nat) factory" where
  "demo_factory = NewSharedInformerFactoryWithOptions 3600 [WithNamespace ''team-a'']"

lemma demo_fresh: "fresh_factory demo_factory"
  by (simp add: demo_factory_def NewSharedInformerFactoryWithOptions_def WithNamespace_def fresh_factory_def)

lemma typed_informer_not_launched [simp]:
  "inf_Launched (NewFilteredResourceQuotaInformer ns r ix tw) = 0"
  "inf_Launched (NewFilteredClusterResourceQuotaInformer r ix tw) = 0"
  by (simp_all add: NewFilteredResourceQuotaInformer_def NewFilteredClusterResourceQuotaInformer_def)

lemma reach_Start: "factory_reach f \<Longrightarrow> factory_reach (Start f)"
  by (rule factory_reach.step) (auto intro: factory_step.lifecycle lifecycle_step.start)

lemma reach_ResourceQuotas: "factory_reach f \<Longrightarrow> factory_reach (snd (ResourceQuotas_Informer f))"
  unfolding ResourceQuotas_Informer_eq
  by (erule factory_reach.step, intro factory_step.lifecycle lifecycle_step.informer_for) simp

lemma demo_reach: "factory_reach (Start (Start (snd (ResourceQuotas_Informer demo_factory))))"
  by (intro reach_Start reach_ResourceQuotas factory_reach.fresh demo_fresh)

theorem informers_launched_at_most_once_witness:
  "launched (Start (Start (snd (ResourceQuotas_Informer demo_factory)))) 0 \<le> 1 \<and>
   f_wg (Start (Start (snd (ResourceQuotas_Informer demo_factory)))) \<le>
     sum_list (map inf_Launched (f_store (Start (Start (snd (ResourceQuotas_Informer demo_factory))))))"
  using informers_launched_at_most_once [OF demo_reach] by blast

lemma goroutines_end: "Shutdown_returns ((goroutine_done ^^ n) f) \<longleftrightarrow> f_wg f \<le> n"
proof -
  have "f_wg ((goroutine_done ^^ n) f) = f_wg f - n"
    by (induction n) (simp_all add: goroutine_done_def)
  then show ?thesis
    by (simp add: Shutdown_returns_def)
qed

text \<open>
  C37. \<open>Shutdown\<close> is final and returns. After it has marked the factory, whatever the other clients of
  the factory do, no step launches an informer, the mark is never taken back, and from any later state
  \<open>Shutdown\<close> returns once the goroutines still running have ended, which are no more than
  when it was called, and not before.
\<close>
theorem shutdown_is_final:
  assumes "factory_step\<^sup>*\<^sup>* (Shutdown_begin f) f'"
  shows "f_shuttingDown f' \<and> (\<forall>a. launched f' a = launched f a) \<and>
    (\<exists>n \<le> f_wg f. \<forall>m. Shutdown_returns ((goroutine_done ^^ m) f') \<longleftrightarrow> n \<le> m)"
proof -
  have "f_shuttingDown f' \<and> f_wg f' \<le> f_wg f \<and> (\<forall>a. launched f' a = launched f a)"
    using assms
  proof (induction rule: rtranclp_induct)
    case base
    then show ?case by (simp add: Shutdown_begin_def launched_def)
  next
    case (step f1 f2)
    then show ?case
      using factory_step_shutting_down [OF step.hyps(2)] by (metis order.trans)
  qed
  then show ?thesis
    by (auto simp: goroutines_end)
qed

text \<open>With one informer running, \<open>Shutdown\<close> waits for one goroutine, whatever is started meanwhile.\<close>

theorem shutdown_is_final_witness:
  "\<exists>n \<le> f_wg (Start (snd (ResourceQuotas_Informer demo_factory))).
    \<forall>m. Shutdown_returns ((goroutine_done ^^ m)
      (Start (Shutdown_begin (Start (snd (ResourceQuotas_Informer demo_factory)))))) \<longleftrightarrow> n \<le> m"
proof -
  have "factory_step\<^sup>*\<^sup>* (Shutdown_begin (Start (snd (ResourceQuotas_Informer demo_factory))))
      (Start (Shutdown_begin (Start (snd (ResourceQuotas_Informer demo_factory)))))"
    by (rule r_into_rtranclp, intro factory_step.lifecycle lifecycle_step.start)
  then show ?thesis
    using shutdown_is_final by blast
qed

end
