(* ===== verification/Admission.thy ===== *)
theory Admission
  imports Informer_Factory
begin

section \<open>Admission requests and responses\<close>

text \<open>
  The types of \<open>k8s.io/api/admission/v1\<close> and of controller-runtime's webhook package that the
  three webhook handlers share, and the contract they share: a handler answers a request, may
  change its state, and refuses what it cannot decode.
\<close>

datatype operation = AdmCreate | AdmUpdate | AdmDelete | AdmConnect

record group_version_kind =
  gvk_Group :: string
  gvk_Version :: string
  gvk_Kind :: string

record user_info =
  ui_Username :: string
  ui_UID :: string
  ui_Groups :: "string list"
  ui_Extra :: "(string, string list) gomap"

lemma record_etas [simp]:
  "\<lparr>gvk_Group = gvk_Group k, gvk_Version = gvk_Version k, gvk_Kind = gvk_Kind k\<rparr> = k"
  "\<lparr>gvr_Group = gvr_Group r, gvr_Version = gvr_Version r, gvr_Resource = gvr_Resource r\<rparr> = r"
  by simp_all

text \<open>A \<open>RawExtension\<close> with \<open>Raw == nil\<close> is \<open>None\<close>.\<close>

record 'raw adm_request =
  ar_Operation :: operation
  ar_Kind :: group_version_kind
  ar_Resource :: group_version_resource
  ar_SubResource :: string
  ar_Name :: string
  ar_Namespace :: string
  ar_UserInfo :: user_info
  ar_Object :: "'raw option"
  ar_OldObject :: "'raw option"
  ar_Options :: "'raw option"
  ar_DryRun :: "bool option"

record api_status =
  as_Code :: nat
  as_Reason :: string
  as_Message :: string

text \<open>
  The values the handlers build: \<open>admission.Allowed(msg)\<close>, \<open>admission.Errored(code, err)\<close>, and a
  response with \<open>Allowed: false\<close> and a given status. Only the first admits the request.
\<close>

datatype 'e response = Allowed string | Errored nat 'e | Refused api_status

fun is_allowed :: "'e response \<Rightarrow> bool" where
  "is_allowed (Allowed msg) = True"
| "is_allowed (Errored code err) = False"
| "is_allowed (Refused st) = False"

definition StatusBadRequest :: nat where "StatusBadRequest = 400"

definition StatusForbidden :: nat where "StatusForbidden = 403"

definition StatusInternalServerError :: nat where "StatusInternalServerError = 500"

lemmas status_codes = StatusBadRequest_def StatusForbidden_def StatusInternalServerError_def

subsection \<open>The contract of a handler\<close>

text \<open>
  \<open>undecodable r\<close> says that a part of the request the handler reads cannot be decoded.
\<close>

locale admission_handler =
  fixes handle :: "'req \<Rightarrow> 's \<Rightarrow> 'e response \<times> 's" and undecodable :: "'req \<Rightarrow> bool"
  assumes refuses: "undecodable r \<Longrightarrow> \<exists>e. handle r s = (Errored StatusBadRequest e, s)"
    and codes: "handle r s = (Errored c e, s') \<Longrightarrow>
      c \<in> {StatusBadRequest, StatusForbidden, StatusInternalServerError}"
begin

lemma allowed_decodable: "is_allowed (fst (handle r s)) \<Longrightarrow> \<not> undecodable r"
  using refuses [of r s] by auto

text \<open>A sequence of requests, the state threaded through.\<close>

fun serve :: "'req list \<Rightarrow> 's \<Rightarrow> 'e response list \<times> 's" where
  "serve [] s = ([], s)"
| "serve (r # rs) s =
    (let (resp, s') = handle r s; (resps, s'') = serve rs s' in (resp # resps, s''))"

lemma serve_undecodable:
  "\<forall>r \<in> set rs. undecodable r \<Longrightarrow>
   snd (serve rs s) = s \<and> (\<forall>x \<in> set (fst (serve rs s)). \<exists>e. x = Errored StatusBadRequest e)"
proof (induction rs arbitrary: s)
  case (Cons r rs)
  obtain e where "handle r s = (Errored StatusBadRequest e, s)"
    using refuses [of r s] Cons.prems by auto
  then show ?case
    using Cons by (auto simp: Let_def split_beta)
qed simp

text \<open>Requests that cannot be decoded can be dropped from a sequence without changing its effect.\<close>

lemma serve_filter: "snd (serve (filter (\<lambda>r. \<not> undecodable r) rs) s) = snd (serve rs s)"
proof (induction rs arbitrary: s)
  case (Cons r rs)
  show ?case
  proof (cases "undecodable r")
    case True
    then obtain e where "handle r s = (Errored StatusBadRequest e, s)"
      using refuses [of r s] by auto
    then show ?thesis
      using Cons True by (auto simp: Let_def split_beta)
  next
    case False
    then show ?thesis
      using Cons [of "snd (handle r s)"] by (auto simp: Let_def split_beta)
  qed
qed simp

end

end
