(* ===== verification/Validation.thy ===== *)
theory Validation
  imports Admission
begin

section \<open>The validation webhook (\<open>helper.go\<close>)\<close>

text \<open>
  \<open>ValidationInterfaceAdaptor\<close> serves an API server admission plugin (the quota plugin) as a
  webhook: it decodes the request, builds the attributes record the plugin expects, calls the
  plugin and turns its error into a response. The plugin, the scheme and the decoder are
  parameters.
\<close>

record 'obj attributes =
  at_Object :: "'obj option"
  at_OldObject :: "'obj option"
  at_Kind :: group_version_kind
  at_Namespace :: string
  at_Name :: string
  at_Resource :: group_version_resource
  at_SubResource :: string
  at_Operation :: operation
  at_Options :: "'obj option"
  at_DryRun :: bool
  at_UserInfo :: user_info

text \<open>\<open>admission.ValidationInterface\<close> of the API server, over a world \<open>'w\<close>.\<close>

record ('obj, 'w, 'e) validation_interface =
  vi_Handles :: "operation \<Rightarrow> bool"
  vi_Validate :: "'obj attributes \<Rightarrow> 'w \<Rightarrow> 'e option \<times> 'w"

text \<open>
  The scheme and the decoder: \<open>Scheme.New(gvk)\<close>, \<open>Decoder.DecodeRaw(raw, into)\<close>, the empty
  options objects, and \<open>errors.As(err, &APIStatus)\<close>.
\<close>

record ('raw, 'obj, 'e) codec =
  scheme_New :: "group_version_kind \<Rightarrow> 'e + 'obj"
  DecodeRaw :: "'raw \<Rightarrow> 'obj \<Rightarrow> 'e + 'obj"
  new_CreateOptions :: 'obj
  new_UpdateOptions :: 'obj
  new_DeleteOptions :: 'obj
  as_APIStatus :: "'e \<Rightarrow> api_status option"

record ('raw, 'obj, 'w, 'e) validation_adaptor =
  va_Validation :: "('obj, 'w, 'e) validation_interface"
  va_Codec :: "('raw, 'obj, 'e) codec"

subsection \<open>Decoding\<close>

text \<open>The block the function has twice: decode one object of the request's kind, if it is there.\<close>

definition decode_one :: "('raw, 'obj, 'e) codec \<Rightarrow> group_version_kind \<Rightarrow> 'raw option \<Rightarrow> 'e + 'obj option" where
  "decode_one D gvk raw =
    (case raw of
      None \<Rightarrow> Inr None
    | Some r \<Rightarrow>
        sum_bind (scheme_New D gvk) (\<lambda>empty. sum_bind (DecodeRaw D r empty) (\<lambda>obj. Inr (Some obj))))"

definition decode_options :: "('raw, 'obj, 'e) codec \<Rightarrow> operation \<Rightarrow> 'raw option \<Rightarrow> 'e + 'obj option" where
  "decode_options D oper raw =
    (case raw of
      None \<Rightarrow> Inr None
    | Some r \<Rightarrow>
        (case oper of
          AdmCreate \<Rightarrow> sum_bind (DecodeRaw D r (new_CreateOptions D)) (\<lambda>create. Inr (Some create))
        | AdmUpdate \<Rightarrow> sum_bind (DecodeRaw D r (new_UpdateOptions D)) (\<lambda>update. Inr (Some update))
        | AdmDelete \<Rightarrow> sum_bind (DecodeRaw D r (new_DeleteOptions D)) (\<lambda>delete. Inr (Some delete))
        | AdmConnect \<Rightarrow> Inr None))"

definition decodeObject :: "('raw, 'obj, 'e) codec \<Rightarrow> 'raw adm_request \<Rightarrow>
    'e + 'obj option \<times> 'obj option \<times> 'obj option" where
  "decodeObject D req =
    (let gvk = \<lparr>gvk_Group = gvk_Group (ar_Kind req), gvk_Version = gvk_Version (ar_Kind req),
       gvk_Kind = gvk_Kind (ar_Kind req)\<rparr> in
     sum_bind (decode_one D gvk (ar_Object req)) (\<lambda>current.
     sum_bind (decode_one D gvk (ar_OldObject req)) (\<lambda>old.
     sum_bind (decode_options D (ar_Operation req) (ar_Options req)) (\<lambda>options.
     Inr (current, old, options)))))"

definition convertUserInfoExtra :: "(string, string list) gomap \<Rightarrow> (string, string list) gomap" where
  "convertUserInfoExtra in_map = fold (\<lambda>(k, v). mput k v) in_map []"

subsection \<open>The handler\<close>

definition request_attributes :: "'raw adm_request \<Rightarrow> 'obj option \<Rightarrow> 'obj option \<Rightarrow> 'obj option \<Rightarrow> 'obj attributes" where
  "request_attributes req current old options = \<lparr>
     at_Object = current, at_OldObject = old,
     at_Kind = \<lparr>gvk_Group = gvk_Group (ar_Kind req), gvk_Version = gvk_Version (ar_Kind req),
       gvk_Kind = gvk_Kind (ar_Kind req)\<rparr>,
     at_Namespace = ar_Namespace req, at_Name = ar_Name req,
     at_Resource = \<lparr>gvr_Group = gvr_Group (ar_Resource req), gvr_Version = gvr_Version (ar_Resource req),
       gvr_Resource = gvr_Resource (ar_Resource req)\<rparr>,
     at_SubResource = ar_SubResource req, at_Operation = ar_Operation req, at_Options = options,
     at_DryRun = False,
     at_UserInfo = \<lparr>ui_Username = ui_Username (ar_UserInfo req), ui_UID = ui_UID (ar_UserInfo req),
       ui_Groups = ui_Groups (ar_UserInfo req), ui_Extra = convertUserInfoExtra (ui_Extra (ar_UserInfo req))\<rparr>\<rparr>"

definition validation_response :: "('raw, 'obj, 'e) codec \<Rightarrow> 'e option \<Rightarrow> 'e response" where
  "validation_response D r =
    (case r of
      Some err \<Rightarrow>
        (case as_APIStatus D err of
          None \<Rightarrow> Errored StatusBadRequest err
        | Some st \<Rightarrow> Refused st)
    | None \<Rightarrow> Allowed [])"

definition Validation_Handle ::
  "('raw, 'obj, 'w, 'e) validation_adaptor \<Rightarrow> 'raw adm_request \<Rightarrow> 'w \<Rightarrow> 'e response \<times> 'w" where
  "Validation_Handle v req w =
    (if \<not> vi_Handles (va_Validation v) (ar_Operation req) then (Allowed [], w)
     else case decodeObject (va_Codec v) req of
       Inl err \<Rightarrow> (Errored StatusBadRequest err, w)
     | Inr (current, old, options) \<Rightarrow>
         (case vi_Validate (va_Validation v) (request_attributes req current old options) w of
           (r, w') \<Rightarrow> (validation_response (va_Codec v) r, w')))"

subsection \<open>Lemmas\<close>

lemma decode_one_simps [simp]:
  "decode_one D gvk None = Inr None"
  "decode_one D gvk (Some r) =
     sum_bind (scheme_New D gvk) (\<lambda>empty. sum_bind (DecodeRaw D r empty) (\<lambda>obj. Inr (Some obj)))"
  by (simp_all add: decode_one_def)

lemma decode_one_presence: "decode_one D gvk raw = Inr obj \<Longrightarrow> obj = None \<longleftrightarrow> raw = None"
  by (auto simp: decode_one_def sum_bind_Inr_iff split: option.splits)

lemma decode_options_presence:
  "decode_options D oper raw = Inr obj \<Longrightarrow> obj = None \<longleftrightarrow> raw = None \<or> oper = AdmConnect"
  by (auto simp: decode_options_def sum_bind_Inr_iff split: option.splits operation.splits)

lemma decodeObject_Inr:
  "decodeObject D req = Inr (current, old, options) \<longleftrightarrow>
   decode_one D (ar_Kind req) (ar_Object req) = Inr current \<and>
   decode_one D (ar_Kind req) (ar_OldObject req) = Inr old \<and>
   decode_options D (ar_Operation req) (ar_Options req) = Inr options"
  by (auto simp: decodeObject_def Let_def sum_bind_Inr_iff)

lemma convertUserInfoExtra_lookup: "mwf m \<Longrightarrow> map_of (convertUserInfoExtra m) = map_of m"
  by (simp add: convertUserInfoExtra_def gm.get_fold_put map_of_rev_wf)

lemma validation_response_allowed [simp]: "is_allowed (validation_response D r) \<longleftrightarrow> r = None"
  by (simp add: validation_response_def split: option.split)

lemma dry_run_unread [simp]:
  "request_attributes (req\<lparr>ar_DryRun := d\<rparr>) = request_attributes req"
  "decodeObject D (req\<lparr>ar_DryRun := d\<rparr>) = decodeObject D req"
  by (simp_all add: request_attributes_def decodeObject_def fun_eq_iff)

definition validation_undecodable :: "('raw, 'obj, 'w, 'e) validation_adaptor \<Rightarrow> 'raw adm_request \<Rightarrow> bool" where
  "validation_undecodable v req \<longleftrightarrow>
     vi_Handles (va_Validation v) (ar_Operation req) \<and> isl (decodeObject (va_Codec v) req)"

interpretation validation: admission_handler "Validation_Handle v" "validation_undecodable v" for v
proof unfold_locales
  fix r s c e s'
  show "\<exists>e. Validation_Handle v r s = (Errored StatusBadRequest e, s)" if "validation_undecodable v r"
    using that by (auto simp: Validation_Handle_def validation_undecodable_def isl_def)
  show "c \<in> {StatusBadRequest, StatusForbidden, StatusInternalServerError}"
    if "Validation_Handle v r s = (Errored c e, s')"
    using that by (auto simp: Validation_Handle_def validation_response_def
        split: if_splits sum.splits prod.splits option.splits)
qed

subsection \<open>Properties\<close>

text \<open>
  C35. A request is admitted exactly if the plugin does not handle its operation, or its object, old
  object and options all decode and the plugin accepts the attributes built from them. Of a handled request, the
  first of these parts that fails to decode, in this order, is answered with 400 and its error, without
  a call of the plugin; an error of the plugin is answered with its own API status, or with 400 when it has
  none. The state changes only by that one call of the plugin.
\<close>
theorem validation_admits_iff:
  "is_allowed (fst (Validation_Handle v req w)) =
    (if vi_Handles (va_Validation v) (ar_Operation req)
     then \<exists>current old options.
       decode_one (va_Codec v) (ar_Kind req) (ar_Object req) = Inr current \<and>
       decode_one (va_Codec v) (ar_Kind req) (ar_OldObject req) = Inr old \<and>
       decode_options (va_Codec v) (ar_Operation req) (ar_Options req) = Inr options \<and>
       fst (vi_Validate (va_Validation v) (request_attributes req current old options) w) = None
     else True) \<and>
   snd (Validation_Handle v req w) =
    (if vi_Handles (va_Validation v) (ar_Operation req)
     then case decodeObject (va_Codec v) req of
       Inl err \<Rightarrow> w
     | Inr (current, old, options) \<Rightarrow>
         snd (vi_Validate (va_Validation v) (request_attributes req current old options) w)
     else w) \<and>
   (vi_Handles (va_Validation v) (ar_Operation req) \<longrightarrow>
     (\<forall>err. decode_one (va_Codec v) (ar_Kind req) (ar_Object req) = Inl err \<longrightarrow>
       Validation_Handle v req w = (Errored 400 err, w)) \<and>
     (\<forall>current err. decode_one (va_Codec v) (ar_Kind req) (ar_Object req) = Inr current \<and>
       decode_one (va_Codec v) (ar_Kind req) (ar_OldObject req) = Inl err \<longrightarrow>
       Validation_Handle v req w = (Errored 400 err, w)) \<and>
     (\<forall>current old err. decode_one (va_Codec v) (ar_Kind req) (ar_Object req) = Inr current \<and>
       decode_one (va_Codec v) (ar_Kind req) (ar_OldObject req) = Inr old \<and>
       decode_options (va_Codec v) (ar_Operation req) (ar_Options req) = Inl err \<longrightarrow>
       Validation_Handle v req w = (Errored 400 err, w)) \<and>
     (\<forall>current old options err w'. decode_one (va_Codec v) (ar_Kind req) (ar_Object req) = Inr current \<and>
       decode_one (va_Codec v) (ar_Kind req) (ar_OldObject req) = Inr old \<and>
       decode_options (va_Codec v) (ar_Operation req) (ar_Options req) = Inr options \<and>
       vi_Validate (va_Validation v) (request_attributes req current old options) w = (Some err, w') \<longrightarrow>
       Validation_Handle v req w =
         (case as_APIStatus (va_Codec v) err of Some st \<Rightarrow> Refused st | None \<Rightarrow> Errored 400 err, w')))"
proof -
  have "(\<exists>current old options.
      decode_one (va_Codec v) (ar_Kind req) (ar_Object req) = Inr current \<and>
      decode_one (va_Codec v) (ar_Kind req) (ar_OldObject req) = Inr old \<and>
      decode_options (va_Codec v) (ar_Operation req) (ar_Options req) = Inr options \<and>
      P current old options) \<longleftrightarrow>
    (\<exists>current old options. decodeObject (va_Codec v) req = Inr (current, old, options) \<and>
      P current old options)" for P
    by (simp only: decodeObject_Inr) blast
  moreover have "decode_one (va_Codec v) (ar_Kind req) (ar_Object req) = Inl err \<Longrightarrow>
      decodeObject (va_Codec v) req = Inl err"
    and "decode_one (va_Codec v) (ar_Kind req) (ar_Object req) = Inr current \<Longrightarrow>
      decode_one (va_Codec v) (ar_Kind req) (ar_OldObject req) = Inl err \<Longrightarrow> decodeObject (va_Codec v) req = Inl err"
    and "decode_one (va_Codec v) (ar_Kind req) (ar_Object req) = Inr current \<Longrightarrow>
      decode_one (va_Codec v) (ar_Kind req) (ar_OldObject req) = Inr old \<Longrightarrow>
      decode_options (va_Codec v) (ar_Operation req) (ar_Options req) = Inl err \<Longrightarrow>
      decodeObject (va_Codec v) req = Inl err" for current old err
    by (simp_all add: decodeObject_def Let_def)
  moreover have "decodeObject (va_Codec v) req = Inr (current, old, options)"
    if "decode_one (va_Codec v) (ar_Kind req) (ar_Object req) = Inr current"
      "decode_one (va_Codec v) (ar_Kind req) (ar_OldObject req) = Inr old"
      "decode_options (va_Codec v) (ar_Operation req) (ar_Options req) = Inr options" for current old options
    using that by (simp only: decodeObject_Inr)
  ultimately show ?thesis
    by (simp add: Validation_Handle_def StatusBadRequest_def validation_response_def split_beta
        split: sum.split option.split)
qed

text \<open>
  A plugin that handles everything and refuses: a name that does not decode gives 400, a refusal
  with an API status gives that status.
\<close>

definition demo_validation :: "ref_error \<Rightarrow> (string, string, nat, ref_error) validation_adaptor" where
  "demo_validation e = \<lparr>
     va_Validation = \<lparr>vi_Handles = (\<lambda>_. True), vi_Validate = (\<lambda>_ w. (Some e, w + 1))\<rparr>,
     va_Codec = \<lparr>scheme_New = (\<lambda>_. Inr []), DecodeRaw = (\<lambda>raw _. if raw = ''?'' then Inl (RPlain raw) else Inr raw),
       new_CreateOptions = [], new_UpdateOptions = [], new_DeleteOptions = [],
       as_APIStatus = (\<lambda>e. case e of RStatus c m \<Rightarrow> Some \<lparr>as_Code = c, as_Reason = [], as_Message = m\<rparr> | _ \<Rightarrow> None)\<rparr>\<rparr>"

definition raw_request :: "string \<Rightarrow> string adm_request" where
  "raw_request raw = \<lparr>ar_Operation = AdmCreate,
     ar_Kind = \<lparr>gvk_Group = [], gvk_Version = ''v1'', gvk_Kind = ''Pod''\<rparr>,
     ar_Resource = \<lparr>gvr_Group = [], gvr_Version = ''v1'', gvr_Resource = ''pods''\<rparr>,
     ar_SubResource = [], ar_Name = ''p'', ar_Namespace = ''ns1'',
     ar_UserInfo = \<lparr>ui_Username = ''u'', ui_UID = [], ui_Groups = [], ui_Extra = []\<rparr>,
     ar_Object = Some raw, ar_OldObject = None, ar_Options = None, ar_DryRun = None\<rparr>"

theorem validation_admits_iff_witness:
  "Validation_Handle (demo_validation (RStatus 403 ''quota'')) (raw_request ''?'') 0 = (Errored 400 (RPlain ''?''), 0) \<and>
   Validation_Handle (demo_validation (RStatus 403 ''quota'')) (raw_request ''pod'') 0 =
     (Refused \<lparr>as_Code = 403, as_Reason = [], as_Message = ''quota''\<rparr>, 1) \<and>
   Validation_Handle (demo_validation (RPlain ''no'')) (raw_request ''pod'') 0 = (Errored 400 (RPlain ''no''), 1)"
  using validation_admits_iff [of "demo_validation (RStatus 403 ''quota'')" "raw_request ''?''" 0]
    validation_admits_iff [of "demo_validation (RStatus 403 ''quota'')" "raw_request ''pod''" 0]
    validation_admits_iff [of "demo_validation (RPlain ''no'')" "raw_request ''pod''" 0]
  by (simp add: demo_validation_def raw_request_def decode_options_def)

text \<open>
  A decoded request has exactly the parts the request carries: an object, an old object and
  options are there after decoding if and only if they are in the request, except that the options
  of a \<open>CONNECT\<close> request are dropped.
\<close>
lemma decode_keeps_parts:
  assumes "decodeObject D req = Inr (current, old, options)"
  shows "(current = None \<longleftrightarrow> ar_Object req = None) \<and> (old = None \<longleftrightarrow> ar_OldObject req = None) \<and>
    (options = None \<longleftrightarrow> ar_Options req = None \<or> ar_Operation req = AdmConnect)"
  using assms decode_one_presence decode_options_presence unfolding decodeObject_Inr by metis

text \<open>
  The adaptor does not look at \<open>dryRun\<close>: a dry-run request is handled exactly like the real one,
  the plugin is told that it is no dry run, and whatever usage the plugin records is recorded.
\<close>
lemma validation_ignores_dry_run:
  "Validation_Handle v (req\<lparr>ar_DryRun := d\<rparr>) w = Validation_Handle v req w \<and>
   at_DryRun (request_attributes (req\<lparr>ar_DryRun := d\<rparr>) current old options) = False"
  by (simp add: Validation_Handle_def split: sum.split) (simp add: request_attributes_def)

end
