(* ===== verification/Adaptor.thy ===== *)
theory Adaptor
  imports Informer_Factory
begin

section \<open>The client and informer adaptors (\<open>resourcequota-adaptor.go\<close>)\<close>

text \<open>
  The quota admission plugin and the quota controller of Kubernetes are written against
  \<open>corev1.ResourceQuota\<close>. The adaptor gives them the repository's own ResourceQuota instead: a
  client whose \<open>List\<close> and \<open>UpdateStatus\<close> convert, and an informer factory whose ResourceQuota
  informer is the one of the repository.
\<close>

subsection \<open>Conversion\<close>

definition fromQuota :: "core_resource_quota \<Rightarrow> resource_quota" where
  "fromQuota quota = \<lparr>rq_TypeMeta = empty_type_meta, rq_ObjectMeta = crv1_ObjectMeta quota,
     rq_Spec = crv1_Spec quota, rq_Status = crv1_Status quota\<rparr>"

definition toQuota :: "resource_quota \<Rightarrow> core_resource_quota" where
  "toQuota quota = \<lparr>crv1_TypeMeta = empty_type_meta, crv1_ObjectMeta = rq_ObjectMeta quota,
     crv1_Spec = rq_Spec quota, crv1_Status = rq_Status quota\<rparr>"

text \<open>A conversion that loses nothing but what \<open>norm\<close> erases.\<close>

locale conversion =
  fixes enc :: "'a \<Rightarrow> 'b" and dec :: "'b \<Rightarrow> 'a" and norm :: "'a \<Rightarrow> 'a"
  assumes dec_enc: "dec (enc x) = norm x" and enc_norm: "enc (norm x) = enc x"
begin

lemma norm_idem: "norm (norm x) = norm x"
  by (metis dec_enc enc_norm)

lemma enc_eq_iff: "enc x = enc y \<longleftrightarrow> norm x = norm y"
  by (metis dec_enc enc_norm)

lemma dec_enc_map: "map dec (map enc xs) = map norm xs"
  by (simp add: dec_enc)

end

interpretation to_core: conversion toQuota fromQuota "rq_TypeMeta_update (\<lambda>_. empty_type_meta)"
  by unfold_locales (simp_all add: toQuota_def fromQuota_def)

interpretation from_core: conversion fromQuota toQuota "crv1_TypeMeta_update (\<lambda>_. empty_type_meta)"
  by unfold_locales (simp_all add: toQuota_def fromQuota_def)

lemma toQuota_simps [simp]:
  "crv1_ObjectMeta (toQuota q) = rq_ObjectMeta q"
  "crv1_Spec (toQuota q) = rq_Spec q"
  "crv1_Status (toQuota q) = rq_Status q"
  by (simp_all add: toQuota_def)

lemma fromQuota_simps [simp]:
  "rq_ObjectMeta (fromQuota q) = crv1_ObjectMeta q"
  "rq_Spec (fromQuota q) = crv1_Spec q"
  "rq_Status (fromQuota q) = crv1_Status q"
  by (simp_all add: fromQuota_def)

lemma eq_toQuota_iff:
  "c = toQuota q \<longleftrightarrow> fromQuota c = q\<lparr>rq_TypeMeta := empty_type_meta\<rparr> \<and> crv1_TypeMeta c = empty_type_meta"
  by (cases c; cases q) (auto simp: toQuota_def fromQuota_def)

subsection \<open>The client\<close>

text \<open>
  The typed client of one namespace, \<open>thisclientquotav1.ResourceQuotaInterface\<close>: the two methods
  the adaptor calls, with list options \<open>'o\<close> and update options \<open>'p\<close>.
\<close>

record ('w, 'o, 'p, 'e) typed_client =
  tc_List :: "'o \<Rightarrow> 'w \<Rightarrow> ('e + resource_quota_list) \<times> 'w"
  tc_UpdateStatus :: "resource_quota \<Rightarrow> 'p \<Rightarrow> 'w \<Rightarrow> ('e + resource_quota) \<times> 'w"

definition Hijack_List :: "('w, 'o, 'p, 'e) typed_client \<Rightarrow> 'o \<Rightarrow> 'w \<Rightarrow> ('e + core_resource_quota_list) \<times> 'w" where
  "Hijack_List T opts w =
    (case tc_List T opts w of
      (Inl err, w') \<Rightarrow> (Inl err, w')
    | (Inr crqlist, w') \<Rightarrow>
        let items = map toQuota (rql_Items crqlist);
            lm = rql_ListMeta crqlist
        in (Inr \<lparr>crv1l_ListMeta = \<lparr>lm_SelfLink = [], lm_ResourceVersion = lm_ResourceVersion lm,
              lm_Continue = lm_Continue lm, lm_RemainingItemCount = lm_RemainingItemCount lm\<rparr>,
            crv1l_Items = items\<rparr>, w'))"

definition Hijack_UpdateStatus ::
  "('w, 'o, 'p, 'e) typed_client \<Rightarrow> core_resource_quota \<Rightarrow> 'p \<Rightarrow> 'w \<Rightarrow> ('e + core_resource_quota) \<times> 'w" where
  "Hijack_UpdateStatus T resourceQuota opts w =
    (let crq = fromQuota resourceQuota in
     case tc_UpdateStatus T crq opts w of
       (Inl err, w') \<Rightarrow> (Inl err, w')
     | (Inr result, w') \<Rightarrow> (Inr (toQuota result), w'))"

text \<open>
  The other methods of \<open>ResourceQuotaInterface\<close> answer without calling the server. They are
  modelled as one function of the request.
\<close>

datatype ('q, 'o) rq_request =
  Apply 'q 'o
| ApplyStatus 'q 'o
| Create 'q 'o
| Delete string 'o
| DeleteCollection 'o
| Get string 'o
| Patch string string 'o
| Update 'q 'o
| Watch 'o

fun unsupported_verb :: "('q, 'o) rq_request \<Rightarrow> string" where
  "unsupported_verb (Apply q opts) = ''apply''"
| "unsupported_verb (ApplyStatus q opts) = ''apply''"
| "unsupported_verb (Create q opts) = ''create''"
| "unsupported_verb (Delete n opts) = ''delete''"
| "unsupported_verb (DeleteCollection opts) = ''deletaBatch''"
| "unsupported_verb (Get n opts) = ''get''"
| "unsupported_verb (Patch n data opts) = ''patch''"
| "unsupported_verb (Update q opts) = ''update''"
| "unsupported_verb (Watch opts) = ''watch''"

definition Hijack_unsupported :: "'e err_lib \<Rightarrow> ('q, 'o) rq_request \<Rightarrow> 'w \<Rightarrow> 'e \<times> 'w" where
  "Hijack_unsupported E req w = (NewMethodNotSupported E ''resourcequotas'' (unsupported_verb req), w)"

subsection \<open>The informer factory\<close>

text \<open>
  \<open>informers.SharedInformerFactory\<close> of client-go is a parameter with its own world; the
  repository's factory is the one of \<open>Informer_Factory\<close>.
\<close>

record 'w kube_factory =
  kf_Start :: "'w \<Rightarrow> 'w"
  kf_Shutdown :: "'w \<Rightarrow> 'w"
  kf_WaitForCacheSync :: "'w \<Rightarrow> (string, bool) gomap \<times> 'w"

definition Hijack_Start :: "'w kube_factory \<Rightarrow> 'w \<times> ('o, 'tr) factory \<Rightarrow> 'w \<times> ('o, 'tr) factory" where
  "Hijack_Start K s = (kf_Start K (fst s), Start (snd s))"

definition Hijack_Shutdown :: "'w kube_factory \<Rightarrow> 'w \<times> ('o, 'tr) factory \<Rightarrow> 'w \<times> ('o, 'tr) factory" where
  "Hijack_Shutdown K s = (kf_Shutdown K (fst s), Shutdown_begin (snd s))"

text \<open>
  \<open>maps.Copy\<close> into a map that may be nil: an assignment to an entry of a nil map panics, so only
  an empty source is copied without one.
\<close>

definition maps_Copy :: "('k, 'v) gomap option \<Rightarrow> ('k, 'v) gomap \<Rightarrow> go_panic + ('k, 'v) gomap option" where
  "maps_Copy dst src =
    (case dst of
      Some d \<Rightarrow> Inr (Some (mcopy d src))
    | None \<Rightarrow> if src = [] then Inr None else Inl NilMapWrite)"

text \<open>The result is declared with \<open>var\<close> and never allocated.\<close>

definition Hijack_WaitForCacheSync ::
  "'w kube_factory \<Rightarrow> (nat \<Rightarrow> bool) \<Rightarrow> 'w \<times> ('o, 'tr) factory \<Rightarrow>
   (go_panic + (string, bool) gomap option) \<times> 'w \<times> ('o, 'tr) factory" where
  "Hijack_WaitForCacheSync K synced s =
    (let result = None;
         (shared, w') = kf_WaitForCacheSync K (fst s) in
     case maps_Copy result shared of
       Inl p \<Rightarrow> (Inl p, w', snd s)
     | Inr result' \<Rightarrow> (maps_Copy result' (WaitForCacheSync synced (snd s)), w', snd s))"

text \<open>
  \<open>Core().V1().ResourceQuotas().Informer()\<close> of the adaptor. \<open>This\<close> is the repository's factory, which is
  the state; the structs on the way carry what client-go's factory has for everything else:
  \<open>kf_core\<close> and \<open>kc_v1\<close> are its accessors.
\<close>

record 'kc hijack_core_interface =
  hci_Interface :: 'kc

record 'kv hijack_informers_core_v1 =
  hiv_Interface :: 'kv

record 'o hijack_resource_quota_informer =
  hri_i :: "'o resource_quota_informer"

definition Hijack_Core :: "('k \<Rightarrow> 'kc) \<Rightarrow> 'k \<Rightarrow> 'kc hijack_core_interface" where
  "Hijack_Core kf_core K = \<lparr>hci_Interface = kf_core K\<rparr>"

definition HijackCore_V1 :: "('kc \<Rightarrow> 'kv) \<Rightarrow> 'kc hijack_core_interface \<Rightarrow> 'kv hijack_informers_core_v1" where
  "HijackCore_V1 kc_v1 a = \<lparr>hiv_Interface = kc_v1 (hci_Interface a)\<rparr>"

definition HijackV1_ResourceQuotas ::
  "'kv hijack_informers_core_v1 \<Rightarrow> ('o, 'tr) factory \<Rightarrow> 'o hijack_resource_quota_informer" where
  "HijackV1_ResourceQuotas a f = \<lparr>hri_i = version_ResourceQuotas (group_V1 (factory_Quota f))\<rparr>"

definition HijackInformer_Informer ::
  "'o hijack_resource_quota_informer \<Rightarrow> ('o, 'tr) factory \<Rightarrow> nat \<times> ('o, 'tr) factory" where
  "HijackInformer_Informer a f = resourceQuota_Informer (hri_i a) f"

definition Hijack_ResourceQuotas_Informer ::
  "('k \<Rightarrow> 'kc) \<Rightarrow> ('kc \<Rightarrow> 'kv) \<Rightarrow> 'k \<Rightarrow> ('o, 'tr) factory \<Rightarrow> nat \<times> ('o, 'tr) factory" where
  "Hijack_ResourceQuotas_Informer kf_core kc_v1 K f =
    HijackInformer_Informer (HijackV1_ResourceQuotas (HijackCore_V1 kc_v1 (Hijack_Core kf_core K)) f) f"

text \<open>It is the repository's informer, whatever client-go's factory is.\<close>

lemma Hijack_ResourceQuotas_Informer_eq:
  "Hijack_ResourceQuotas_Informer kf_core kc_v1 K f = ResourceQuotas_Informer f"
  by (simp add: Hijack_ResourceQuotas_Informer_def HijackInformer_Informer_def HijackV1_ResourceQuotas_def
      ResourceQuotas_Informer_def)

text \<open>
  What such an informer stores. The transform that \<open>NewResourceQuota\<close> installs turns the
  repository's objects into core ones and refuses everything else.
\<close>

datatype cache_object =
  ThisQuota resource_quota
| ThisClusterQuota cluster_resource_quota
| CoreQuota core_resource_quota
| OtherCached

definition hijack_transform :: "'e err_lib \<Rightarrow> cache_object \<Rightarrow> 'e + cache_object" where
  "hijack_transform E i =
    (case i of
      ThisQuota crq \<Rightarrow> Inr (CoreQuota (toQuota crq))
    | _ \<Rightarrow> Inl (NewBadRequest E ''not a ConditionalResourceQuota''))"

text \<open>The lines of \<open>NewResourceQuota\<close> that take the informer and set its transform.\<close>

definition hijack_informer :: "'tr \<Rightarrow> ('o, 'tr) factory \<Rightarrow> nat \<times> ('o, 'tr) factory" where
  "hijack_informer tr f =
    (case ResourceQuotas_Informer f of (a, f') \<Rightarrow> (a, SetTransform a tr f'))"

subsection \<open>The contract of a status client\<close>

text \<open>
  What the quota controller expects of the client it is given: an \<open>UpdateStatus\<close> that succeeds
  returns the object with the status it was given, and a later \<open>List\<close> that selects the object
  shows it. The adaptor keeps the contract of the typed client below it.
\<close>

locale status_client =
  fixes lst :: "'o \<Rightarrow> 'w \<Rightarrow> ('e + 'q list) \<times> 'w"
    and upd :: "'q \<Rightarrow> 'p \<Rightarrow> 'w \<Rightarrow> ('e + 'q) \<times> 'w"
    and meta :: "'q \<Rightarrow> object_meta" and status :: "'q \<Rightarrow> rq_status"
    and selects :: "'o \<Rightarrow> object_meta \<Rightarrow> bool"
  assumes upd_status: "upd q p w = (Inr q', w') \<Longrightarrow>
      status q' = status q \<and> om_Name (meta q') = om_Name (meta q) \<and>
      om_Namespace (meta q') = om_Namespace (meta q)"
    and upd_listed: "upd q p w = (Inr q', w') \<Longrightarrow> lst opts w' = (Inr qs, w'') \<Longrightarrow>
      selects opts (meta q') \<Longrightarrow> \<exists>x \<in> set qs. meta x = meta q' \<and> status x = status q'"
begin

lemma update_then_list:
  assumes "upd q p w = (Inr q', w')" and "lst opts w' = (Inr qs, w'')" and "selects opts (meta q')"
  obtains x where "x \<in> set qs" and "status x = status q" and "om_Name (meta x) = om_Name (meta q)"
    and "om_Namespace (meta x) = om_Namespace (meta q)"
  using upd_status [OF assms(1)] upd_listed [OF assms] by auto

end

abbreviation this_list :: "('w, 'o, 'p, 'e) typed_client \<Rightarrow> 'o \<Rightarrow> 'w \<Rightarrow> ('e + resource_quota list) \<times> 'w" where
  "this_list T opts w \<equiv> map_prod (map_sum id rql_Items) id (tc_List T opts w)"

abbreviation hijack_list :: "('w, 'o, 'p, 'e) typed_client \<Rightarrow> 'o \<Rightarrow> 'w \<Rightarrow> ('e + core_resource_quota list) \<times> 'w" where
  "hijack_list T opts w \<equiv> map_prod (map_sum id crv1l_Items) id (Hijack_List T opts w)"

locale hijacked_client =
  this_client: status_client "this_list T" "tc_UpdateStatus T" rq_ObjectMeta rq_Status selects
  for T :: "('w, 'o, 'p, 'e) typed_client" and selects

lemma Hijack_List_Inr:
  "Hijack_List T opts w = (Inr l, w') \<longleftrightarrow>
   (\<exists>l0. tc_List T opts w = (Inr l0, w') \<and> crv1l_Items l = map toQuota (rql_Items l0) \<and>
     crv1l_ListMeta l = (rql_ListMeta l0)\<lparr>lm_SelfLink := []\<rparr>)"
  by (cases "tc_List T opts w"; cases "fst (tc_List T opts w)") (auto simp: Hijack_List_def Let_def)

lemma Hijack_UpdateStatus_Inr:
  "Hijack_UpdateStatus T q opts w = (Inr r, w') \<longleftrightarrow>
   (\<exists>r0. tc_UpdateStatus T (fromQuota q) opts w = (Inr r0, w') \<and> r = toQuota r0)"
  by (auto simp: Hijack_UpdateStatus_def Let_def split: sum.splits prod.splits)

sublocale hijacked_client \<subseteq> core_client:
  status_client "hijack_list T" "Hijack_UpdateStatus T" crv1_ObjectMeta crv1_Status selects
proof unfold_locales
  fix q p w q' w' opts qs w''
  assume upd: "Hijack_UpdateStatus T q p w = (Inr q', w')"
  then obtain r0 where r0: "tc_UpdateStatus T (fromQuota q) p w = (Inr r0, w')" "q' = toQuota r0"
    by (auto simp: Hijack_UpdateStatus_Inr)
  then show "crv1_Status q' = crv1_Status q \<and> om_Name (crv1_ObjectMeta q') = om_Name (crv1_ObjectMeta q) \<and>
      om_Namespace (crv1_ObjectMeta q') = om_Namespace (crv1_ObjectMeta q)"
    using this_client.upd_status [OF r0(1)] by simp
  assume "hijack_list T opts w' = (Inr qs, w'')" and sel: "selects opts (crv1_ObjectMeta q')"
  then obtain l0 where "tc_List T opts w' = (Inr l0, w'')" and qs: "qs = map toQuota (rql_Items l0)"
    by (cases "Hijack_List T opts w'"; cases "fst (Hijack_List T opts w')") (auto simp: Hijack_List_Inr)
  then have "this_list T opts w' = (Inr (rql_Items l0), w'')"
    by simp
  then show "\<exists>x \<in> set qs. crv1_ObjectMeta x = crv1_ObjectMeta q' \<and> crv1_Status x = crv1_Status q'"
    using this_client.upd_listed [OF r0(1)] sel r0(2) qs by fastforce
qed

context hijacked_client
begin

lemma hijacked_update_then_list:
  assumes "Hijack_UpdateStatus T q p w = (Inr q', w')"
    and "Hijack_List T opts w' = (Inr l, w'')" and "selects opts (crv1_ObjectMeta q')"
  shows "\<exists>x \<in> set (crv1l_Items l). crv1_Status x = crv1_Status q \<and>
    om_Name (crv1_ObjectMeta x) = om_Name (crv1_ObjectMeta q) \<and>
    om_Namespace (crv1_ObjectMeta x) = om_Namespace (crv1_ObjectMeta q)"
  using core_client.update_then_list [OF assms(1) _ assms(3), of "crv1l_Items l" w''] assms(2)
  by fastforce

end

subsection \<open>The reference client\<close>

definition mem_rq_update_status :: "resource_quota \<Rightarrow> unit \<Rightarrow> mem_world \<Rightarrow> (ref_error + resource_quota) \<times> mem_world" where
  "mem_rq_update_status q p w =
    (case map_of (mw_rqs w) (quota_key q) of
      None \<Rightarrow> (Inl (RStatus 404 (snd (quota_key q))), w)
    | Some q0 \<Rightarrow>
        let q1 = q0\<lparr>rq_Status := rq_Status q, rq_ObjectMeta := (rq_ObjectMeta q0)\<lparr>
              om_Namespace := rq_Namespace q, om_Name := om_Name (rq_ObjectMeta q)\<rparr>\<rparr>
        in (Inr q1, w\<lparr>mw_rqs := mput (quota_key q) q1 (mw_rqs w)\<rparr>))"

definition mem_typed_client :: "(mem_world, unit, unit, ref_error) typed_client" where
  "mem_typed_client = \<lparr>
     tc_List = (\<lambda>opts w. (Inr \<lparr>rql_TypeMeta = empty_type_meta,
       rql_ListMeta = \<lparr>lm_SelfLink = [], lm_ResourceVersion = [], lm_Continue = [], lm_RemainingItemCount = None\<rparr>,
       rql_Items = map snd (mw_rqs w)\<rparr>, w)),
     tc_UpdateStatus = mem_rq_update_status\<rparr>"

interpretation mem_hijacked: hijacked_client mem_typed_client "\<lambda>_ _. True"
proof unfold_locales
  fix q p w q' w' opts qs w''
  assume upd: "tc_UpdateStatus mem_typed_client q p w = (Inr q', w')"
  then show "rq_Status q' = rq_Status q \<and> om_Name (rq_ObjectMeta q') = om_Name (rq_ObjectMeta q) \<and>
      rq_Namespace q' = rq_Namespace q"
    by (auto simp: mem_typed_client_def mem_rq_update_status_def Let_def split: option.splits)
  assume "this_list mem_typed_client opts w' = (Inr qs, w'')"
  then have "qs = map snd (mw_rqs w')"
    by (auto simp: mem_typed_client_def)
  moreover have "map_of (mw_rqs w') (quota_key q) = Some q'"
    using upd by (auto simp: mem_typed_client_def mem_rq_update_status_def Let_def gomap_simps split: option.splits)
  ultimately show "\<exists>x \<in> set qs. rq_ObjectMeta x = rq_ObjectMeta q' \<and> rq_Status x = rq_Status q'"
    by (force dest: map_of_SomeD)
qed

subsection \<open>Properties\<close>

text \<open>
  C31. The adaptor keeps the contract of a status client: if the typed client shows a status it has
  accepted in later lists, then a \<open>corev1.ResourceQuota\<close> whose status the quota controller updates
  through the adaptor is listed by the adaptor, under its name and namespace, with exactly the
  status that was sent.
\<close>
theorem hijacked_status_readback:
  assumes "hijacked_client T selects"
    and "Hijack_UpdateStatus T q p w = (Inr q', w')"
    and "Hijack_List T opts w' = (Inr l, w'')" and "selects opts (crv1_ObjectMeta q')"
  shows "\<exists>x \<in> set (crv1l_Items l). crv1_Status x = crv1_Status q \<and>
    om_Name (crv1_ObjectMeta x) = om_Name (crv1_ObjectMeta q) \<and>
    om_Namespace (crv1_ObjectMeta x) = om_Namespace (crv1_ObjectMeta q)"
  using assms by (rule hijacked_client.hijacked_update_then_list)

definition hijack_demo_quota :: resource_quota where
  "hijack_demo_quota = empty_resource_quota\<lparr>rq_ObjectMeta := empty_object_meta\<lparr>om_Name := ''q'', om_Namespace := ''ns1''\<rparr>,
     rq_Status := \<lparr>rqst_Hard = [(''cpu'', Quantity 2)], rqst_Used = [(''cpu'', Quantity 1)]\<rparr>\<rparr>"

definition hijack_demo_world :: mem_world where
  "hijack_demo_world = \<lparr>mw_crqs = [], mw_rqs = [((''ns1'', ''q''), hijack_demo_quota\<lparr>rq_Status := empty_rq_status\<rparr>)],
     mw_nss = [], mw_clock = 0\<rparr>"

lemmas hijack_demo_defs = hijack_demo_quota_def hijack_demo_world_def empty_resource_quota_def empty_object_meta_def
  empty_rq_status_def

theorem hijacked_status_readback_witness:
  "\<exists>x \<in> set (crv1l_Items \<lparr>crv1l_ListMeta = \<lparr>lm_SelfLink = [], lm_ResourceVersion = [], lm_Continue = [],
      lm_RemainingItemCount = None\<rparr>, crv1l_Items = [toQuota hijack_demo_quota]\<rparr>).
    crv1_Status x = crv1_Status (toQuota hijack_demo_quota) \<and>
    om_Name (crv1_ObjectMeta x) = om_Name (crv1_ObjectMeta (toQuota hijack_demo_quota)) \<and>
    om_Namespace (crv1_ObjectMeta x) = om_Namespace (crv1_ObjectMeta (toQuota hijack_demo_quota))"
  by (rule hijacked_status_readback [OF mem_hijacked.hijacked_client_axioms,
        where p = "()" and opts = "()" and w = hijack_demo_world and q' = "toQuota hijack_demo_quota"
          and w' = "hijack_demo_world\<lparr>mw_rqs := [((''ns1'', ''q''), hijack_demo_quota)]\<rparr>"])
    (simp_all add: Hijack_UpdateStatus_def Hijack_List_def mem_typed_client_def mem_rq_update_status_def
      quota_key_def hijack_demo_defs fromQuota_def toQuota_def)

text \<open>
  C32. Apart from erasing the \<open>TypeMeta\<close>, the conversions are inverse to each other in both
  directions, and a list that went through the adaptor has the same objects in the same order
  with the same pagination fields, so converting it back gives the original items.
\<close>
theorem conversion_roundtrip:
  "fromQuota (toQuota q) = q\<lparr>rq_TypeMeta := empty_type_meta\<rparr> \<and>
   toQuota (fromQuota c) = c\<lparr>crv1_TypeMeta := empty_type_meta\<rparr> \<and>
   (Hijack_List T opts w = (Inr l, w') \<longleftrightarrow>
     (\<exists>l0. tc_List T opts w = (Inr l0, w') \<and>
       length (crv1l_Items l) = length (rql_Items l0) \<and>
       map fromQuota (crv1l_Items l) = map (\<lambda>q. q\<lparr>rq_TypeMeta := empty_type_meta\<rparr>) (rql_Items l0) \<and>
       list_all (\<lambda>x. crv1_TypeMeta x = empty_type_meta) (crv1l_Items l) \<and>
       crv1l_ListMeta l = (rql_ListMeta l0)\<lparr>lm_SelfLink := []\<rparr>))"
proof -
  have "xs = map toQuota ys \<longleftrightarrow>
      length xs = length ys \<and> map fromQuota xs = map (\<lambda>q. q\<lparr>rq_TypeMeta := empty_type_meta\<rparr>) ys \<and>
      (\<forall>x \<in> set xs. crv1_TypeMeta x = empty_type_meta)" for xs ys
  proof (induction xs arbitrary: ys)
    case (Cons x xs)
    then show ?case
      by (cases ys) (auto simp: eq_toQuota_iff)
  qed auto
  then show ?thesis
    by (simp add: to_core.dec_enc from_core.dec_enc Hijack_List_Inr list_all_iff)
qed

text \<open>
  C34. \<open>WaitForCacheSync\<close> of the adaptor never reports anything: it panics, by an assignment to a nil
  map, as soon as one of the two factories reports an informer, and otherwise returns a nil map.
\<close>
theorem wait_for_cache_sync_panics:
  "fst (Hijack_WaitForCacheSync K synced (w, f)) =
    (if fst (kf_WaitForCacheSync K w) = [] \<and> started_informers f = [] then Inr None else Inl NilMapWrite)"
proof -
  have "WaitForCacheSync synced f = [] \<longleftrightarrow> started_informers f = []"
  proof (cases "started_informers f" rule: rev_cases)
    case (snoc xs x)
    then show ?thesis
      by (cases x) (simp add: WaitForCacheSync_def mput_def)
  qed (simp add: WaitForCacheSync_def)
  then show ?thesis
    by (simp add: Hijack_WaitForCacheSync_def maps_Copy_def split: prod.split)
qed

text \<open>
  The transform that \<open>NewResourceQuota\<close> sets on the ResourceQuota informer is the one in force
  whenever the adaptor hands the informer out later: after any requests, starts, shutdowns and
  ended goroutines, the adaptor returns that same informer with that transform.
\<close>
lemma hijacked_informer_keeps_transform:
  assumes "factory_reach f" and "\<not> is_started f ''ResourceQuota''"
    and "hijack_informer tr f = (a, f1)" and "lifecycle_step\<^sup>*\<^sup>* f1 f2"
  shows "Hijack_ResourceQuotas_Informer kf_core kc_v1 K f2 = (a, f2) \<and> transform_at a f2 = Some tr"
proof -
  obtain f0 where f0: "ResourceQuotas_Informer f = (a, f0)" and f1: "f1 = SetTransform a tr f0"
    using assms(3) by (auto simp: hijack_informer_def split: prod.splits)
  have "factory_inv f0"
    using factory_reach_inv [OF reach_ResourceQuotas [OF assms(1)]] f0 by simp
  moreover have reg: "map_of (f_informers f0) ''ResourceQuota'' = Some a"
    using source.registers [where newFunc = "\<lambda>_ r. NewFilteredResourceQuotaInformer (f_namespace f) r [(NamespaceIndex, MetaNamespaceIndexFunc)] (f_tweakListOptions f)"
        and t = "''ResourceQuota''" and s = f] f0
    by (simp add: ResourceQuotas_Informer_eq)
  moreover have "\<not> is_started f0 ''ResourceQuota''"
    using assms(2) f0 InformerFor_new(4) [of f "''ResourceQuota''"]
    by (cases "map_of (f_informers f) ''ResourceQuota''")
      (auto simp: ResourceQuotas_Informer_eq is_started_def InformerFor_registered prod_eq_iff)
  ultimately have "launched f0 a = 0" and "a < length (f_store f0)"
    by (simp_all add: factory_inv_launched factory_inv_address)
  then have "a < length (f_store f1)" and "transform_at a f1 = Some tr"
    by (simp_all add: f1 SetTransform_def launched_def transform_at_def set_inf_def)
  then have "transform_at a f2 = Some tr"
    using lifecycle_steps_transform [OF assms(4)] by simp
  moreover have "map_of (f_informers f1) ''ResourceQuota'' = Some a"
    using reg by (simp add: f1)
  then have "map_of (f_informers f2) ''ResourceQuota'' = Some a"
    by (rule factory_steps_informers [OF lifecycle_steps_factory [OF assms(4)]])
  ultimately show ?thesis
    by (simp add: Hijack_ResourceQuotas_Informer_eq ResourceQuotas_Informer_eq InformerFor_registered)
qed

definition hijacked_demo :: "(unit, nat) factory" where
  "hijacked_demo = snd (hijack_informer 7 demo_factory)"

end
