(* ===== verification/Quota_Cache.thy ===== *)
theory Quota_Cache
  imports Api_Server
begin

section \<open>The usage cache (\<open>clusterresourcequota-cache.go\<close>)\<close>

text \<open>
  \<open>ResourceQuotaCache\<close> maps a ClusterResourceQuota name to a pointer to a
  \<open>ClusterResourceQuotaCache\<close>, which maps a namespace to its usage. A webhook request keeps the
  pointer while other requests and the periodic \<open>Sync\<close> change the map, so the pointers matter:
  the model has a heap of \<open>Quotas\<close> maps, and an address is an index into it. The
  \<open>*ResourceUsageInfo\<close> values are never shared between two maps, so they are stored by value.
  The locks make \<open>GetOrCreate\<close>, \<open>Sync\<close> and \<open>OnLock\<close> the steps that can interleave; they are not
  part of the data. The theory \<open>Interleaving\<close> runs them in any order.
\<close>

subsection \<open>State\<close>

record resource_usage_info =
  rui_Hard :: resource_list
  rui_Used :: resource_list
  rui_LastUpdate :: time

type_synonym quotas = "(string, resource_usage_info) gomap"

type_synonym address = nat

record resource_quota_cache =
  rqc_quotacache :: "(string, address) gomap"
  rqc_heap :: "quotas list"

text \<open>\<open>&ClusterResourceQuotaCache{...}\<close>: a new object at the next free address.\<close>

definition alloc :: "quotas \<Rightarrow> resource_quota_cache \<Rightarrow> address \<times> resource_quota_cache" where
  "alloc qs c = (length (rqc_heap c), c\<lparr>rqc_heap := rqc_heap c @ [qs]\<rparr>)"

definition read_quotas :: "address \<Rightarrow> resource_quota_cache \<Rightarrow> quotas" where
  "read_quotas a c = rqc_heap c ! a"

definition write_quotas :: "address \<Rightarrow> quotas \<Rightarrow> resource_quota_cache \<Rightarrow> resource_quota_cache" where
  "write_quotas a qs c = c\<lparr>rqc_heap := (rqc_heap c)[a := qs]\<rparr>"

definition NewResourceQuotaCache :: resource_quota_cache where
  "NewResourceQuotaCache = \<lparr>rqc_quotacache = [], rqc_heap = []\<rparr>"

subsection \<open>Operations\<close>

definition GetOrCreate :: "string \<Rightarrow> resource_quota_cache \<Rightarrow> address \<times> resource_quota_cache" where
  "GetOrCreate name c =
    (case map_of (rqc_quotacache c) name of
      Some val \<Rightarrow> (val, c)
    | None \<Rightarrow>
        (case alloc [] c of (val, c') \<Rightarrow>
          (val, c'\<lparr>rqc_quotacache := mput name val (rqc_quotacache c')\<rparr>)))"

text \<open>\<open>OnLock\<close>: the closure reads and writes the \<open>Quotas\<close> of this one object, and the world.\<close>

definition OnLock ::
  "address \<Rightarrow> (quotas \<Rightarrow> 'w \<Rightarrow> 'r \<times> quotas \<times> 'w) \<Rightarrow> resource_quota_cache \<Rightarrow> 'w \<Rightarrow>
   'r \<times> resource_quota_cache \<times> 'w" where
  "OnLock a fn c w =
    (case fn (read_quotas a c) w of (r, qs, w') \<Rightarrow> (r, write_quotas a qs c, w'))"

text \<open>\<open>Sync\<close>, its first loop: group the listed quotas by the ClusterResourceQuota they belong to.\<close>

definition group_step :: "time \<Rightarrow> resource_quota \<Rightarrow> (string, quotas) gomap \<Rightarrow> (string, quotas) gomap" where
  "group_step now rq grouped =
    (case rq_Labels rq of
      None \<Rightarrow> grouped
    | Some ls \<Rightarrow>
        let crqname = mstr ls LabelClusterResourceQuota in
        if crqname = [] then grouped
        else
          let grouped = (if map_of grouped crqname = None then mput crqname [] grouped else grouped) in
          mput crqname
            (mput (rq_Namespace rq)
              \<lparr>rui_Hard = rq_Status_Hard rq, rui_Used = rq_Status_Used rq, rui_LastUpdate = now\<rparr>
              (the (map_of grouped crqname))) grouped)"

definition group_quotas :: "time \<Rightarrow> resource_quota list \<Rightarrow> (string, quotas) gomap" where
  "group_quotas now qs = fold (group_step now) qs []"

text \<open>
  The inner loop over the namespaces of an existing entry. It reads the clock for every entry that
  is still listed.
\<close>

definition merge_step :: "('w \<Rightarrow> time \<times> 'w) \<Rightarrow> string \<times> resource_usage_info \<Rightarrow>
    quotas \<times> quotas \<times> 'w \<Rightarrow> quotas \<times> quotas \<times> 'w" where
  "merge_step now existing s =
    (case (existing, s) of ((existingNamespace, existingUsage), (qs, updatedQuotas, w)) \<Rightarrow>
      (case map_of updatedQuotas existingNamespace of
        None \<Rightarrow> (mdel existingNamespace qs, updatedQuotas, w)
      | Some updatedUsage \<Rightarrow>
          (case now w of (t, w') \<Rightarrow>
            if rui_LastUpdate existingUsage + 10 * second > t then (qs, updatedQuotas, w')
            else (mput existingNamespace updatedUsage qs, mdel existingNamespace updatedQuotas, w'))))"

definition merge_quotas :: "('w \<Rightarrow> time \<times> 'w) \<Rightarrow> quotas \<Rightarrow> quotas \<Rightarrow> 'w \<Rightarrow> quotas \<times> 'w" where
  "merge_quotas now qs updatedQuotas w =
    (case fold (merge_step now) qs (qs, updatedQuotas, w) of
      (qs', updatedQuotas', w') \<Rightarrow> (mcopy qs' updatedQuotas', w'))"

text \<open>The second loop: drop or merge every existing entry.\<close>

definition existing_step :: "('w \<Rightarrow> time \<times> 'w) \<Rightarrow> string \<times> address \<Rightarrow>
    resource_quota_cache \<times> (string, quotas) gomap \<times> 'w \<Rightarrow>
    resource_quota_cache \<times> (string, quotas) gomap \<times> 'w" where
  "existing_step now existing s =
    (case (existing, s) of ((name, crqcache), (c, grouped, w)) \<Rightarrow>
      (case map_of grouped name of
        None \<Rightarrow> (c\<lparr>rqc_quotacache := mdel name (rqc_quotacache c)\<rparr>, grouped, w)
      | Some updatedQuotas \<Rightarrow>
          (case merge_quotas now (read_quotas crqcache c) updatedQuotas w of
            (qs, w') \<Rightarrow> (write_quotas crqcache qs c, mdel name grouped, w'))))"

text \<open>The third loop: an entry for every name that is new.\<close>

definition new_step :: "string \<times> quotas \<Rightarrow> resource_quota_cache \<Rightarrow> resource_quota_cache" where
  "new_step new c =
    (case new of (name, quotas) \<Rightarrow>
      (case alloc [] c of (crqcache, c1) \<Rightarrow>
        let c2 = c1\<lparr>rqc_quotacache := mput name crqcache (rqc_quotacache c1)\<rparr> in
        write_quotas crqcache (mcopy (read_quotas crqcache c2) quotas) c2))"

definition Sync :: "('w \<Rightarrow> time \<times> 'w) \<Rightarrow> resource_quota list \<Rightarrow> resource_quota_cache \<Rightarrow> 'w \<Rightarrow>
    resource_quota_cache \<times> 'w" where
  "Sync now qs c w =
    (case now w of (t, w1) \<Rightarrow>
      (case fold (existing_step now) (rqc_quotacache c) (c, group_quotas t qs, w1) of
        (c', grouped, w2) \<Rightarrow> (fold new_step grouped c', w2)))"

text \<open>
  \<open>CacheSyner\<close>: \<open>SyncOnce\<close>, and the \<open>select\<close> loop of \<open>Start\<close> over the events it receives; it
  returns at \<open>ctx.Done()\<close> and otherwise waits for the next event. \<open>SyncOnce\<close> gives the error it
  returns, which \<open>Start\<close> logs.
\<close>

definition SyncOnce :: "('w, 'e) kube_client \<Rightarrow> resource_quota_cache \<Rightarrow> 'w \<Rightarrow>
    'e option \<times> resource_quota_cache \<times> 'w" where
  "SyncOnce C c w =
    (case List_rq C w of
      (Inl err, w') \<Rightarrow> (Some err, c, w')
    | (Inr items, w') \<Rightarrow> (case Sync (time_Now C) items c w' of (c', w'') \<Rightarrow> (None, c', w'')))"

datatype select_event = Tick | Done

datatype loop_result = Returned | Waiting

fun CacheSyner_Start :: "('w, 'e) kube_client \<Rightarrow> select_event list \<Rightarrow> resource_quota_cache \<Rightarrow> 'w \<Rightarrow>
    loop_result \<times> resource_quota_cache \<times> 'w" where
  "CacheSyner_Start C [] c w = (Waiting, c, w)"
| "CacheSyner_Start C (Tick # es) c w =
    (case SyncOnce C c w of (_, c', w') \<Rightarrow> CacheSyner_Start C es c' w')"
| "CacheSyner_Start C (Done # es) c w = (Returned, c, w)"

subsection \<open>What the cache holds\<close>

text \<open>
  \<open>view\<close> follows the pointer of a name to its map; \<open>usage\<close> is the same map as a function. The
  invariant says that names do not share an object and every pointer is valid.
\<close>

definition view :: "resource_quota_cache \<Rightarrow> string \<Rightarrow> quotas option" where
  "view c n = map_option (\<lambda>a. read_quotas a c) (map_of (rqc_quotacache c) n)"

definition usage :: "resource_quota_cache \<Rightarrow> string \<Rightarrow> (string \<Rightarrow> resource_usage_info option) option" where
  "usage c n = map_option map_of (view c n)"

definition cache_ok :: "resource_quota_cache \<Rightarrow> bool" where
  "cache_ok c \<longleftrightarrow> mwf (rqc_quotacache c) \<and> distinct (map snd (rqc_quotacache c)) \<and>
     (\<forall>a \<in> snd ` set (rqc_quotacache c). a < length (rqc_heap c)) \<and> (\<forall>qs \<in> set (rqc_heap c). mwf qs)"

named_theorems cache_simps "reads and writes of the cache"

lemma read_write [cache_simps]:
  "a < length (rqc_heap c) \<Longrightarrow>
   read_quotas b (write_quotas a qs c) = (if b = a then qs else read_quotas b c)"
  by (simp add: read_quotas_def write_quotas_def nth_list_update)

lemma write_fields [cache_simps]:
  "rqc_quotacache (write_quotas a qs c) = rqc_quotacache c"
  "length (rqc_heap (write_quotas a qs c)) = length (rqc_heap c)"
  by (simp_all add: write_quotas_def)

lemma read_alloc [cache_simps]:
  "alloc qs c = (a, c') \<Longrightarrow> b < length (rqc_heap c) \<Longrightarrow> read_quotas b c' = read_quotas b c"
  "alloc qs c = (a, c') \<Longrightarrow> read_quotas a c' = qs"
  by (auto simp: alloc_def read_quotas_def nth_append)

lemma cache_okD:
  assumes "cache_ok c" and "map_of (rqc_quotacache c) n = Some a"
  shows "a < length (rqc_heap c)" and "mwf (read_quotas a c)"
    and "map_of (rqc_quotacache c) m = Some a \<longleftrightarrow> m = n"
proof -
  have "(n, a) \<in> set (rqc_quotacache c)"
    using assms by (simp add: map_of_SomeD)
  then show *: "a < length (rqc_heap c)"
    using assms(1) by (force simp: cache_ok_def)
  then show "mwf (read_quotas a c)"
    using assms(1) by (simp add: cache_ok_def read_quotas_def)
  show "map_of (rqc_quotacache c) m = Some a \<longleftrightarrow> m = n"
    using assms map_of_same_value [of "rqc_quotacache c" n a m] by (auto simp: cache_ok_def)
qed

lemma cache_ok_New [simp]: "cache_ok NewResourceQuotaCache"
  by (simp add: cache_ok_def NewResourceQuotaCache_def)

lemma usage_New [simp]: "usage NewResourceQuotaCache n = None"
  by (simp add: usage_def view_def NewResourceQuotaCache_def)

subsubsection \<open>Writing through a pointer\<close>

lemma cache_ok_write:
  assumes "cache_ok c" and "mwf qs"
  shows "cache_ok (write_quotas a qs c)"
  using assms set_update_subset_insert [of "rqc_heap c" a qs]
  by (auto simp: cache_ok_def write_quotas_def)

lemma view_write:
  assumes "cache_ok c" and "map_of (rqc_quotacache c) n = Some a"
  shows "view (write_quotas a qs c) = (view c)(n \<mapsto> qs)"
proof
  fix m
  have "a < length (rqc_heap c)" and "map_of (rqc_quotacache c) m = Some a \<longleftrightarrow> m = n"
    using cache_okD [OF assms] by auto
  then show "view (write_quotas a qs c) m = ((view c)(n \<mapsto> qs)) m"
    by (cases "map_of (rqc_quotacache c) m") (auto simp: view_def cache_simps)
qed

text \<open>Writing through a pointer that no name holds any more changes no view.\<close>

lemma view_write_orphan:
  assumes "a \<notin> ran (map_of (rqc_quotacache c))"
  shows "view (write_quotas a qs c) = view c"
proof
  fix m
  show "view (write_quotas a qs c) m = view c m"
    using assms by (cases "map_of (rqc_quotacache c) m")
      (auto simp: view_def write_quotas_def read_quotas_def ran_def, metis nth_list_update_neq)
qed

subsubsection \<open>A new entry\<close>

definition bind_new :: "string \<Rightarrow> quotas \<Rightarrow> resource_quota_cache \<Rightarrow> resource_quota_cache" where
  "bind_new n qs c = c\<lparr>rqc_quotacache := mput n (length (rqc_heap c)) (rqc_quotacache c),
     rqc_heap := rqc_heap c @ [qs]\<rparr>"

lemma set_mput: "set (mput k v m) \<subseteq> insert (k, v) (set m)"
  by (induction m) (auto split: if_splits)

lemma snd_set_mput: "snd ` set (mput k v m) \<subseteq> insert v (snd ` set m)"
  using set_mput [of k v m] by fastforce

lemma distinct_snd_mput:
  "v \<notin> snd ` set m \<Longrightarrow> distinct (map snd m) \<Longrightarrow> distinct (map snd (mput k v m))"
proof (induction m)
  case (Cons p m)
  then show ?case
    using snd_set_mput [of k v m] by (cases p) auto
qed simp

lemma cache_ok_bind_new:
  assumes "cache_ok c" and "mwf qs"
  shows "cache_ok (bind_new n qs c)"
proof -
  have fresh: "length (rqc_heap c) \<notin> snd ` set (rqc_quotacache c)"
    using assms(1) by (auto simp: cache_ok_def)
  have "\<forall>a \<in> snd ` set (mput n (length (rqc_heap c)) (rqc_quotacache c)). a < Suc (length (rqc_heap c))"
    using snd_set_mput [of n "length (rqc_heap c)" "rqc_quotacache c"] assms(1)
    unfolding cache_ok_def by (fastforce simp: less_Suc_eq)
  then show ?thesis
    using assms fresh by (auto simp: cache_ok_def bind_new_def distinct_snd_mput gomap_simps)
qed

lemma view_bind_new:
  assumes "cache_ok c"
  shows "view (bind_new n qs c) = (view c)(n \<mapsto> qs)"
proof
  fix m
  show "view (bind_new n qs c) m = ((view c)(n \<mapsto> qs)) m"
    using cache_okD(1) [OF assms, of m]
    by (cases "map_of (rqc_quotacache c) m")
      (auto simp: view_def bind_new_def read_quotas_def gomap_simps nth_append)
qed

lemma GetOrCreate_eq:
  "GetOrCreate n c =
    (case map_of (rqc_quotacache c) n of
      Some a \<Rightarrow> (a, c) | None \<Rightarrow> (length (rqc_heap c), bind_new n [] c))"
  by (simp add: GetOrCreate_def alloc_def bind_new_def split: option.split)

lemma new_step_eq: "new_step (n, qs) c = bind_new n (mcopy [] qs) c"
  by (simp add: new_step_def alloc_def bind_new_def write_quotas_def read_quotas_def Let_def)

subsection \<open>Grouping\<close>

definition usage_info :: "time \<Rightarrow> resource_quota \<Rightarrow> resource_usage_info" where
  "usage_info t rq =
    \<lparr>rui_Hard = rq_Status_Hard rq, rui_Used = rq_Status_Used rq, rui_LastUpdate = t\<rparr>"

text \<open>
  The specification: a ClusterResourceQuota has an entry if a listed quota names it, and in it the
  namespaces of those quotas, each with the usage of the last one listed.
\<close>

definition listed :: "time \<Rightarrow> resource_quota list \<Rightarrow> string \<Rightarrow> (string \<Rightarrow> resource_usage_info option) option" where
  "listed t qs n =
    (if n \<noteq> [] \<and> n \<in> (\<lambda>rq. managed_by (rq_Labels rq)) ` set qs
     then Some (\<lambda>ns. map_option (usage_info t)
       (find (\<lambda>rq. managed_by (rq_Labels rq) = n \<and> rq_Namespace rq = ns) (rev qs)))
     else None)"

definition groups_ok :: "(string, quotas) gomap \<Rightarrow> bool" where
  "groups_ok g \<longleftrightarrow> mwf g \<and> (\<forall>qs \<in> snd ` set g. mwf qs)"

lemma groups_ok_get: "groups_ok g \<Longrightarrow> map_of g n = Some qs \<Longrightarrow> mwf qs"
  by (force simp: groups_ok_def dest: map_of_SomeD)

lemma groups_ok_put: "groups_ok g \<Longrightarrow> mwf qs \<Longrightarrow> groups_ok (mput n qs g)"
  using snd_set_mput [of n qs g] by (fastforce simp: groups_ok_def gomap_simps)

lemma groups_ok_del: "groups_ok g \<Longrightarrow> groups_ok (mdel n g)"
  by (auto simp: groups_ok_def gomap_simps set_mdel)

lemma group_step_lookup:
  "map_of (group_step t rq g) =
    (let n = managed_by (rq_Labels rq) in
     if n = [] then map_of g
     else (map_of g)(n \<mapsto> mput (rq_Namespace rq) (usage_info t rq)
       (case map_of g n of None \<Rightarrow> [] | Some qs \<Rightarrow> qs)))"
  by (cases "rq_Labels rq") (auto simp: group_step_def Let_def usage_info_def gomap_simps split: option.splits)

lemma group_step_ok: "groups_ok g \<Longrightarrow> groups_ok (group_step t rq g)"
  by (auto simp: group_step_def Let_def groups_ok_put gm_wf groups_ok_get gomap_simps
      split: option.splits)

lemma group_quotas_ok: "groups_ok (group_quotas t qs)"
proof -
  have "groups_ok g \<Longrightarrow> groups_ok (fold (group_step t) qs g)" for g
    by (induction qs arbitrary: g) (auto simp: group_step_ok)
  moreover have "groups_ok []"
    by (simp add: groups_ok_def)
  ultimately show ?thesis
    unfolding group_quotas_def by blast
qed

lemma group_quotas_listed: "map_option map_of (map_of (group_quotas t qs) n) = listed t qs n"
proof (induction qs rule: rev_induct)
  case Nil
  then show ?case
    by (simp add: group_quotas_def listed_def)
next
  case (snoc rq qs)
  have "group_quotas t (qs @ [rq]) = group_step t rq (group_quotas t qs)"
    by (simp add: group_quotas_def)
  moreover have "find (\<lambda>q. managed_by (rq_Labels q) = n \<and> rq_Namespace q = ns) (rev qs) = None"
    if "n \<notin> (\<lambda>rq. managed_by (rq_Labels rq)) ` set qs" for ns
    using that by (auto simp: find_None_iff)
  ultimately show ?case
    using snoc
    by (auto simp: group_step_lookup Let_def listed_def fun_eq_iff gomap_simps split: option.splits if_splits)
qed

subsection \<open>Merging\<close>

text \<open>
  One turn of the inner loop changes what \<open>crqcache.Quotas\<close> overridden by \<open>updatedQuotas\<close> says at
  its own namespace only, and there it becomes what was listed, whichever branch it takes.
\<close>

lemma merge_step_effect:
  assumes "merge_step now (ns, u) (qs, upd, w) = (qs', upd', w')"
  shows "map_of qs' ++ map_of upd' = (map_of qs ++ map_of upd)(ns := map_of upd ns)"
    and "m \<noteq> ns \<Longrightarrow> map_of upd' m = map_of upd m"
    and "mwf qs \<Longrightarrow> mwf qs'" and "mwf upd \<Longrightarrow> mwf upd'"
  using assms
  by (auto simp: merge_step_def gomap_simps map_add_def fun_eq_iff gm_wf
      split: option.splits prod.splits if_splits)

lemma merge_fold_effect:
  assumes "mwf es" and "fold (merge_step now) es (qs, upd, w) = (qs', upd', w')"
  shows "(map_of qs' ++ map_of upd') m =
      (if m \<in> fst ` set es then map_of upd m else (map_of qs ++ map_of upd) m) \<and>
    (mwf qs \<longrightarrow> mwf qs') \<and> (mwf upd \<longrightarrow> mwf upd')"
  using assms
proof (induction es arbitrary: qs upd w)
  case Nil
  then show ?case by simp
next
  case (Cons e es)
  obtain ns u where e: "e = (ns, u)"
    by fastforce
  obtain qs1 upd1 w1 where step: "merge_step now (ns, u) (qs, upd, w) = (qs1, upd1, w1)"
    by (metis prod_cases3)
  have rest: "(map_of qs' ++ map_of upd') m =
      (if m \<in> fst ` set es then map_of upd1 m else (map_of qs1 ++ map_of upd1) m) \<and>
    (mwf qs1 \<longrightarrow> mwf qs') \<and> (mwf upd1 \<longrightarrow> mwf upd')"
    using Cons.prems step by (intro Cons.IH [of qs1 upd1 w1]) (simp_all add: e mwf_Cons)
  have "ns \<notin> fst ` set es"
    using Cons.prems(1) by (simp add: e mwf_Cons)
  then have "m \<in> fst ` set es \<Longrightarrow> map_of upd1 m = map_of upd m"
    using merge_step_effect(2) [OF step, of m] by blast
  then show ?case
    using rest merge_step_effect(1,3,4) [OF step] by (simp add: e) blast
qed

lemma merge_quotas_effect:
  assumes "mwf qs" and "mwf upd" and "merge_quotas now qs upd w = (qs', w')"
  shows "map_of qs' = map_of upd" and "mwf qs'"
proof -
  obtain q u where fold: "fold (merge_step now) qs (qs, upd, w) = (q, u, w')" and qs': "qs' = mcopy q u"
    using assms(3) by (auto simp: merge_quotas_def split: prod.splits)
  note eff = merge_fold_effect [OF assms(1) fold]
  have "map_of qs' m = map_of upd m" for m
  proof -
    have "(map_of q ++ map_of u) m = (if m \<in> fst ` set qs then map_of upd m else (map_of qs ++ map_of upd) m)"
      using eff [of m] by blast
    moreover have "map_of qs m = None" if "m \<notin> fst ` set qs"
      using that by (simp add: map_of_eq_None_iff)
    moreover have "map_of qs' = map_of q ++ map_of u"
      using eff assms by (simp add: qs' gomap_simps)
    ultimately show ?thesis
      by (auto simp: map_add_def split: option.split if_splits)
  qed
  then show "map_of qs' = map_of upd"
    by blast
  show "mwf qs'"
    using eff assms by (auto simp: qs' gomap_simps)
qed

subsection \<open>Sync\<close>

text \<open>One turn of the second loop, and the loop.\<close>

lemma existing_step_effect:
  assumes "cache_ok c" and "groups_ok g" and "(n, a) \<in> set (rqc_quotacache c)"
    and "existing_step now (n, a) (c, g, w) = (c', g', w')"
  shows "cache_ok c'" and "groups_ok g'"
    and "usage c' = (usage c)(n := map_option map_of (map_of g n))"
    and "map_of g' = (map_of g)(n := None)"
    and "m \<noteq> n \<Longrightarrow> (m, b) \<in> set (rqc_quotacache c) \<Longrightarrow> (m, b) \<in> set (rqc_quotacache c')"
proof -
  have ptr: "map_of (rqc_quotacache c) n = Some a"
    using assms(1,3) by (simp add: cache_ok_def mwf_get)
  have "cache_ok c' \<and> groups_ok g' \<and> usage c' = (usage c)(n := map_option map_of (map_of g n)) \<and>
    map_of g' = (map_of g)(n := None) \<and>
    (m \<noteq> n \<longrightarrow> (m, b) \<in> set (rqc_quotacache c) \<longrightarrow> (m, b) \<in> set (rqc_quotacache c'))"
  proof (cases "map_of g n")
    case None
    have "cache_ok (c\<lparr>rqc_quotacache := mdel n (rqc_quotacache c)\<rparr>)"
      using assms(1) by (auto simp: cache_ok_def mwf_filter mdel_def AList.delete_eq distinct_map_filter)
    then show ?thesis
      using assms None
      by (auto simp: existing_step_def usage_def view_def read_quotas_def fun_eq_iff gomap_simps
          set_mdel)
  next
    case (Some upd)
    obtain qs where merge: "merge_quotas now (read_quotas a c) upd w = (qs, w')"
      and c': "c' = write_quotas a qs c" and g': "g' = mdel n g"
      using assms(4) Some by (auto simp: existing_step_def split: prod.splits)
    have qs: "map_of qs = map_of upd" "mwf qs"
      using merge_quotas_effect [OF _ _ merge] cache_okD(2) [OF assms(1) ptr] groups_ok_get [OF assms(2) Some]
      by auto
    show ?thesis
      using assms(1,2) qs Some
      by (auto simp: c' g' cache_ok_write groups_ok_del usage_def view_write [OF assms(1) ptr] gomap_simps
          cache_simps)
  qed
  then show "cache_ok c'" and "groups_ok g'"
    and "usage c' = (usage c)(n := map_option map_of (map_of g n))"
    and "map_of g' = (map_of g)(n := None)"
    and "m \<noteq> n \<Longrightarrow> (m, b) \<in> set (rqc_quotacache c) \<Longrightarrow> (m, b) \<in> set (rqc_quotacache c')"
    by blast+
qed

lemma existing_fold_effect:
  assumes "cache_ok c" and "groups_ok g" and "mwf es" and "set es \<subseteq> set (rqc_quotacache c)"
    and "fold (existing_step now) es (c, g, w) = (c', g', w')"
  shows "cache_ok c' \<and> groups_ok g' \<and>
    usage c' = (\<lambda>n. if n \<in> fst ` set es then map_option map_of (map_of g n) else usage c n) \<and>
    map_of g' = (\<lambda>n. if n \<in> fst ` set es then None else map_of g n)"
  using assms
proof (induction es arbitrary: c g w)
  case Nil
  then show ?case by auto
next
  case (Cons e es)
  obtain n a where e: "e = (n, a)"
    by fastforce
  obtain c1 g1 w1 where step: "existing_step now (n, a) (c, g, w) = (c1, g1, w1)"
    by (metis prod_cases3)
  have mem: "(n, a) \<in> set (rqc_quotacache c)"
    using Cons.prems(4) by (simp add: e)
  note eff = existing_step_effect [OF Cons.prems(1,2) mem step]
  have fresh: "n \<notin> fst ` set es"
    using Cons.prems(3) by (simp add: e mwf_Cons)
  have sub: "set es \<subseteq> set (rqc_quotacache c1)"
  proof
    fix p assume "p \<in> set es"
    with fresh Cons.prems(4) show "p \<in> set (rqc_quotacache c1)"
      using eff(5) [of "fst p" "snd p"] by (force simp: e)
  qed
  have "cache_ok c' \<and> groups_ok g' \<and>
    usage c' = (\<lambda>m. if m \<in> fst ` set es then map_option map_of (map_of g1 m) else usage c1 m) \<and>
    map_of g' = (\<lambda>m. if m \<in> fst ` set es then None else map_of g1 m)"
    using Cons.prems(3,5) step sub
    by (intro Cons.IH [OF eff(1,2)]) (simp_all add: e mwf_Cons)
  then show ?case
    using fresh by (auto simp: e eff(3,4) fun_eq_iff)
qed

text \<open>The third loop.\<close>

lemma new_fold_effect:
  assumes "cache_ok c" and "groups_ok g"
  shows "cache_ok (fold new_step g c) \<and>
    usage (fold new_step g c) = (\<lambda>n. case map_of g n of None \<Rightarrow> usage c n | Some qs \<Rightarrow> Some (map_of qs))"
  using assms
proof (induction g arbitrary: c)
  case Nil
  then show ?case by simp
next
  case (Cons e g)
  obtain n qs where e: "e = (n, qs)"
    by fastforce
  have ok: "cache_ok (new_step (n, qs) c)" "groups_ok g" "mwf qs" "n \<notin> fst ` set g"
    using Cons.prems by (auto simp: e new_step_eq cache_ok_bind_new gomap_simps groups_ok_def)
  have none: "map_of g n = None"
    using ok(4) by (simp add: map_of_eq_None_iff)
  have "usage (new_step (n, qs) c) = (usage c)(n \<mapsto> map_of qs)"
    using ok(3) by (simp add: usage_def view_bind_new [OF Cons.prems(1)] new_step_eq gomap_simps fun_eq_iff)
  then show ?case
    using Cons.IH [OF ok(1,2)] none by (auto simp: e fun_eq_iff split: option.split)
qed

lemma Sync_effect:
  assumes "cache_ok c" and "Sync now qs c w = (c', w')"
  shows "cache_ok c'" and "usage c' = listed (fst (now w)) qs"
proof -
  let ?g = "group_quotas (fst (now w)) qs"
  obtain c1 g1 where fold: "fold (existing_step now) (rqc_quotacache c) (c, ?g, snd (now w)) = (c1, g1, w')"
    and c': "c' = fold new_step g1 c1"
    using assms(2) by (auto simp: Sync_def split: prod.splits)
  have e1: "cache_ok c1 \<and> groups_ok g1 \<and>
    usage c1 = (\<lambda>n. if n \<in> fst ` set (rqc_quotacache c) then map_option map_of (map_of ?g n) else usage c n) \<and>
    map_of g1 = (\<lambda>n. if n \<in> fst ` set (rqc_quotacache c) then None else map_of ?g n)"
    using assms(1) by (intro existing_fold_effect [OF _ group_quotas_ok _ _ fold]) (auto simp: cache_ok_def)
  then have e2: "cache_ok c' \<and>
    usage c' = (\<lambda>n. case map_of g1 n of None \<Rightarrow> usage c1 n | Some qs \<Rightarrow> Some (map_of qs))"
    unfolding c' by (intro new_fold_effect) auto
  then show "cache_ok c'"
    by blast
  have none: "usage c n = None" if "n \<notin> fst ` set (rqc_quotacache c)" for n
    using that by (simp add: usage_def view_def map_of_eq_None_iff)
  show "usage c' = listed (fst (now w)) qs"
    using e1 e2 none by (auto simp: fun_eq_iff simp flip: group_quotas_listed split: option.split)
qed

subsection \<open>The interface of the webhook\<close>

text \<open>
  What a request relies on: \<open>GetOrCreate\<close> gives the object of its name, made empty if there was
  none, without touching another name; a write to that object replaces the map of that name alone.
\<close>

definition contents :: "quotas option \<Rightarrow> quotas" where
  "contents v = (case v of None \<Rightarrow> [] | Some qs \<Rightarrow> qs)"

lemma contents_simps [simp]: "contents None = []" "contents (Some qs) = qs"
  by (simp_all add: contents_def)

locale usage_store =
  fixes goc :: "string \<Rightarrow> 'c \<Rightarrow> 'a \<times> 'c"
    and rd :: "'a \<Rightarrow> 'c \<Rightarrow> quotas"
    and wr :: "'a \<Rightarrow> quotas \<Rightarrow> 'c \<Rightarrow> 'c"
    and vw :: "'c \<Rightarrow> string \<Rightarrow> quotas option"
    and ok :: "'c \<Rightarrow> bool"
  assumes goc_ok: "ok c \<Longrightarrow> goc n c = (a, c') \<Longrightarrow> ok c'"
    and goc_view: "ok c \<Longrightarrow> goc n c = (a, c') \<Longrightarrow> vw c' = (vw c)(n \<mapsto> contents (vw c n))"
    and goc_read: "ok c \<Longrightarrow> goc n c = (a, c') \<Longrightarrow> rd a c' = contents (vw c n)"
    and goc_again: "ok c \<Longrightarrow> goc n c = (a, c') \<Longrightarrow> goc n c' = (a, c')"
    and view_wf: "ok c \<Longrightarrow> vw c n = Some qs \<Longrightarrow> mwf qs"
    and wr_ok: "ok c \<Longrightarrow> mwf qs \<Longrightarrow> ok (wr a qs c)"
    and wr_view: "ok c \<Longrightarrow> goc n c = (a, c) \<Longrightarrow> vw (wr a qs c) = (vw c)(n \<mapsto> qs)"
begin

lemma contents_wf: "ok c \<Longrightarrow> mwf (contents (vw c n))"
  using view_wf by (cases "vw c n") auto

lemma locked_update:
  assumes "ok c" and "goc n c = (a, c1)" and "mwf qs"
  shows "ok (wr a qs c1)" and "vw (wr a qs c1) = (vw c)(n \<mapsto> qs)"
proof -
  have "ok c1" and "goc n c1 = (a, c1)"
    using assms goc_ok goc_again by blast+
  then show "ok (wr a qs c1)" and "vw (wr a qs c1) = (vw c)(n \<mapsto> qs)"
    using assms(3) by (simp_all add: wr_ok wr_view goc_view [OF assms(1,2)])
qed

lemma locked_unchanged:
  assumes "ok c" and "goc n c = (a, c1)"
  shows "vw (wr a (rd a c1) c1) = vw c1"
proof -
  have "ok c1" and "goc n c1 = (a, c1)"
    using assms goc_ok goc_again by blast+
  then show ?thesis
    by (simp add: wr_view goc_view [OF assms] goc_read [OF assms])
qed

end

lemma GetOrCreate_lookup:
  assumes "GetOrCreate n c = (a, c')"
  shows "map_of (rqc_quotacache c') n = Some a"
  using assms by (auto simp: GetOrCreate_eq bind_new_def gomap_simps split: option.splits)

lemma view_lookup: "map_of (rqc_quotacache c) n = Some a \<Longrightarrow> view c n = Some (read_quotas a c)"
  by (simp add: view_def)

interpretation cache: usage_store GetOrCreate read_quotas write_quotas view cache_ok
proof unfold_locales
  fix c c' n a qs
  show "cache_ok c'" if "cache_ok c" "GetOrCreate n c = (a, c')"
    using that by (auto simp: GetOrCreate_eq cache_ok_bind_new split: option.splits)
  show view': "view c' = (view c)(n \<mapsto> contents (view c n))"
    if "cache_ok c" "GetOrCreate n c = (a, c')"
  proof (cases "map_of (rqc_quotacache c) n")
    case None
    then have "c' = bind_new n [] c" and "view c n = None"
      using that by (auto simp: GetOrCreate_eq view_def)
    then show ?thesis
      using that by (simp add: view_bind_new)
  next
    case (Some b)
    then have "c' = c"
      using that by (auto simp: GetOrCreate_eq)
    then show ?thesis
      using view_lookup [OF Some] by (simp add: fun_eq_iff)
  qed
  show "read_quotas a c' = contents (view c n)" if "cache_ok c" "GetOrCreate n c = (a, c')"
    using view' [OF that] view_lookup [OF GetOrCreate_lookup [OF that(2)]] by simp
  show "GetOrCreate n c' = (a, c')" if "cache_ok c" "GetOrCreate n c = (a, c')"
    using GetOrCreate_lookup [OF that(2)] by (simp add: GetOrCreate_def)
  show "mwf qs" if "cache_ok c" "view c n = Some qs"
    using that cache_okD(2) by (auto simp: view_def)
  show "cache_ok (write_quotas a qs c)" if "cache_ok c" "mwf qs"
    using that by (rule cache_ok_write)
  show "view (write_quotas a qs c) = (view c)(n \<mapsto> qs)"
    if "cache_ok c" "GetOrCreate n c = (a, c)"
    using view_write [OF that(1) GetOrCreate_lookup [OF that(2)]] .
qed

lemma OnLock_eq:
  "fn (read_quotas a c) w = (r, qs, w') \<Longrightarrow> OnLock a fn c w = (r, write_quotas a qs c, w')"
  by (simp add: OnLock_def)

subsection \<open>The loop\<close>

lemma SyncOnce_ok:
  assumes "cache_ok c" and "SyncOnce C c w = (r, c', w')"
  shows "cache_ok c'"
  using assms by (auto simp: SyncOnce_def dest: Sync_effect(1) split: sum.splits prod.splits)

lemma Start_ok:
  "cache_ok c \<Longrightarrow> CacheSyner_Start C es c w = (r, c', w') \<Longrightarrow> cache_ok c'"
  by (induction C es c w rule: CacheSyner_Start.induct)
    (auto dest: SyncOnce_ok split: prod.splits)

lemma Start_append:
  "CacheSyner_Start C es c w = (Waiting, c', w') \<Longrightarrow>
   CacheSyner_Start C (es @ es') c w = CacheSyner_Start C es' c' w'"
  by (induction C es c w rule: CacheSyner_Start.induct) (auto split: prod.splits)

lemma Start_waits:
  "Done \<notin> set es \<Longrightarrow> \<exists>c' w'. CacheSyner_Start C es c w = (Waiting, c', w')"
  by (induction C es c w rule: CacheSyner_Start.induct) (auto split: prod.splits)

subsection \<open>Properties\<close>

text \<open>
  C11. After \<open>Sync\<close> the cache holds exactly what was listed: an entry for every
  ClusterResourceQuota that some listed ResourceQuota is labelled with, in it exactly the
  namespaces of those quotas, each with the usage of the last one listed, stamped with the time the
  sync began. It depends neither on the order in which the maps are iterated, nor on what the cache
  held before, nor on the time stamps. No name shares its object with another.
\<close>
theorem sync_installs_listing:
  assumes "cache_ok c" and "Sync now qs c w = (c', w')"
  shows "usage c' = listed (fst (now w)) qs \<and> cache_ok c'"
  using Sync_effect [OF assms] by blast

definition tick_clock :: "int \<Rightarrow> time \<times> int" where
  "tick_clock w = (w, w + 1)"

definition demo_quota :: "string \<Rightarrow> string \<Rightarrow> int \<Rightarrow> resource_quota" where
  "demo_quota owner ns cpu = empty_resource_quota
     \<lparr>rq_ObjectMeta := empty_object_meta\<lparr>om_Name := ''default'', om_Namespace := ns,
        om_Labels := Some [(LabelClusterResourceQuota, owner)]\<rparr>,
      rq_Status := \<lparr>rqst_Hard = [], rqst_Used = [(''cpu'', Quantity cpu)]\<rparr>\<rparr>"

definition demo_cache :: resource_quota_cache where
  "demo_cache = \<lparr>rqc_quotacache = [(''team'', 0)],
     rqc_heap = [[(''ns1'', \<lparr>rui_Hard = [], rui_Used = [(''cpu'', Quantity 7)], rui_LastUpdate = 100\<rparr>)]]\<rparr>"

definition demo_synced :: resource_quota_cache where
  "demo_synced = fst (Sync tick_clock [demo_quota ''team'' ''ns1'' 3] demo_cache 101)"

lemma demo_cache_ok: "cache_ok demo_cache"
  by (simp add: cache_ok_def demo_cache_def mwf_def)

lemma demo_Sync: "Sync tick_clock [demo_quota ''team'' ''ns1'' 3] demo_cache 101 = (demo_synced, 103)"
  by (simp add: demo_synced_def) code_simp

theorem sync_installs_listing_witness:
  "usage demo_synced = listed 101 [demo_quota ''team'' ''ns1'' 3] \<and> cache_ok demo_synced"
  using sync_installs_listing [OF demo_cache_ok demo_Sync] by (simp add: tick_clock_def)

text \<open>
  The ten-second rule of \<open>Sync\<close> protects nothing. A usage that the webhook has just recorded
  (its time stamp is less than ten seconds old whenever the clock is read) is replaced by the listed
  usage all the same: the \<open>continue\<close> leaves the entry in \<open>updatedQuotas\<close>, and the final
  \<open>maps.Copy\<close> writes it.
\<close>
lemma sync_overwrites_recent_usage:
  assumes "cache_ok c" and "Sync now qs c w = (c', w')"
    and "usage c n = Some us" and "us ns = Some recent"
    and "\<forall>v. fst (now v) < rui_LastUpdate recent + 10 * second"
    and "listed (fst (now w)) qs n = Some vs" and "vs ns = Some stale"
  shows "\<exists>us'. usage c' n = Some us' \<and> us' ns = Some stale"
  using Sync_effect [OF assms(1,2)] assms(6,7) by simp

definition still_clock :: "int \<Rightarrow> time \<times> int" where
  "still_clock w = (100, w)"

lemma sync_overwrites_recent_usage_example:
  "\<exists>us. usage (fst (Sync still_clock [demo_quota ''team'' ''ns1'' 3] demo_cache 0)) ''team'' = Some us \<and>
    us ''ns1'' = Some \<lparr>rui_Hard = [], rui_Used = [(''cpu'', Quantity 3)], rui_LastUpdate = 100\<rparr>"
proof (rule sync_overwrites_recent_usage [OF demo_cache_ok prod.collapse [symmetric]])
  show "usage demo_cache ''team'' = Some (map_of (rqc_heap demo_cache ! 0))"
    by (simp add: usage_def view_def demo_cache_def read_quotas_def)
  show "map_of (rqc_heap demo_cache ! 0) ''ns1'' =
      Some \<lparr>rui_Hard = [], rui_Used = [(''cpu'', Quantity 7)], rui_LastUpdate = 100\<rparr>"
    by (simp add: demo_cache_def)
  show "\<forall>v. fst (still_clock v) < rui_LastUpdate
      \<lparr>rui_Hard = [], rui_Used = [(''cpu'', Quantity 7)], rui_LastUpdate = 100\<rparr> + 10 * second"
    by (simp add: still_clock_def second_def)
  show "listed (fst (still_clock 0)) [demo_quota ''team'' ''ns1'' 3] ''team'' =
      Some (\<lambda>ns. map_option (usage_info 100) (find (\<lambda>rq. managed_by (rq_Labels rq) = ''team'' \<and>
        rq_Namespace rq = ns) (rev [demo_quota ''team'' ''ns1'' 3])))"
    by (simp add: listed_def demo_quota_def still_clock_def mstr_def)
  show "map_option (usage_info 100) (find (\<lambda>rq. managed_by (rq_Labels rq) = ''team'' \<and>
      rq_Namespace rq = ''ns1'') (rev [demo_quota ''team'' ''ns1'' 3])) =
      Some \<lparr>rui_Hard = [], rui_Used = [(''cpu'', Quantity 3)], rui_LastUpdate = 100\<rparr>"
    by (simp add: demo_quota_def mstr_def usage_info_def)
qed

text \<open>
  \<open>GetOrCreate\<close> gives one object per name: it returns the object the name has, or a new empty
  one; a second call returns the same object and changes nothing; every other name keeps its
  contents; and what a request writes to the object under its lock is what the name then holds.
\<close>
lemma get_or_create_shares_one_object:
  assumes "cache_ok c" and "GetOrCreate n c = (a, c1)" and "fn (read_quotas a c1) w = (r, qs, w')" and "mwf qs"
  shows "read_quotas a c1 = contents (view c n) \<and> GetOrCreate n c1 = (a, c1) \<and>
    view c1 = (view c)(n \<mapsto> contents (view c n)) \<and>
    (case OnLock a fn c1 w of (r', c2, w2) \<Rightarrow>
      r' = r \<and> w2 = w' \<and> cache_ok c2 \<and> view c2 = (view c)(n \<mapsto> qs) \<and> GetOrCreate n c2 = (a, c2))"
  using cache.goc_read [OF assms(1,2)] cache.goc_again [OF assms(1,2)] cache.goc_view [OF assms(1,2)]
    cache.locked_update [OF assms(1,2,4)] OnLock_eq [of fn a c1, OF assms(3)] GetOrCreate_lookup [OF assms(2)]
  by (simp add: GetOrCreate_def [of n "write_quotas a qs c1"] cache_simps)

text \<open>
  C25. The background loop never ends by itself: as long as \<open>ctx.Done()\<close> has not fired it is waiting for the
  next event, however many of its ticks have failed. A tick whose \<open>List\<close> fails leaves the cache as it
  is, and the loop goes on with the events that follow; a tick whose \<open>List\<close> succeeds makes the
  cache exactly that listing, whatever happened before; and at \<open>ctx.Done()\<close> the loop returns at once,
  ignoring what follows.
\<close>
theorem cache_loop_converges:
  assumes "cache_ok c" and "Done \<notin> set before"
  shows "\<exists>c1 w1. CacheSyner_Start C before c w = (Waiting, c1, w1) \<and> cache_ok c1 \<and>
    (\<forall>err w2. List_rq C w1 = (Inl err, w2) \<longrightarrow>
      CacheSyner_Start C (before @ Tick # after) c w = CacheSyner_Start C after c1 w2) \<and>
    (\<forall>items w2. List_rq C w1 = (Inr items, w2) \<longrightarrow>
      (\<exists>c2 w3. CacheSyner_Start C (before @ [Tick]) c w = (Waiting, c2, w3) \<and> cache_ok c2 \<and>
        usage c2 = listed (fst (time_Now C w2)) items \<and>
        CacheSyner_Start C (before @ Tick # Done # after) c w = (Returned, c2, w3)))"
proof -
  obtain c1 w1 where run: "CacheSyner_Start C before c w = (Waiting, c1, w1)"
    using Start_waits [OF assms(2), of C c w] by blast
  have ok: "cache_ok c1"
    using Start_ok [OF assms(1) run] .
  have "\<exists>c2 w3. CacheSyner_Start C (before @ [Tick]) c w = (Waiting, c2, w3) \<and> cache_ok c2 \<and>
      usage c2 = listed (fst (time_Now C w2)) items \<and>
      CacheSyner_Start C (before @ Tick # Done # after) c w = (Returned, c2, w3)"
    if list: "List_rq C w1 = (Inr items, w2)" for items w2
  proof -
    obtain c2 w3 where "Sync (time_Now C) items c1 w2 = (c2, w3)"
      by fastforce
    then show ?thesis
      using Sync_effect [OF ok, of "time_Now C" items w2] list by (simp add: Start_append [OF run] SyncOnce_def)
  qed
  then show ?thesis
    using run ok by (auto simp: Start_append [OF run] SyncOnce_def)
qed

definition demo_world :: mem_world where
  "demo_world = \<lparr>mw_crqs = [], mw_rqs = [((''ns1'', ''default''), demo_quota ''team'' ''ns1'' 3)],
     mw_nss = [], mw_clock = 500\<rparr>"

text \<open>A server whose first \<open>List\<close> fails.\<close>

definition flaky_client :: "(mem_world, ref_error) kube_client" where
  "flaky_client = mem_client\<lparr>List_rq := (\<lambda>w.
     if mw_clock w = 500 then (Inl (RStatus 500 ''list''), w\<lparr>mw_clock := 501\<rparr>) else (Inr (mem_list w), w))\<rparr>"

theorem cache_loop_converges_witness:
  "\<exists>c2 w3. CacheSyner_Start flaky_client ([Tick] @ Tick # Done # [Tick]) NewResourceQuotaCache demo_world =
      (Returned, c2, w3) \<and> usage c2 = listed 501 [demo_quota ''team'' ''ns1'' 3]"
proof -
  let ?w = "demo_world\<lparr>mw_clock := 501\<rparr>"
  have first: "CacheSyner_Start flaky_client [Tick] NewResourceQuotaCache demo_world = (Waiting, NewResourceQuotaCache, ?w)"
    by (simp add: SyncOnce_def flaky_client_def demo_world_def)
  have list: "List_rq flaky_client ?w = (Inr [demo_quota ''team'' ''ns1'' 3], ?w)"
    by (simp add: flaky_client_def demo_world_def mem_list_def mem_shown_def demo_quota_def)
  have now: "fst (time_Now flaky_client ?w) = 501"
    by (simp add: flaky_client_def mem_client_def)
  have "Done \<notin> set [Tick]"
    by simp
  from cache_loop_converges [OF cache_ok_New this, of flaky_client demo_world "[Tick]"] show ?thesis
    using list now unfolding first by (metis prod.inject)
qed

end
