(* ===== verification/Status_Admission.thy ===== *)
theory Status_Admission
  imports Admission Quota_Cache
begin

section \<open>The status webhook (\<open>clusterresourcequota-statusadmission.go\<close>)\<close>

text \<open>
  Every write to the status of a ResourceQuota passes this handler. It adds up the usage that the
  cache holds for all namespaces of the ClusterResourceQuota, replaces the share of the namespace at
  hand by the requested one, compares the total with the hard limits and, if it fits, writes the
  total to the status of the ClusterResourceQuota and then to the cache. The state of the handler is
  the cache together with the world.
\<close>

subsection \<open>What the handler is built from\<close>

record backoff =
  bo_Duration :: time
  bo_Steps :: nat

text \<open>
  \<open>ResourceQuotaStatusAdmission\<close>: its decoder and client, and the libraries it calls. The factor
  and the jitter of the backoff only stretch the pauses of \<open>retry.RetryOnConflict\<close>.
\<close>

record ('raw, 'w, 'e) status_admission =
  sa_Decode :: "'raw adm_request \<Rightarrow> 'e + resource_quota"
  sa_Client :: "('w, 'e) kube_client"
  sa_Errors :: "'e err_lib"
  sa_Quota :: quota_lib
  sa_String :: "quantity \<Rightarrow> string"
  sa_RetryOnConflict :: "backoff \<Rightarrow>
    (resource_quota_cache \<times> 'w \<Rightarrow> 'e option \<times> resource_quota_cache \<times> 'w) \<Rightarrow>
    resource_quota_cache \<times> 'w \<Rightarrow> 'e option \<times> resource_quota_cache \<times> 'w"

text \<open>
  \<open>RetryOnConflict\<close> runs the function, and as long as it reports a conflict and steps are left,
  sleeps and runs it again; it returns what the last run returned. As a law: if a property of the
  state survives a conflicting run and a pause, then the result is that of one run from a state with
  the property. A pause leaves the cache of this thread alone.
\<close>

locale retrier =
  fixes retry :: "backoff \<Rightarrow> ('c \<times> 'w \<Rightarrow> 'e option \<times> 'c \<times> 'w) \<Rightarrow> 'c \<times> 'w \<Rightarrow> 'e option \<times> 'c \<times> 'w"
    and IsConflict :: "'e \<Rightarrow> bool"
  assumes last_run: "0 < bo_Steps b \<Longrightarrow> I s \<Longrightarrow>
      (\<And>c w e c' w' w''. I (c, w) \<Longrightarrow> fn (c, w) = (Some e, c', w') \<Longrightarrow> IsConflict e \<Longrightarrow> I (c', w'')) \<Longrightarrow>
      \<exists>s0. I s0 \<and> retry b fn s = fn s0"
    and first_run: "0 < bo_Steps b \<Longrightarrow> fn s = (r, s') \<Longrightarrow>
      (case r of None \<Rightarrow> True | Some e \<Rightarrow> \<not> IsConflict e) \<Longrightarrow> retry b fn s = (r, s')"

fun ref_attempts :: "('e \<Rightarrow> bool) \<Rightarrow> nat \<Rightarrow> ('c \<times> 'w \<Rightarrow> 'e option \<times> 'c \<times> 'w) \<Rightarrow> 'c \<times> 'w \<Rightarrow>
    'e option \<times> 'c \<times> 'w" where
  "ref_attempts conflict 0 fn s = (None, s)"
| "ref_attempts conflict (Suc n) fn s =
    (case fn s of
      (Some e, s') \<Rightarrow> if conflict e \<and> 0 < n then ref_attempts conflict n fn s' else (Some e, s')
    | (None, s') \<Rightarrow> (None, s'))"

definition ref_RetryOnConflict ::
  "backoff \<Rightarrow> ('c \<times> 'w \<Rightarrow> ref_error option \<times> 'c \<times> 'w) \<Rightarrow> 'c \<times> 'w \<Rightarrow> ref_error option \<times> 'c \<times> 'w" where
  "ref_RetryOnConflict b fn s = ref_attempts (IsConflict ref_errs) (bo_Steps b) fn s"

lemma ref_attempts_last_run:
  assumes "0 < n" and "I s"
    and "\<And>c w e c' w' w''. I (c, w) \<Longrightarrow> fn (c, w) = (Some e, c', w') \<Longrightarrow> conflict e \<Longrightarrow> I (c', w'')"
  shows "\<exists>s0. I s0 \<and> ref_attempts conflict n fn s = fn s0"
  using assms
proof (induction n arbitrary: s)
  case (Suc n)
  obtain c w where s: "s = (c, w)"
    by fastforce
  show ?case
  proof (cases "\<exists>e c' w'. fn s = (Some e, c', w') \<and> conflict e \<and> 0 < n")
    case True
    then obtain e c' w' where run: "fn s = (Some e, c', w')" "conflict e" "0 < n"
      by blast
    then have "I (c', w')"
      using Suc.prems(2,3) by (simp add: s)
    then show ?thesis
      using Suc.IH [OF run(3) _ Suc.prems(3)] run by simp
  next
    case False
    then have "ref_attempts conflict (Suc n) fn s = fn s"
      by (auto split: prod.split option.split)
    then show ?thesis
      using Suc.prems(2) by blast
  qed
qed simp

interpretation ref_retry: retrier ref_RetryOnConflict "IsConflict ref_errs"
proof unfold_locales
  fix b :: backoff and I and s :: "'c \<times> 'w" and fn :: "'c \<times> 'w \<Rightarrow> ref_error option \<times> 'c \<times> 'w"
  assume "0 < bo_Steps b" and "I s"
    and "\<And>c w e c' w' w''. I (c, w) \<Longrightarrow> fn (c, w) = (Some e, c', w') \<Longrightarrow> IsConflict ref_errs e \<Longrightarrow> I (c', w'')"
  then show "\<exists>s0. I s0 \<and> ref_RetryOnConflict b fn s = fn s0"
    unfolding ref_RetryOnConflict_def by (rule ref_attempts_last_run)
next
  fix b :: backoff and fn :: "'c \<times> 'w \<Rightarrow> ref_error option \<times> 'c \<times> 'w" and s s' and r
  assume "0 < bo_Steps b" and "fn s = (r, s')" and "case r of None \<Rightarrow> True | Some e \<Rightarrow> \<not> IsConflict ref_errs e"
  then show "ref_RetryOnConflict b fn s = (r, s')"
    by (cases "bo_Steps b") (auto simp: ref_RetryOnConflict_def split: option.splits)
qed

subsection \<open>Helpers\<close>

text \<open>The argument is a pointer, which may be nil.\<close>

definition isResourceQuotaAdmissionControllerServiceAccount :: "user_info option \<Rightarrow> bool" where
  "isResourceQuotaAdmissionControllerServiceAccount user =
    (case user of
      None \<Rightarrow> True
    | Some u \<Rightarrow> ui_Username u = ''kubernetes-admin'' \<or> ''system:masters'' \<in> set (ui_Groups u))"

text \<open>\<open>slices.IndexFunc\<close>.\<close>

fun IndexFunc_from :: "int \<Rightarrow> 'a list \<Rightarrow> ('a \<Rightarrow> bool) \<Rightarrow> int" where
  "IndexFunc_from i [] f = - 1"
| "IndexFunc_from i (x # xs) f = (if f x then i else IndexFunc_from (i + 1) xs f)"

definition IndexFunc :: "'a list \<Rightarrow> ('a \<Rightarrow> bool) \<Rightarrow> int" where
  "IndexFunc xs f = IndexFunc_from 0 xs f"

definition updateClusterResourceQuotaStatusUsed ::
  "cluster_resource_quota \<Rightarrow> resource_quota \<Rightarrow> resource_list \<Rightarrow> cluster_resource_quota" where
  "updateClusterResourceQuotaStatusUsed crq rq newtotal =
    (let crq = set_crq_Used newtotal crq;
         nss = crq_Status_Namespaces crq;
         i = IndexFunc nss (\<lambda>n. nrq_Name n = rq_Namespace rq) in
     if i = - 1 then
       set_crq_Namespaces (nss @ [\<lparr>nrq_Name = rq_Namespace rq, nrq_Used = rq_Status_Used rq\<rparr>]) crq
     else
       set_crq_Namespaces (nss[nat i := (nss ! nat i)\<lparr>nrq_Used := rq_Status_Used rq\<rparr>]) crq)"

text \<open>\<open>strings.Join\<close>, and \<open>prettyPrint\<close>: one \<open>key=value\<close> per resource, in the order of the keys.\<close>

fun Join :: "string list \<Rightarrow> string \<Rightarrow> string" where
  "Join [] sep = []"
| "Join [x] sep = x"
| "Join (x # y # xs) sep = x @ sep @ Join (y # xs) sep"

definition prettyPrint :: "(quantity \<Rightarrow> string) \<Rightarrow> resource_list \<Rightarrow> string" where
  "prettyPrint quantity_String item =
    (let keys = sort (map fst item);
         parts = map (\<lambda>key. key @ ''='' @ quantity_String (rval item key)) keys in
     Join parts '','')"

subsection \<open>The check\<close>

text \<open>The loop over \<open>cache.Quotas\<close>.\<close>

definition old_total :: "quota_lib \<Rightarrow> quotas \<Rightarrow> resource_list" where
  "old_total Q qs = fold (\<lambda>entry oldtotal. qAdd Q oldtotal (rui_Used (snd entry))) qs []"

text \<open>
  The closure that \<open>validate\<close> runs under the lock, up to its last statement: it ends with what it returns,
  or with the entry it is about to store.
\<close>

definition validate_check ::
  "('raw, 'w, 'e) status_admission \<Rightarrow> resource_quota \<Rightarrow> string \<Rightarrow> bool \<Rightarrow> quotas \<Rightarrow> 'w \<Rightarrow>
   ('e option + resource_usage_info) \<times> 'w" where
  "validate_check A rq clusterresourcequotaname skipvalidation qs w =
    (case Get_crq (sa_Client A) clusterresourcequotaname w of
      (Inl err, w1) \<Rightarrow> if IsNotFound (sa_Errors A) err then (Inl None, w1) else (Inl (Some err), w1)
    | (Inr crq, w1) \<Rightarrow>
        let Q = sa_Quota A;
            oldtotal = old_total Q qs;
            oldusage = (case map_of qs (rq_Namespace rq) of Some u \<Rightarrow> rui_Used u | None \<Rightarrow> []);
            delta = qSubtract Q (rq_Status_Used rq) oldusage;
            newtotal = qAdd Q oldtotal delta;
            ok = fst (qLessThanOrEqual Q newtotal (crq_Status_Hard crq));
            exceeded = snd (qLessThanOrEqual Q newtotal (crq_Status_Hard crq)) in
        if \<not> skipvalidation \<and> \<not> ok then
          (Inl (Some (NewForbidden (sa_Errors A) (Errorf (sa_Errors A)
             ''exceeded cluster quota: %s, requested: %s, used: %s, limited: %s''
             [FStr (crq_Name crq),
              FStr (prettyPrint (sa_String A) (qMask Q delta exceeded)),
              FStr (prettyPrint (sa_String A) (qMask Q oldtotal exceeded)),
              FStr (prettyPrint (sa_String A) (qMask Q (crq_Status_Hard crq) exceeded))]))), w1)
        else
          (case Status_Update (sa_Client A) (updateClusterResourceQuotaStatusUsed crq rq newtotal) w1 of
            (Some err, w2) \<Rightarrow> (Inl (Some err), w2)
          | (None, w2) \<Rightarrow>
              (case time_Now (sa_Client A) w2 of (t, w3) \<Rightarrow>
                (Inr \<lparr>rui_Hard = [], rui_Used = rq_Status_Used rq, rui_LastUpdate = t\<rparr>, w3))))"

text \<open>The last statement stores the entry, and the closure returns nil.\<close>

definition validate_locked ::
  "('raw, 'w, 'e) status_admission \<Rightarrow> resource_quota \<Rightarrow> string \<Rightarrow> bool \<Rightarrow> quotas \<Rightarrow> 'w \<Rightarrow>
   'e option \<times> quotas \<times> 'w" where
  "validate_locked A rq clusterresourcequotaname skipvalidation qs w =
    (case validate_check A rq clusterresourcequotaname skipvalidation qs w of
      (Inl r, w') \<Rightarrow> (r, qs, w')
    | (Inr entry, w') \<Rightarrow> (None, mput (rq_Namespace rq) entry qs, w'))"

definition validate ::
  "('raw, 'w, 'e) status_admission \<Rightarrow> resource_quota \<Rightarrow> string \<Rightarrow> bool \<Rightarrow> resource_quota_cache \<times> 'w \<Rightarrow>
   'e option \<times> resource_quota_cache \<times> 'w" where
  "validate A rq clusterresourcequotaname skipvalidation s =
    (case s of (c, w) \<Rightarrow>
      (case GetOrCreate clusterresourcequotaname c of (a, c1) \<Rightarrow>
        OnLock a (validate_locked A rq clusterresourcequotaname skipvalidation) c1 w))"

subsection \<open>The handler\<close>

definition status_backoff :: backoff where
  "status_backoff = \<lparr>bo_Duration = 100 * (second div 1000), bo_Steps = 5\<rparr>"

definition Status_Handle ::
  "('raw, 'w, 'e) status_admission \<Rightarrow> 'raw adm_request \<Rightarrow> resource_quota_cache \<times> 'w \<Rightarrow>
   'e response \<times> resource_quota_cache \<times> 'w" where
  "Status_Handle A req s =
    (let isWebhook = (\<not> isResourceQuotaAdmissionControllerServiceAccount (Some (ar_UserInfo req))) in
     case sa_Decode A req of
       Inl err \<Rightarrow> (Errored StatusBadRequest err, s)
     | Inr inst \<Rightarrow>
         (case rq_Labels inst of
           None \<Rightarrow> (Allowed ''Not managed by ClusterResourceQuota'', s)
         | Some ls \<Rightarrow>
             let clusterresourcequotaname = mstr ls LabelClusterResourceQuota in
             if clusterresourcequotaname = [] then (Allowed ''Not managed by ClusterResourceQuota'', s)
             else
               (case sa_RetryOnConflict A status_backoff
                   (validate A inst clusterresourcequotaname (\<not> isWebhook)) s of
                 (Some err, s') \<Rightarrow>
                   (Errored (if IsForbidden (sa_Errors A) err then StatusForbidden
                             else StatusInternalServerError) err, s')
               | (None, s') \<Rightarrow> (Allowed ''ResourceQuota status validated'', s'))))"

definition status_undecodable :: "('raw, 'w, 'e) status_admission \<Rightarrow> 'raw adm_request \<Rightarrow> bool" where
  "status_undecodable A req \<longleftrightarrow> isl (sa_Decode A req)"

interpretation status: admission_handler "Status_Handle A" "status_undecodable A" for A
proof unfold_locales
  fix r s c e s'
  show "\<exists>e. Status_Handle A r s = (Errored StatusBadRequest e, s)" if "status_undecodable A r"
    using that by (auto simp: Status_Handle_def status_undecodable_def isl_def)
  show "c \<in> {StatusBadRequest, StatusForbidden, StatusInternalServerError}"
    if "Status_Handle A r s = (Errored c e, s')"
    using that by (auto simp: Status_Handle_def Let_def
        split: if_splits sum.splits prod.splits option.splits)
qed

subsection \<open>The specification of the check\<close>

text \<open>
  For one resource: the sum over all namespaces the cache holds, the share of one namespace, and
  the total when the usage of that namespace is replaced. A resource that no usage names is not
  compared with its limit.
\<close>

definition quotas_total :: "quotas \<Rightarrow> string \<Rightarrow> quantity" where
  "quotas_total qs k = sum_list (map (\<lambda>e. rval (rui_Used (snd e)) k) qs)"

definition share :: "quotas \<Rightarrow> string \<Rightarrow> string \<Rightarrow> quantity" where
  "share qs ns k = (case map_of qs ns of None \<Rightarrow> 0 | Some u \<Rightarrow> rval (rui_Used u) k)"

definition total_after :: "quotas \<Rightarrow> resource_quota \<Rightarrow> string \<Rightarrow> quantity" where
  "total_after qs rq k = quotas_total qs k - share qs (rq_Namespace rq) k + rval (rq_Status_Used rq) k"

definition named :: "quotas \<Rightarrow> resource_quota \<Rightarrow> string \<Rightarrow> bool" where
  "named qs rq k \<longleftrightarrow> map_of (rq_Status_Used rq) k \<noteq> None \<or>
     (\<exists>e \<in> set qs. map_of (rui_Used (snd e)) k \<noteq> None)"

definition within :: "quotas \<Rightarrow> resource_quota \<Rightarrow> resource_list \<Rightarrow> bool" where
  "within qs rq hard \<longleftrightarrow>
     (\<forall>k h. map_of hard k = Some h \<longrightarrow> named qs rq k \<longrightarrow> total_after qs rq k \<le> h)"

definition new_total :: "quota_lib \<Rightarrow> quotas \<Rightarrow> resource_quota \<Rightarrow> resource_list" where
  "new_total Q qs rq = qAdd Q (old_total Q qs) (qSubtract Q (rq_Status_Used rq)
     (case map_of qs (rq_Namespace rq) of Some u \<Rightarrow> rui_Used u | None \<Rightarrow> []))"

lemma total_after_mput:
  assumes "mwf qs" and "rui_Used u = rq_Status_Used rq"
  shows "quotas_total (mput (rq_Namespace rq) u qs) k = total_after qs rq k"
  using assms by (simp add: quotas_total_def total_after_def share_def sum_list_mput split: option.split)

lemma quotas_total_perm: "mset qs = mset qs' \<Longrightarrow> quotas_total qs k = quotas_total qs' k"
proof -
  assume "mset qs = mset qs'"
  then have "mset (map f qs) = mset (map f qs')" for f :: "string \<times> resource_usage_info \<Rightarrow> quantity"
    by simp
  then show ?thesis
    unfolding quotas_total_def sum_mset_sum_list [symmetric] by (simp only:)
qed

context quota_arith
begin

lemma rval_old_total: "rval (old_total Q qs) k = quotas_total qs k"
  by (simp add: old_total_def quotas_total_def rval_fold_Add [of "\<lambda>e. rui_Used (snd e)"])

lemma rval_new_total: "rval (new_total Q qs rq) k = total_after qs rq k"
  by (auto simp: new_total_def total_after_def share_def rval_old_total split: option.split)

lemma new_total_named: "map_of (new_total Q qs rq) k \<noteq> None \<longleftrightarrow> named qs rq k"
proof -
  have "map_of (old_total Q qs) k = None \<longleftrightarrow> (\<forall>e \<in> set qs. map_of (rui_Used (snd e)) k = None)"
    using fold_Add_None_iff [of "\<lambda>e. rui_Used (snd e)" qs "[]" k] by (simp add: old_total_def)
  moreover have "map_of qs ns = Some u \<Longrightarrow> (ns, u) \<in> set qs" for ns u
    by (rule map_of_SomeD)
  ultimately show ?thesis
    by (force simp: new_total_def named_def Add_None_iff Subtract_None_iff split: option.split)
qed

lemma within_iff: "fst (qLessThanOrEqual Q (new_total Q qs rq) hard) \<longleftrightarrow> within qs rq hard"
proof -
  have "map_of (new_total Q qs rq) k = Some x \<longleftrightarrow> named qs rq k \<and> x = total_after qs rq k" for k x
    using new_total_named [of qs rq k] rval_new_total [of qs rq k]
    by (auto simp: rval_def split: option.splits)
  then show ?thesis
    unfolding LessThanOrEqual_iff within_def by (simp only:) blast
qed

end

subsection \<open>The effect of one check\<close>

text \<open>All the contracts the handler is used under.\<close>

locale status_env =
  api_server "sa_Client A" stored + quota_arith "sa_Quota A" + api_errors "sa_Errors A" +
  retrier "sa_RetryOnConflict A" "IsConflict (sa_Errors A)"
  for A :: "('raw, 'w, 'e) status_admission" and stored :: "'w \<Rightarrow> string \<Rightarrow> cluster_resource_quota option"

definition recorded :: "resource_quota \<Rightarrow> time \<Rightarrow> resource_usage_info" where
  "recorded rq t = \<lparr>rui_Hard = [], rui_Used = rq_Status_Used rq, rui_LastUpdate = t\<rparr>"

text \<open>The error of a refusal, which names the exceeded resources.\<close>

definition exceeded_error :: "('raw, 'w, 'e) status_admission \<Rightarrow> resource_quota \<Rightarrow> quotas \<Rightarrow>
    cluster_resource_quota \<Rightarrow> 'e" where
  "exceeded_error A rq qs crq = Errorf (sa_Errors A)
             ''exceeded cluster quota: %s, requested: %s, used: %s, limited: %s''
             (let Q = sa_Quota A;
                  exceeded = snd (qLessThanOrEqual Q (new_total Q qs rq) (crq_Status_Hard crq));
                  delta = qSubtract Q (rq_Status_Used rq)
                    (case map_of qs (rq_Namespace rq) of Some u \<Rightarrow> rui_Used u | None \<Rightarrow> []) in
             [FStr (crq_Name crq), FStr (prettyPrint (sa_String A) (qMask Q delta exceeded)),
              FStr (prettyPrint (sa_String A) (qMask Q (old_total Q qs) exceeded)),
              FStr (prettyPrint (sa_String A) (qMask Q (crq_Status_Hard crq) exceeded))])"

lemma validate_locked_eq:
  "validate_locked A rq n skip qs w =
    (case Get_crq (sa_Client A) n w of
      (Inl err, w1) \<Rightarrow> if IsNotFound (sa_Errors A) err then (None, qs, w1) else (Some err, qs, w1)
    | (Inr crq, w1) \<Rightarrow>
        if \<not> skip \<and> \<not> fst (qLessThanOrEqual (sa_Quota A) (new_total (sa_Quota A) qs rq) (crq_Status_Hard crq))
        then (Some (NewForbidden (sa_Errors A) (exceeded_error A rq qs crq)), qs, w1)
        else
          (case Status_Update (sa_Client A)
              (updateClusterResourceQuotaStatusUsed crq rq (new_total (sa_Quota A) qs rq)) w1 of
            (Some err, w2) \<Rightarrow> (Some err, qs, w2)
          | (None, w2) \<Rightarrow>
              (case time_Now (sa_Client A) w2 of (t, w3) \<Rightarrow>
                (None, mput (rq_Namespace rq) (recorded rq t) qs, w3))))"
  unfolding validate_locked_def validate_check_def new_total_def recorded_def exceeded_error_def Let_def
  by (auto split: prod.splits sum.splits if_splits option.splits)

lemma validate_eq:
  assumes "cache_ok c" and "validate A rq n skip (c, w) = (r, c', w')"
  obtains qs' where "validate_locked A rq n skip (contents (view c n)) w = (r, qs', w')"
    and "view c' = (view c)(n \<mapsto> qs')" and "cache_ok c'"
proof -
  obtain a c1 where goc: "GetOrCreate n c = (a, c1)"
    by fastforce
  obtain qs' where body: "validate_locked A rq n skip (read_quotas a c1) w = (r, qs', w')"
    and c': "c' = write_quotas a qs' c1"
    using assms(2) goc by (auto simp: validate_def OnLock_def split: prod.splits)
  have read: "read_quotas a c1 = contents (view c n)"
    using cache.goc_read [OF assms(1) goc] .
  have "mwf qs'"
    using body cache.contents_wf [OF assms(1), of n] unfolding read
    by (auto simp: validate_locked_eq gm_wf split: prod.splits sum.splits if_splits option.splits)
  with cache.locked_update [OF assms(1) goc] body read c' show ?thesis
    using that by auto
qed

lemma update_status_fields [simp]:
  "crq_ObjectMeta (updateClusterResourceQuotaStatusUsed crq rq t) = crq_ObjectMeta crq"
  "crq_Spec (updateClusterResourceQuotaStatusUsed crq rq t) = crq_Spec crq"
  "crq_Status_Used (updateClusterResourceQuotaStatusUsed crq rq t) = t"
  "crq_Status_Hard (updateClusterResourceQuotaStatusUsed crq rq t) = crq_Status_Hard crq"
  by (simp_all add: updateClusterResourceQuotaStatusUsed_def Let_def)

subsubsection \<open>The entry of a namespace in the status\<close>

text \<open>The search and the assignment as one recursion.\<close>

fun upsert :: "string \<Rightarrow> resource_list \<Rightarrow> namespace_resource_quota list \<Rightarrow> namespace_resource_quota list" where
  "upsert ns u [] = [\<lparr>nrq_Name = ns, nrq_Used = u\<rparr>]"
| "upsert ns u (x # xs) = (if nrq_Name x = ns then x\<lparr>nrq_Used := u\<rparr> # xs else x # upsert ns u xs)"

lemma IndexFunc_from_cases:
  "IndexFunc_from i xs f =
    (if \<exists>x \<in> set xs. f x then i + int (length (takeWhile (\<lambda>x. \<not> f x) xs)) else - 1)"
  by (induction xs arbitrary: i) auto

lemma upsert_none: "\<forall>x \<in> set xs. nrq_Name x \<noteq> ns \<Longrightarrow> upsert ns u xs = xs @ [\<lparr>nrq_Name = ns, nrq_Used = u\<rparr>]"
  by (induction xs) auto

lemma upsert_some:
  "\<exists>x \<in> set xs. nrq_Name x = ns \<Longrightarrow>
   (let i = length (takeWhile (\<lambda>x. nrq_Name x \<noteq> ns) xs) in
    upsert ns u xs = xs[i := (xs ! i)\<lparr>nrq_Used := u\<rparr>])"
  by (induction xs) (auto simp: Let_def)

lemma update_status_Namespaces:
  "crq_Status_Namespaces (updateClusterResourceQuotaStatusUsed crq rq t) =
   upsert (rq_Namespace rq) (rq_Status_Used rq) (crq_Status_Namespaces crq)"
  using upsert_none [of "crq_Status_Namespaces crq"] upsert_some [of "crq_Status_Namespaces crq"]
  by (auto simp: updateClusterResourceQuotaStatusUsed_def IndexFunc_def IndexFunc_from_cases Let_def)

lemma upsert_names:
  "map nrq_Name (upsert ns u xs) =
   (if ns \<in> nrq_Name ` set xs then map nrq_Name xs else map nrq_Name xs @ [ns])"
  by (induction xs) auto

lemma find_upsert:
  "find (\<lambda>x. nrq_Name x = m) (upsert ns u xs) =
   (if m = ns then Some \<lparr>nrq_Name = ns, nrq_Used = u\<rparr> else find (\<lambda>x. nrq_Name x = m) xs)"
  by (induction xs) auto

subsubsection \<open>One run of the closure\<close>

lemma validate_locked_error:
  "validate_locked A rq n skip qs w = (Some e, qs', w') \<Longrightarrow> qs' = qs"
  by (auto simp: validate_locked_eq split: prod.splits sum.splits if_splits option.splits)

context status_env
begin

lemma locked_found:
  assumes "Get_crq (sa_Client A) n w = (Inr crq, w1)"
  shows "validate_locked A rq n skip qs w =
    (if \<not> skip \<and> \<not> within qs rq (crq_Status_Hard crq)
     then (Some (NewForbidden (sa_Errors A) (exceeded_error A rq qs crq)), qs, w1)
     else
      (case Status_Update (sa_Client A)
          (updateClusterResourceQuotaStatusUsed crq rq (new_total (sa_Quota A) qs rq)) w1 of
        (Some err, w2) \<Rightarrow> (Some err, qs, w2)
      | (None, w2) \<Rightarrow>
          (case time_Now (sa_Client A) w2 of (t, w3) \<Rightarrow>
            (None, mput (rq_Namespace rq) (recorded rq t) qs, w3))))"
  by (simp add: validate_locked_eq assms within_iff)

lemma locked_refused:
  assumes "Get_crq (sa_Client A) n w = (Inr crq, w1)" and "\<not> within qs rq (crq_Status_Hard crq)"
  shows "validate_locked A rq n False qs w =
    (Some (NewForbidden (sa_Errors A) (exceeded_error A rq qs crq)), qs, w1)"
  using assms by (simp add: locked_found)

lemma locked_ok:
  assumes "validate_locked A rq n skip qs w = (None, qs', w')"
  obtains (missing) err where "Get_crq (sa_Client A) n w = (Inl err, w')" and "IsNotFound (sa_Errors A) err"
      and "qs' = qs"
  | (found) crq w1 t where "Get_crq (sa_Client A) n w = (Inr crq, w1)"
      and "skip \<or> within qs rq (crq_Status_Hard crq)"
      and "qs' = mput (rq_Namespace rq) (recorded rq t) qs"
      and "\<exists>s. stored w' n = Some s \<and>
        crq_Status s = crq_Status (updateClusterResourceQuotaStatusUsed crq rq (new_total (sa_Quota A) qs rq))"
      and "\<And>m. m \<noteq> n \<Longrightarrow> stored w' m = stored w m"
proof (cases "Get_crq (sa_Client A) n w")
  case (Pair r w1)
  show ?thesis
  proof (cases r)
    case (Inl err)
    then show ?thesis
      using assms Pair missing by (auto simp: validate_locked_eq split: if_splits)
  next
    case (Inr crq)
    let ?crq = "updateClusterResourceQuotaStatusUsed crq rq (new_total (sa_Quota A) qs rq)"
    have get: "Get_crq (sa_Client A) n w = (Inr crq, w1)"
      using Pair Inr by simp
    obtain w2 t where ok: "skip \<or> within qs rq (crq_Status_Hard crq)"
      and upd: "Status_Update (sa_Client A) ?crq w1 = (None, w2)"
      and now: "time_Now (sa_Client A) w2 = (t, w')"
      and qs': "qs' = mput (rq_Namespace rq) (recorded rq t) qs"
      using assms unfolding locked_found [OF get] by (auto split: prod.splits if_splits option.splits)
    have same: "stored w' = stored w2"
      using now_stored [of w2] now by simp
    obtain s where "stored w2 (crq_Name ?crq) = Some s" and "crq_Status s = crq_Status ?crq"
      using upd by (rule update_Some)
    then have "\<exists>s. stored w' n = Some s \<and> crq_Status s = crq_Status ?crq"
      using get_Some [OF get] same by auto
    moreover have "stored w' m = stored w m" if "m \<noteq> n" for m
      using update_frame [OF upd, of m] that get_Some [OF get] same by simp
    ultimately show ?thesis
      using found [OF get ok qs'] by blast
  qed
qed

end

subsubsection \<open>The handler\<close>

abbreviation exempt :: "'raw adm_request \<Rightarrow> bool" where
  "exempt req \<equiv> isResourceQuotaAdmissionControllerServiceAccount (Some (ar_UserInfo req))"

text \<open>The handler by cases: undecodable, unmanaged, or decided by the retried check.\<close>

lemma Status_Handle_eq:
  "Status_Handle A req s =
    (case sa_Decode A req of
      Inl err \<Rightarrow> (Errored StatusBadRequest err, s)
    | Inr inst \<Rightarrow>
        if managed_by (rq_Labels inst) = [] then (Allowed ''Not managed by ClusterResourceQuota'', s)
        else
          (case sa_RetryOnConflict A status_backoff
              (validate A inst (managed_by (rq_Labels inst)) (exempt req)) s of
            (Some err, s') \<Rightarrow>
              (Errored (if IsForbidden (sa_Errors A) err then StatusForbidden
                        else StatusInternalServerError) err, s')
          | (None, s') \<Rightarrow> (Allowed ''ResourceQuota status validated'', s')))"
  by (simp add: Status_Handle_def Let_def split: sum.split option.split)

lemma backoff_steps: "0 < bo_Steps status_backoff"
  by (simp add: status_backoff_def)

context status_env
begin

text \<open>What every run of the check keeps of the cache, the handler keeps.\<close>

lemma Handle_invariant:
  assumes "P c" and "Status_Handle A req (c, w) = (resp, c', w')"
    and step: "\<And>inst c w r c' w'. sa_Decode A req = Inr inst \<Longrightarrow> P c \<Longrightarrow>
      validate A inst (managed_by (rq_Labels inst)) (exempt req) (c, w) = (r, c', w') \<Longrightarrow> P c'"
  shows "P c'"
proof (cases "\<exists>inst. sa_Decode A req = Inr inst \<and> managed_by (rq_Labels inst) \<noteq> []")
  case True
  then obtain inst where inst: "sa_Decode A req = Inr inst" "managed_by (rq_Labels inst) \<noteq> []"
    by blast
  let ?fn = "validate A inst (managed_by (rq_Labels inst)) (exempt req)"
  have keep: "P (fst (snd (?fn (d, v))))" if "P d" for d v
    using step [OF inst(1) that, of v] by (metis prod.collapse)
  have "\<exists>s0. P (fst s0) \<and> sa_RetryOnConflict A status_backoff ?fn (c, w) = ?fn s0"
  proof (rule last_run [OF backoff_steps, where I = "\<lambda>s. P (fst s)"])
    show "P (fst (c, w))"
      using assms(1) by simp
    show "P (fst (d', v''))" if "P (fst (d, v))" "?fn (d, v) = (Some e, d', v')" for d v e d' v' v''
      using keep [of d v] that by simp
  qed
  then obtain d v where "P d" and run: "sa_RetryOnConflict A status_backoff ?fn (c, w) = ?fn (d, v)"
    by auto
  then have "P (fst (snd (?fn (d, v))))"
    using keep by blast
  then show ?thesis
    using assms(2) inst run by (auto simp: Status_Handle_eq split: prod.splits option.splits)
next
  case False
  then have "c' = c"
    using assms(2) by (auto simp: Status_Handle_eq split: sum.splits if_splits)
  with assms(1) show ?thesis
    by simp
qed

end

text \<open>The invariant of the traffic: the cached total of one ClusterResourceQuota is within \<open>H\<close>.\<close>

definition total_within :: "resource_list \<Rightarrow> string \<Rightarrow> resource_quota_cache \<Rightarrow> bool" where
  "total_within H n c \<longleftrightarrow> cache_ok c \<and>
     (\<forall>k h. map_of H k = Some h \<longrightarrow> quotas_total (contents (view c n)) k \<le> h)"

lemma unnamed_total: "\<not> named qs rq k \<Longrightarrow> total_after qs rq k = 0"
proof -
  assume none: "\<not> named qs rq k"
  then have zero: "rval (rui_Used u) k = 0" if "(ns, u) \<in> set qs" for ns u
    using that by (auto simp: named_def rval_def split: option.split)
  have "map (\<lambda>e. rval (rui_Used (snd e)) k) qs = map (\<lambda>_. 0) qs"
    using zero by auto
  then have "quotas_total qs k = 0"
    unfolding quotas_total_def by (simp only: sum_list_0)
  moreover have "share qs (rq_Namespace rq) k = 0"
    using zero by (auto simp: share_def dest: map_of_SomeD split: option.split)
  ultimately show ?thesis
    using none by (simp add: total_after_def named_def rval_def)
qed

context status_env
begin

lemma validate_total_within:
  assumes "total_within H n c" and "\<And>k h. map_of H k = Some h \<Longrightarrow> 0 \<le> h"
    and "\<And>w crq. fst (Get_crq (sa_Client A) n w) = Inr crq \<Longrightarrow> crq_Status_Hard crq = H"
    and "validate A inst m False (c, w) = (r, c', w')"
  shows "total_within H n c'"
proof -
  have ok: "cache_ok c"
    using assms(1) by (simp add: total_within_def)
  obtain qs' where body: "validate_locked A inst m False (contents (view c m)) w = (r, qs', w')"
    and view: "view c' = (view c)(m \<mapsto> qs')" and ok': "cache_ok c'"
    using validate_eq [OF ok assms(4)] by metis
  have keep: "quotas_total qs' k \<le> h" if "m = n" "map_of H k = Some h" for k h
  proof (cases r)
    case (Some e)
    then show ?thesis
      using body validate_locked_error that assms(1) by (fastforce simp: total_within_def)
  next
    case None
    show ?thesis
      using body [unfolded None]
    proof (cases rule: locked_ok)
      case missing
      then show ?thesis
        using that assms(1) by (simp add: total_within_def)
    next
      case (found crq w1 t)
      have "crq_Status_Hard crq = H"
        using found(1) that(1) assms(3) [of w crq] by simp
      then have "quotas_total qs' k = total_after (contents (view c m)) inst k"
        and fits: "within (contents (view c m)) inst H"
        using found cache.contents_wf [OF ok] by (auto simp: total_after_mput recorded_def)
      then show ?thesis
        using that(2) assms(2) unnamed_total [of "contents (view c m)" inst k] unfolding within_def by metis
    qed
  qed
  then show ?thesis
    using assms(1) view ok' by (auto simp: total_within_def)
qed

lemma serve_total_within:
  assumes "\<And>k h. map_of H k = Some h \<Longrightarrow> 0 \<le> h"
    and "\<And>w crq. fst (Get_crq (sa_Client A) n w) = Inr crq \<Longrightarrow> crq_Status_Hard crq = H"
  shows "total_within H n c \<Longrightarrow> \<forall>req \<in> set reqs. \<not> exempt req \<Longrightarrow>
    total_within H n (fst (snd (status.serve A reqs (c, w))))"
proof (induction reqs arbitrary: c w)
  case (Cons req reqs)
  obtain resp c1 w1 where step: "Status_Handle A req (c, w) = (resp, c1, w1)"
    by (metis prod_cases3)
  have "total_within H n c1"
    using Cons.prems validate_total_within [OF _ assms] by (intro Handle_invariant [where P = "total_within H n", OF Cons.prems(1) step]) auto
  then show ?case
    using Cons step by (simp add: Let_def split_beta)
qed simp

end

subsubsection \<open>A run in memory, for the witnesses\<close>

definition ref_decode :: "resource_quota adm_request \<Rightarrow> ref_error + resource_quota" where
  "ref_decode req =
    (case ar_Object req of None \<Rightarrow> Inl (RPlain ''there is no content to decode'') | Some q \<Rightarrow> Inr q)"

definition ref_status :: "(resource_quota, mem_world, ref_error) status_admission" where
  "ref_status = \<lparr>sa_Decode = ref_decode, sa_Client = mem_client, sa_Errors = ref_errs,
     sa_Quota = ref_quota, sa_String = (\<lambda>q. if q < 0 then ''-'' else ''+''),
     sa_RetryOnConflict = ref_RetryOnConflict\<rparr>"

lemma ref_status_fields [simp]:
  "sa_Decode ref_status = ref_decode" "sa_Client ref_status = mem_client"
  "sa_Errors ref_status = ref_errs" "sa_Quota ref_status = ref_quota"
  "sa_RetryOnConflict ref_status = ref_RetryOnConflict"
  by (simp_all add: ref_status_def)

lemma status_env_ref: "status_env ref_status mem_stored"
  unfolding status_env_def ref_status_fields
  by (intro conjI mem.api_server_axioms ref_quota.quota_arith_axioms ref_errs.api_errors_axioms
      ref_retry.retrier_axioms)

interpretation ref_status: status_env ref_status mem_stored
  by (rule status_env_ref)

definition demo_crq :: "int \<Rightarrow> cluster_resource_quota" where
  "demo_crq cpu = \<lparr>crq_TypeMeta = empty_type_meta,
     crq_ObjectMeta = empty_object_meta\<lparr>om_Name := ''team''\<rparr>,
     crq_Spec = \<lparr>crqs_ResourceQuotaSpec = empty_rq_spec, crqs_NamespaceSelector = None\<rparr>,
     crq_Status = \<lparr>crqst_ResourceQuotaStatus =
       \<lparr>rqst_Hard = [(''cpu'', Quantity cpu)], rqst_Used = [(''cpu'', Quantity 7)]\<rparr>,
       crqst_Namespaces = [\<lparr>nrq_Name = ''ns1'', nrq_Used = [(''cpu'', Quantity 7)]\<rparr>]\<rparr>\<rparr>"

definition status_world :: mem_world where
  "status_world = \<lparr>mw_crqs = [(''team'', demo_crq 10)], mw_rqs = [], mw_nss = [], mw_clock = 500\<rparr>"

definition after_admit :: "ref_error option \<times> resource_quota_cache \<times> mem_world" where
  "after_admit = validate ref_status (demo_quota ''team'' ''ns2'' 3) ''team'' False (demo_cache, status_world)"

lemma after_admit: "after_admit = (None, fst (snd after_admit), snd (snd after_admit))"
  by code_simp

lemma demo_view [simp]: "contents (view demo_cache ''team'') =
    [(''ns1'', \<lparr>rui_Hard = [], rui_Used = [(''cpu'', Quantity 7)], rui_LastUpdate = 100\<rparr>)]"
  by (simp add: view_def demo_cache_def read_quotas_def)

lemma demo_get: "Get_crq (sa_Client ref_status) ''team'' status_world = (Inr (demo_crq 10), status_world)"
  by (simp add: mem_client_def mem_get_def status_world_def demo_crq_def)

subsection \<open>Properties\<close>

text \<open>
  C2. What an accepted check means. If \<open>validate\<close> returns no error and the ClusterResourceQuota
  exists, then the usage of this namespace has replaced its share in the cache and nothing else in
  the cache has changed; the new total of every resource that has a hard limit and is named by some
  usage is within the limit (unless the user is exempt); and the server holds a status whose
  \<open>Used\<close> is, resource by resource, the sum over all namespaces in the cache, with the hard limits
  unchanged and this namespace listed with the requested usage.
\<close>
theorem accepted_usage_is_recorded_and_fits:
  assumes "status_env A stored" and "cache_ok c"
    and "validate A rq n skip (c, w) = (None, c', w')" and "Get_crq (sa_Client A) n w = (Inr crq, w1)"
  shows "(skip \<or> within (contents (view c n)) rq (crq_Status_Hard crq)) \<and>
    (\<exists>t. view c' = (view c)(n \<mapsto> mput (rq_Namespace rq) (recorded rq t) (contents (view c n)))) \<and>
    (\<exists>s. stored w' n = Some s \<and>
      (\<forall>k. rval (crq_Status_Used s) k = quotas_total (contents (view c' n)) k) \<and>
      crq_Status_Hard s = crq_Status_Hard crq \<and>
      find (\<lambda>x. nrq_Name x = rq_Namespace rq) (crq_Status_Namespaces s) =
        Some \<lparr>nrq_Name = rq_Namespace rq, nrq_Used = rq_Status_Used rq\<rparr>)"
proof -
  obtain qs' where body: "validate_locked A rq n skip (contents (view c n)) w = (None, qs', w')"
    and view: "view c' = (view c)(n \<mapsto> qs')"
    using validate_eq [OF assms(2,3)] by metis
  have wf: "mwf (contents (view c n))"
    using assms(2) by (rule cache.contents_wf)
  have quota: "quota_arith (sa_Quota A)"
    using assms(1) by (simp add: status_env_def)
  show ?thesis
    using body
  proof (rule status_env.locked_ok [OF assms(1)])
    fix crq1 w2 t
    assume get: "Get_crq (sa_Client A) n w = (Inr crq1, w2)"
      and fits: "skip \<or> within (contents (view c n)) rq (crq_Status_Hard crq1)"
      and qs': "qs' = mput (rq_Namespace rq) (recorded rq t) (contents (view c n))"
      and s: "\<exists>s. stored w' n = Some s \<and> crq_Status s = crq_Status
        (updateClusterResourceQuotaStatusUsed crq1 rq (new_total (sa_Quota A) (contents (view c n)) rq))"
    have "crq1 = crq"
      using get assms(4) by simp
    then show ?thesis
      using fits qs' s view wf
      by (auto simp: quota_arith.rval_new_total [OF quota] recorded_def total_after_mput
          update_status_Namespaces find_upsert)
  qed (simp add: assms(4))
qed

theorem accepted_usage_is_recorded_and_fits_witness:
  "(\<exists>t. view (fst (snd after_admit)) = (view demo_cache)(''team'' \<mapsto>
      mput ''ns2'' (recorded (demo_quota ''team'' ''ns2'' 3) t) (contents (view demo_cache ''team'')))) \<and>
   within (contents (view demo_cache ''team'')) (demo_quota ''team'' ''ns2'' 3) [(''cpu'', Quantity 10)]"
  using accepted_usage_is_recorded_and_fits [OF status_env_ref demo_cache_ok
      after_admit [unfolded after_admit_def] demo_get]
  by (simp add: after_admit_def demo_quota_def demo_crq_def)

text \<open>
  C4. The decision is exact. For a user who is not exempt and a ClusterResourceQuota that exists,
  \<open>validate\<close> refuses with Forbidden exactly when the total would exceed a hard limit; the refusal
  changes neither what the cache holds nor anything on the server. Otherwise the outcome is that of
  the status update, and if the update fails the cache is left as it was.
\<close>
theorem validate_decision_exact:
  assumes "status_env A stored" and "cache_ok c" and "Get_crq (sa_Client A) n w = (Inr crq, w1)"
    and "validate A rq n False (c, w) = (r, c', w')"
  shows "if within (contents (view c n)) rq (crq_Status_Hard crq)
    then (\<exists>total. r = fst (Status_Update (sa_Client A) (updateClusterResourceQuotaStatusUsed crq rq total) w1) \<and>
        (\<forall>k. rval total k = total_after (contents (view c n)) rq k)) \<and>
      (case r of None \<Rightarrow> True | Some e \<Rightarrow> view c' = (view c)(n \<mapsto> contents (view c n)))
    else r = Some (NewForbidden (sa_Errors A) (exceeded_error A rq (contents (view c n)) crq)) \<and>
      IsForbidden (sa_Errors A) (the r) \<and>
      view c' = (view c)(n \<mapsto> contents (view c n)) \<and> w' = w1 \<and> stored w' = stored w"
proof -
  obtain qs' where body: "validate_locked A rq n False (contents (view c n)) w = (r, qs', w')"
    and view: "view c' = (view c)(n \<mapsto> qs')"
    using validate_eq [OF assms(2,4)] by metis
  have quota: "quota_arith (sa_Quota A)" and errs: "api_errors (sa_Errors A)" and api: "api_server (sa_Client A) stored"
    using assms(1) by (simp_all add: status_env_def)
  show ?thesis
  proof (cases "within (contents (view c n)) rq (crq_Status_Hard crq)")
    case True
    then have "r = fst (Status_Update (sa_Client A) (updateClusterResourceQuotaStatusUsed crq rq
        (new_total (sa_Quota A) (contents (view c n)) rq)) w1)"
      using body unfolding status_env.locked_found [OF assms(1,3)]
      by (auto split: prod.splits option.splits)
    moreover have "case r of None \<Rightarrow> True | Some e \<Rightarrow> view c' = (view c)(n \<mapsto> contents (view c n))"
      using validate_locked_error body view by (cases r) fastforce+
    ultimately show ?thesis
      using True quota_arith.rval_new_total [OF quota] by auto
  next
    case False
    then show ?thesis
      using body view api_server.get_Some(2) [OF api assms(3)] api_errors.forbidden_new [OF errs]
      by (auto simp: status_env.locked_refused [OF assms(1,3)])
  qed
qed

theorem validate_decision_exact_witness:
  "fst (validate ref_status (demo_quota ''team'' ''ns2'' 4) ''team'' False (demo_cache, status_world)) =
    Some (NewForbidden ref_errs (exceeded_error ref_status (demo_quota ''team'' ''ns2'' 4)
      (contents (view demo_cache ''team'')) (demo_crq 10)))"
proof -
  let ?rq = "demo_quota ''team'' ''ns2'' 4"
  have over: "\<not> within (contents (view demo_cache ''team'')) ?rq (crq_Status_Hard (demo_crq 10))"
    by (auto simp: within_def named_def total_after_def quotas_total_def share_def demo_quota_def demo_crq_def
        intro!: exI [of _ "''cpu''"])
  obtain r c' w' where run: "validate ref_status ?rq ''team'' False (demo_cache, status_world) = (r, c', w')"
    by (metis prod_cases3)
  show ?thesis
    using validate_decision_exact [OF status_env_ref demo_cache_ok demo_get run] over run by simp
qed

text \<open>
  Assigning the usage of a namespace in the status replaces the entry of that namespace or
  appends one; the entries of the other namespaces, and their order, stay; the hard limits stay; and
  a list with one entry per namespace stays one.
\<close>
lemma status_entry_update:
  "let s = updateClusterResourceQuotaStatusUsed crq rq newtotal in
    (\<forall>m. find (\<lambda>x. nrq_Name x = m) (crq_Status_Namespaces s) =
      (if m = rq_Namespace rq then Some \<lparr>nrq_Name = m, nrq_Used = rq_Status_Used rq\<rparr>
       else find (\<lambda>x. nrq_Name x = m) (crq_Status_Namespaces crq))) \<and>
    map nrq_Name (crq_Status_Namespaces s) =
      (if rq_Namespace rq \<in> nrq_Name ` set (crq_Status_Namespaces crq)
       then map nrq_Name (crq_Status_Namespaces crq)
       else map nrq_Name (crq_Status_Namespaces crq) @ [rq_Namespace rq]) \<and>
    distinct (map nrq_Name (crq_Status_Namespaces s)) = distinct (map nrq_Name (crq_Status_Namespaces crq)) \<and>
    crq_Status_Used s = newtotal \<and> crq_Status_Hard s = crq_Status_Hard crq \<and>
    crq_Spec s = crq_Spec crq \<and> crq_ObjectMeta s = crq_ObjectMeta crq"
  by (auto simp: Let_def update_status_Namespaces find_upsert upsert_names)

text \<open>
  C3. The limit holds along any traffic. Take hard limits \<open>H\<close> that are not negative, and start from a
  cache whose total for this ClusterResourceQuota is within \<open>H\<close> for every limited resource. Then
  after any sequence of requests of users who are not exempt - for any namespaces and any
  ClusterResourceQuotas, undecodable requests, conflicts, retries and failing status updates
  included - the total is still within \<open>H\<close>.
\<close>
theorem traffic_stays_within_limits:
  assumes "status_env A stored"
    and "\<forall>k h. map_of H k = Some h \<longrightarrow> 0 \<le> h"
    and "\<forall>w crq. fst (Get_crq (sa_Client A) n w) = Inr crq \<longrightarrow> crq_Status_Hard crq = H"
    and "total_within H n c" and "\<forall>req \<in> set reqs. \<not> exempt req"
  shows "total_within H n (fst (snd (status.serve A reqs (c, w))))"
  using assms(2,3) by (intro status_env.serve_total_within [OF assms(1) _ _ assms(4,5)]) auto

definition fixed_client :: "(mem_world, ref_error) kube_client" where
  "fixed_client = mem_client\<lparr>Get_crq := (\<lambda>n w. (case fst (mem_get n w) of
     Inl e \<Rightarrow> Inl e | Inr c \<Rightarrow> Inr (set_crq_Hard [(''cpu'', Quantity 10)] c), w))\<rparr>"

definition fixed_status :: "(resource_quota, mem_world, ref_error) status_admission" where
  "fixed_status = ref_status\<lparr>sa_Client := fixed_client\<rparr>"

lemma api_server_fixed: "api_server fixed_client mem_stored"
proof unfold_locales
  show "crq_Name c = n" if "fst (Get_crq fixed_client n w) = Inr c" for n w c
    using that by (auto simp: fixed_client_def mem_get_def split: sum.splits option.splits)
qed (use mem.update_stored mem.update_frame mem.now_stored mem.list_ns_stored mem.create_stored
    mem.create_crq mem.create_ran in \<open>simp_all add: fixed_client_def\<close>)

lemma status_env_fixed: "status_env fixed_status mem_stored"
proof -
  have "sa_Client fixed_status = fixed_client" "sa_Errors fixed_status = ref_errs"
    "sa_Quota fixed_status = ref_quota" "sa_RetryOnConflict fixed_status = ref_RetryOnConflict"
    by (simp_all add: fixed_status_def)
  then show ?thesis
    unfolding status_env_def by (simp add: api_server_fixed ref_quota.quota_arith_axioms
        ref_errs.api_errors_axioms ref_retry.retrier_axioms)
qed

definition status_request :: "string \<Rightarrow> resource_quota \<Rightarrow> resource_quota adm_request" where
  "status_request user rq = \<lparr>ar_Operation = AdmUpdate,
     ar_Kind = \<lparr>gvk_Group = GroupName, gvk_Version = ''v1'', gvk_Kind = ''ResourceQuota''\<rparr>,
     ar_Resource = \<lparr>gvr_Group = GroupName, gvr_Version = ''v1'', gvr_Resource = ''resourcequotas''\<rparr>,
     ar_SubResource = ''status'', ar_Name = om_Name (rq_ObjectMeta rq), ar_Namespace = rq_Namespace rq,
     ar_UserInfo = \<lparr>ui_Username = user, ui_UID = [], ui_Groups = [], ui_Extra = []\<rparr>,
     ar_Object = Some rq, ar_OldObject = None, ar_Options = None, ar_DryRun = None\<rparr>"

theorem traffic_stays_within_limits_witness:
  "total_within [(''cpu'', Quantity 10)] ''team'' (fst (snd (status.serve fixed_status
    [status_request ''u'' (demo_quota ''team'' ''ns2'' 3), status_request ''u'' (demo_quota ''team'' ''ns3'' 1)]
    (demo_cache, status_world))))"
proof (rule traffic_stays_within_limits [OF status_env_fixed])
  show "\<forall>k h. map_of [(''cpu'', Quantity 10)] k = Some h \<longrightarrow> 0 \<le> h"
    by (simp add: less_eq_quantity_def)
  show "\<forall>w crq. fst (Get_crq (sa_Client fixed_status) ''team'' w) = Inr crq \<longrightarrow>
      crq_Status_Hard crq = [(''cpu'', Quantity 10)]"
    by (auto simp: fixed_status_def fixed_client_def split: sum.splits)
  show "total_within [(''cpu'', Quantity 10)] ''team'' demo_cache"
    by (simp add: total_within_def demo_cache_ok quotas_total_def)
qed (simp add: isResourceQuotaAdmissionControllerServiceAccount_def status_request_def)

text \<open>
  C20. The handler answers 403 to a request of a user who is not exempt that would take the total over
  a hard limit, at once and without a retry, and leaves the cached usage and the server as they were.
  This is so even if the request lowers the usage of its namespace: while the total is over the
  limit (after the limit was lowered, say) the namespaces cannot shrink towards it step by step.
\<close>
theorem over_limit_gets_403:
  assumes "status_env A stored" and "cache_ok c" and "sa_Decode A req = Inr rq"
    and "managed_by (rq_Labels rq) = n" and "n \<noteq> []" and "\<not> exempt req"
    and "Get_crq (sa_Client A) n w = (Inr crq, w1)"
    and "map_of (crq_Status_Hard crq) k = Some h" and "named (contents (view c n)) rq k"
    and "h < total_after (contents (view c n)) rq k"
  shows "\<exists>e c'. Status_Handle A req (c, w) = (Errored StatusForbidden e, c', w1) \<and>
    view c' = (view c)(n \<mapsto> contents (view c n)) \<and> stored w1 = stored w"
proof -
  have over: "\<not> within (contents (view c n)) rq (crq_Status_Hard crq)"
    using assms(8-10) by (auto simp: within_def not_le)
  have quota: "quota_arith (sa_Quota A)" and errs: "api_errors (sa_Errors A)" and api: "api_server (sa_Client A) stored"
    and retry: "retrier (sa_RetryOnConflict A) (IsConflict (sa_Errors A))"
    using assms(1) by (simp_all add: status_env_def)
  let ?e = "NewForbidden (sa_Errors A) (exceeded_error A rq (contents (view c n)) crq)"
  obtain r c' w' where run: "validate A rq n False (c, w) = (r, c', w')"
    by (metis prod_cases3)
  obtain qs' where "validate_locked A rq n False (contents (view c n)) w = (r, qs', w')"
    and view: "view c' = (view c)(n \<mapsto> qs')"
    using validate_eq [OF assms(2) run] by metis
  then have res: "r = Some ?e" "qs' = contents (view c n)" "w' = w1"
    by (auto simp: status_env.locked_refused [OF assms(1,7) over])
  have "sa_RetryOnConflict A status_backoff (validate A rq n False) (c, w) = (Some ?e, c', w1)"
    using retrier.first_run [where fn = "validate A rq n False", OF retry backoff_steps run] res api_errors.new_forbidden [OF errs] by simp
  then show ?thesis
    using assms(3-6) res(2) view api_errors.new_forbidden [OF errs] api_server.get_Some(2) [OF api assms(7)]
    by (auto simp: Status_Handle_eq)
qed

text \<open>The usage of the one namespace falls from 7 to 5, towards a limit of 2, and is refused.\<close>

theorem over_limit_gets_403_witness:
  "\<exists>e c'. Status_Handle ref_status (status_request ''u'' (demo_quota ''team'' ''ns1'' 5))
      (demo_cache, status_world\<lparr>mw_crqs := [(''team'', demo_crq 2)]\<rparr>) =
      (Errored StatusForbidden e, c', status_world\<lparr>mw_crqs := [(''team'', demo_crq 2)]\<rparr>) \<and>
    view c' = (view demo_cache)(''team'' \<mapsto> contents (view demo_cache ''team'')) \<and>
    mem_stored (status_world\<lparr>mw_crqs := [(''team'', demo_crq 2)]\<rparr>) =
    mem_stored (status_world\<lparr>mw_crqs := [(''team'', demo_crq 2)]\<rparr>)"
  by (rule over_limit_gets_403 [OF status_env_ref demo_cache_ok, where k = "''cpu''" and h = "Quantity 2"
      and rq = "demo_quota ''team'' ''ns1'' 5" and crq = "demo_crq 2"])
    (simp_all add: ref_decode_def status_request_def demo_quota_def mstr_def demo_crq_def
      isResourceQuotaAdmissionControllerServiceAccount_def mem_client_def mem_get_def named_def
      total_after_def share_def quotas_total_def)

text \<open>
  C27. Who is not limited: the user \<open>kubernetes-admin\<close> and the members of \<open>system:masters\<close>, whatever the
  name of the check says about the quota controller's service account. To a request of such a user, for a
  managed ResourceQuota whose ClusterResourceQuota exists, the handler gives the answer of the status update alone (as long as that
  is not a conflict, which is retried), at any usage: it allows the request when the update succeeds, and then the server
  holds the new total and the cache the requested usage, over the limit or not; when the update fails it
  answers 403 or 500 after that error, and the cached usage stays as it was.
\<close>
theorem exempt_user_is_not_limited:
  assumes "status_env A stored" and "cache_ok c" and "sa_Decode A req = Inr rq"
    and "managed_by (rq_Labels rq) = n" and "n \<noteq> []"
    and "ui_Username (ar_UserInfo req) = ''kubernetes-admin'' \<or> ''system:masters'' \<in> set (ui_Groups (ar_UserInfo req))"
    and "Get_crq (sa_Client A) n w = (Inr crq, w1)"
    and "updated = updateClusterResourceQuotaStatusUsed crq rq (new_total (sa_Quota A) (contents (view c n)) rq)"
    and "Status_Update (sa_Client A) updated w1 = (e, w2)"
    and "case e of None \<Rightarrow> True | Some err \<Rightarrow> \<not> IsConflict (sa_Errors A) err"
  shows "(\<forall>k. rval (crq_Status_Used updated) k = total_after (contents (view c n)) rq k) \<and>
    (case e of
      None \<Rightarrow> \<exists>c' w' t s. Status_Handle A req (c, w) = (Allowed ''ResourceQuota status validated'', c', w') \<and>
        view c' = (view c)(n \<mapsto> mput (rq_Namespace rq) (recorded rq t) (contents (view c n))) \<and>
        stored w' n = Some s \<and> crq_Status s = crq_Status updated
    | Some err \<Rightarrow> \<exists>c'. Status_Handle A req (c, w) =
          (Errored (if IsForbidden (sa_Errors A) err then StatusForbidden else StatusInternalServerError) err, c', w2) \<and>
        view c' = (view c)(n \<mapsto> contents (view c n)))"
proof -
  have quota: "quota_arith (sa_Quota A)" and retry: "retrier (sa_RetryOnConflict A) (IsConflict (sa_Errors A))"
    using assms(1) by (simp_all add: status_env_def)
  have skip: "exempt req"
    using assms(6) by (auto simp: isResourceQuotaAdmissionControllerServiceAccount_def)
  obtain r c' w' where run: "validate A rq n True (c, w) = (r, c', w')"
    by (metis prod_cases3)
  obtain qs' where body: "validate_locked A rq n True (contents (view c n)) w = (r, qs', w')"
    and view: "view c' = (view c)(n \<mapsto> qs')"
    using validate_eq [OF assms(2) run] by metis
  note found = body [unfolded status_env.locked_found [OF assms(1,7)], folded assms(8), unfolded assms(9)]
  have r: "r = e"
    using found by (auto split: prod.splits option.splits)
  have handle: "Status_Handle A req (c, w) = (case e of
      Some err \<Rightarrow> (Errored (if IsForbidden (sa_Errors A) err then StatusForbidden else StatusInternalServerError) err, c', w')
    | None \<Rightarrow> (Allowed ''ResourceQuota status validated'', c', w'))"
    using retrier.first_run [where fn = "validate A rq n True", OF retry backoff_steps run] assms(3-5,10) skip
    by (simp add: Status_Handle_eq r)
  have "rval (crq_Status_Used updated) k = total_after (contents (view c n)) rq k" for k
    by (simp add: assms(8) quota_arith.rval_new_total [OF quota])
  moreover have "case e of
      None \<Rightarrow> \<exists>c' w' t s. Status_Handle A req (c, w) = (Allowed ''ResourceQuota status validated'', c', w') \<and>
        view c' = (view c)(n \<mapsto> mput (rq_Namespace rq) (recorded rq t) (contents (view c n))) \<and>
        stored w' n = Some s \<and> crq_Status s = crq_Status updated
    | Some err \<Rightarrow> \<exists>c'. Status_Handle A req (c, w) =
          (Errored (if IsForbidden (sa_Errors A) err then StatusForbidden else StatusInternalServerError) err, c', w2) \<and>
        view c' = (view c)(n \<mapsto> contents (view c n))"
  proof (cases e)
    case None
    then obtain t where qs': "qs' = mput (rq_Namespace rq) (recorded rq t) (contents (view c n))"
      using found by (auto split: prod.splits)
    have "validate_locked A rq n True (contents (view c n)) w = (None, qs', w')"
      using body r None by simp
    then have "\<exists>s. stored w' n = Some s \<and> crq_Status s = crq_Status updated"
      by (rule status_env.locked_ok [OF assms(1)]) (simp_all add: assms(7,8))
    with None show ?thesis
      using handle view unfolding qs' by fastforce
  next
    case (Some err)
    then show ?thesis
      using found handle view by auto
  qed
  ultimately show ?thesis
    by blast
qed

definition admin_user :: user_info where
  "admin_user = \<lparr>ui_Username = ''root'', ui_UID = [], ui_Groups = [''system:masters''], ui_Extra = []\<rparr>"

text \<open>A member of \<open>system:masters\<close> records 99 under a limit of 10.\<close>

theorem exempt_user_is_not_limited_witness:
  "\<exists>c' w' s. Status_Handle ref_status ((status_request ''u'' (demo_quota ''team'' ''ns1'' 99))\<lparr>ar_UserInfo := admin_user\<rparr>)
      (demo_cache, status_world) = (Allowed ''ResourceQuota status validated'', c', w') \<and>
    mem_stored w' ''team'' = Some s \<and> rval (crq_Status_Used s) ''cpu'' = Quantity 99"
proof -
  let ?rq = "demo_quota ''team'' ''ns1'' 99"
  let ?req = "(status_request ''u'' ?rq)\<lparr>ar_UserInfo := admin_user\<rparr>"
  let ?new = "updateClusterResourceQuotaStatusUsed (demo_crq 10) ?rq
    (new_total (sa_Quota ref_status) (contents (view demo_cache ''team'')) ?rq)"
  have decode: "sa_Decode ref_status ?req = Inr ?rq" and name: "managed_by (rq_Labels ?rq) = ''team''"
    and user: "ui_Username (ar_UserInfo ?req) = ''kubernetes-admin'' \<or>
      ''system:masters'' \<in> set (ui_Groups (ar_UserInfo ?req))"
    by (simp_all add: ref_decode_def status_request_def admin_user_def demo_quota_def mstr_def)
  have "fst (Status_Update (sa_Client ref_status) ?new status_world) = None"
    by code_simp
  then have upd: "Status_Update (sa_Client ref_status) ?new status_world =
      (None, snd (Status_Update (sa_Client ref_status) ?new status_world))"
    by (simp add: prod_eq_iff)
  have total: "total_after (contents (view demo_cache ''team'')) ?rq ''cpu'' = Quantity 99"
    by (simp add: total_after_def quotas_total_def share_def demo_quota_def)
  have "''team'' \<noteq> ([] :: string)"
    by simp
  from exempt_user_is_not_limited [OF status_env_ref demo_cache_ok decode name this user demo_get refl upd] total
  show ?thesis
    by fastforce
qed

text \<open>
  A ResourceQuota whose ClusterResourceQuota does not exist is admitted with any usage, and the
  usage is recorded nowhere: the only trace is an empty cache entry for the name.
\<close>
lemma missing_quota_admits_everything:
  assumes "status_env A stored" and "cache_ok c" and "sa_Decode A req = Inr rq"
    and "managed_by (rq_Labels rq) = n" and "n \<noteq> []"
    and "Get_crq (sa_Client A) n w = (Inl err, w1)" and "IsNotFound (sa_Errors A) err"
  shows "\<exists>msg c'. Status_Handle A req (c, w) = (Allowed msg, c', w1) \<and>
    view c' = (view c)(n \<mapsto> contents (view c n)) \<and> stored w1 = stored w"
proof -
  have api: "api_server (sa_Client A) stored"
    and retry: "retrier (sa_RetryOnConflict A) (IsConflict (sa_Errors A))"
    using assms(1) by (simp_all add: status_env_def)
  obtain r c' w' where run: "validate A rq n (exempt req) (c, w) = (r, c', w')"
    by (metis prod_cases3)
  obtain qs' where body: "validate_locked A rq n (exempt req) (contents (view c n)) w = (r, qs', w')"
    and view: "view c' = (view c)(n \<mapsto> qs')"
    using validate_eq [OF assms(2) run] by metis
  have res: "r = None" "qs' = contents (view c n)" "w' = w1"
    using body assms(6,7) by (auto simp: validate_locked_eq)
  have "sa_RetryOnConflict A status_backoff (validate A rq n (exempt req)) (c, w) = (None, c', w1)"
    using retrier.first_run [where fn = "validate A rq n (exempt req)", OF retry backoff_steps run] res by simp
  then show ?thesis
    using assms(3-5) res(2) view api_server.get_stored [OF api, of n w] assms(6)
    by (auto simp: Status_Handle_eq)
qed

lemma missing_quota_admits_everything_witness:
  "\<exists>msg c'. Status_Handle ref_status (status_request ''u'' (demo_quota ''gone'' ''ns1'' 99)) (demo_cache, status_world) =
      (Allowed msg, c', status_world) \<and>
    view c' = (view demo_cache)(''gone'' \<mapsto> contents (view demo_cache ''gone'')) \<and>
    mem_stored status_world = mem_stored status_world"
  by (rule missing_quota_admits_everything [OF status_env_ref demo_cache_ok, where
      rq = "demo_quota ''gone'' ''ns1'' 99" and err = "RStatus 404 ''gone''"])
    (simp_all add: ref_decode_def status_request_def demo_quota_def mstr_def mem_client_def mem_get_def
      status_world_def ref_errs_def)

text \<open>
  The error message does not depend on the order in which Go iterates the resources: every order
  of the same resource list prints the same, with its keys in increasing order.
\<close>
lemma pretty_print_order:
  assumes "mwf item" and "mset item = mset item'"
  shows "prettyPrint S item = prettyPrint S item' \<and>
    (\<exists>keys. sorted keys \<and> set keys = fst ` set item \<and> distinct keys \<and>
      prettyPrint S item = Join (map (\<lambda>k. k @ ''='' @ S (rval item k)) keys) '','')"
proof -
  have "sort (map fst item) = sort (map fst item')"
    using assms(2) by (metis mset_map sorted_list_of_multiset_mset)
  moreover have "map_of item = map_of item'"
    using assms(2,1) by (rule map_of_perm)
  ultimately have "prettyPrint S item = prettyPrint S item'"
    by (simp add: prettyPrint_def rval_def)
  moreover have "sorted (sort (map fst item)) \<and> set (sort (map fst item)) = fst ` set item \<and>
      distinct (sort (map fst item))"
    using assms(1) by (simp add: mwf_def)
  moreover have "prettyPrint S item =
      Join (map (\<lambda>k. k @ ''='' @ S (rval item k)) (sort (map fst item))) '',''"
    by (simp add: prettyPrint_def)
  ultimately show ?thesis
    by blast
qed

end
