(* ===== verification/Remove_Admission.thy ===== *)
theory Remove_Admission
  imports Status_Admission
begin

section \<open>The remove webhook (\<open>clusterresourcequota-removeadmission.go\<close>)\<close>

text \<open>
  This handler keeps a ResourceQuota attached to its ClusterResourceQuota: an update may not change
  the label that names it, and a delete is refused while it exists and is not being deleted itself.
  The handler keeps no state; its \<open>Get\<close> reads the world.
\<close>

record ('raw, 'w, 'e) remove_admission =
  ra_Decode :: "'raw adm_request \<Rightarrow> 'e + resource_quota"
  ra_DecodeRaw :: "'raw \<Rightarrow> 'e + resource_quota"
  ra_Client :: "('w, 'e) kube_client"
  ra_Errors :: "'e err_lib"

text \<open>The two functions of a decoder that \<open>admission.NewDecoder\<close> makes for the scheme of the client come from outside.\<close>

definition NewResourceQuotaRemoveAdmission ::
  "('raw adm_request \<Rightarrow> 'e + resource_quota) \<times> ('raw \<Rightarrow> 'e + resource_quota) \<Rightarrow> 'e err_lib \<Rightarrow>
   ('w, 'e) kube_client \<Rightarrow> ('raw, 'w, 'e) remove_admission" where
  "NewResourceQuotaRemoveAdmission decoder E client =
    \<lparr>ra_Decode = fst decoder, ra_DecodeRaw = snd decoder, ra_Client = client, ra_Errors = E\<rparr>"

declare NewResourceQuotaRemoveAdmission_def [simp]

definition handleUpdate ::
  "('raw, 'w, 'e) remove_admission \<Rightarrow> 'raw adm_request \<Rightarrow> 'w \<Rightarrow> 'e response \<times> 'w" where
  "handleUpdate R req w =
    (case ra_Decode R req of
      Inl err \<Rightarrow> (Errored StatusBadRequest err, w)
    | Inr inst \<Rightarrow>
        (case (case ar_OldObject req of
            None \<Rightarrow> Inr empty_resource_quota
          | Some raw \<Rightarrow> ra_DecodeRaw R raw) of
          Inl err \<Rightarrow> (Errored StatusBadRequest err, w)
        | Inr old \<Rightarrow>
            let oldName = (case rq_Labels old of None \<Rightarrow> [] | Some ls \<Rightarrow> mstr ls LabelClusterResourceQuota);
                newName = (case rq_Labels inst of None \<Rightarrow> [] | Some ls \<Rightarrow> mstr ls LabelClusterResourceQuota) in
            if oldName \<noteq> [] \<and> newName \<noteq> oldName then
              (Errored StatusForbidden (Errorf (ra_Errors R)
                ''cannot change label %q of managed ResourceQuota from %q to %q''
                [FStr LabelClusterResourceQuota, FStr oldName, FStr newName]), w)
            else (Allowed ''ResourceQuota update validated'', w)))"

definition handleDelete ::
  "('raw, 'w, 'e) remove_admission \<Rightarrow> 'raw adm_request \<Rightarrow> 'w \<Rightarrow> 'e response \<times> 'w" where
  "handleDelete R req w =
    (case ar_OldObject req of
      None \<Rightarrow> (Allowed ''Unknown'', w)
    | Some raw \<Rightarrow>
        (case ra_DecodeRaw R raw of
          Inl err \<Rightarrow> (Errored StatusBadRequest err, w)
        | Inr target \<Rightarrow>
            if (case rq_Labels target of None \<Rightarrow> 0 | Some ls \<Rightarrow> length ls) = 0 then
              (Allowed ''Not managed by ClusterResourceQuota'', w)
            else
              let clusterresourcequotaname = mstr (the (rq_Labels target)) LabelClusterResourceQuota in
              if clusterresourcequotaname = [] then (Allowed ''Not managed by ClusterResourceQuota'', w)
              else
                (case Get_crq (ra_Client R) clusterresourcequotaname w of
                  (Inl err, w') \<Rightarrow>
                    if IsNotFound (ra_Errors R) err then (Allowed ''Not managed by ClusterResourceQuota'', w')
                    else (Errored StatusInternalServerError err, w')
                | (Inr clusterresourcequota, w') \<Rightarrow>
                    if crq_DeletionTimestamp clusterresourcequota \<noteq> None then
                      (Allowed ''ClusterResourceQuota is being deleted'', w')
                    else
                      (Errored StatusForbidden (Errorf (ra_Errors R)
                        ''resourcequota managed by ClusterResourceQuota %q cannot be deleted''
                        [FStr clusterresourcequotaname]), w'))))"

definition Remove_Handle ::
  "('raw, 'w, 'e) remove_admission \<Rightarrow> 'raw adm_request \<Rightarrow> 'w \<Rightarrow> 'e response \<times> 'w" where
  "Remove_Handle R req w =
    (case ar_Operation req of
      AdmUpdate \<Rightarrow> handleUpdate R req w
    | AdmDelete \<Rightarrow> handleDelete R req w
    | AdmCreate \<Rightarrow> (Allowed ''Operation allowed'', w)
    | AdmConnect \<Rightarrow> (Allowed ''Operation allowed'', w))"

subsection \<open>Lemmas\<close>

definition decode_old :: "('raw, 'w, 'e) remove_admission \<Rightarrow> 'raw option \<Rightarrow> 'e + resource_quota" where
  "decode_old R old = (case old of None \<Rightarrow> Inr empty_resource_quota | Some raw \<Rightarrow> ra_DecodeRaw R raw)"

definition remove_undecodable :: "('raw, 'w, 'e) remove_admission \<Rightarrow> 'raw adm_request \<Rightarrow> bool" where
  "remove_undecodable R req =
    (case ar_Operation req of
      AdmUpdate \<Rightarrow> isl (ra_Decode R req) \<or> isl (decode_old R (ar_OldObject req))
    | AdmDelete \<Rightarrow> isl (decode_old R (ar_OldObject req))
    | _ \<Rightarrow> False)"

interpretation remove: admission_handler "Remove_Handle R" "remove_undecodable R" for R
proof unfold_locales
  fix r s c e s'
  show "\<exists>e. Remove_Handle R r s = (Errored StatusBadRequest e, s)" if "remove_undecodable R r"
    using that by (auto simp: Remove_Handle_def handleUpdate_def handleDelete_def remove_undecodable_def
        decode_old_def isl_def split: operation.splits option.splits sum.splits)
  show "c \<in> {StatusBadRequest, StatusForbidden, StatusInternalServerError}"
    if "Remove_Handle R r s = (Errored c e, s')"
    using that by (auto simp: Remove_Handle_def handleUpdate_def handleDelete_def Let_def
        split: operation.splits if_splits sum.splits prod.splits option.splits)
qed

lemma unlabelled: "(case ls of None \<Rightarrow> 0 | Some m \<Rightarrow> length m) = 0 \<Longrightarrow> managed_by ls = []"
  by (auto simp: mstr_def split: option.splits)

lemma handleUpdate_eq:
  "handleUpdate R req w =
    (case (ra_Decode R req, decode_old R (ar_OldObject req)) of
      (Inl err, _) \<Rightarrow> (Errored StatusBadRequest err, w)
    | (Inr inst, Inl err) \<Rightarrow> (Errored StatusBadRequest err, w)
    | (Inr inst, Inr old) \<Rightarrow>
        if managed_by (rq_Labels old) \<noteq> [] \<and> managed_by (rq_Labels inst) \<noteq> managed_by (rq_Labels old)
        then (Errored StatusForbidden (Errorf (ra_Errors R)
          ''cannot change label %q of managed ResourceQuota from %q to %q''
          [FStr LabelClusterResourceQuota, FStr (managed_by (rq_Labels old)),
           FStr (managed_by (rq_Labels inst))]), w)
        else (Allowed ''ResourceQuota update validated'', w))"
  by (auto simp: handleUpdate_def decode_old_def managed_by_def Let_def split: sum.split option.split)

lemma handleDelete_eq:
  "handleDelete R req w =
    (case ar_OldObject req of
      None \<Rightarrow> (Allowed ''Unknown'', w)
    | Some raw \<Rightarrow>
        (case ra_DecodeRaw R raw of
          Inl err \<Rightarrow> (Errored StatusBadRequest err, w)
        | Inr target \<Rightarrow>
            if managed_by (rq_Labels target) = [] then (Allowed ''Not managed by ClusterResourceQuota'', w)
            else
              (case Get_crq (ra_Client R) (managed_by (rq_Labels target)) w of
                (Inl err, w') \<Rightarrow>
                  if IsNotFound (ra_Errors R) err then (Allowed ''Not managed by ClusterResourceQuota'', w')
                  else (Errored StatusInternalServerError err, w')
              | (Inr crq, w') \<Rightarrow>
                  if crq_DeletionTimestamp crq \<noteq> None then
                    (Allowed ''ClusterResourceQuota is being deleted'', w')
                  else
                    (Errored StatusForbidden (Errorf (ra_Errors R)
                      ''resourcequota managed by ClusterResourceQuota %q cannot be deleted''
                      [FStr (managed_by (rq_Labels target))]), w'))))"
  by (auto simp: handleDelete_def managed_by_def mstr_def Let_def split: sum.split option.split prod.split)

lemma update_allowed_iff:
  "is_allowed (fst (handleUpdate R req w)) \<longleftrightarrow>
    (\<exists>inst old. ra_Decode R req = Inr inst \<and> decode_old R (ar_OldObject req) = Inr old \<and>
      (managed_by (rq_Labels old) = [] \<or> managed_by (rq_Labels inst) = managed_by (rq_Labels old)))"
  by (auto simp: handleUpdate_eq split: sum.split)

lemma delete_allowed_iff:
  "is_allowed (fst (handleDelete R req w)) \<longleftrightarrow>
    (case ar_OldObject req of None \<Rightarrow> True | Some raw \<Rightarrow>
      (\<exists>target. ra_DecodeRaw R raw = Inr target \<and>
        (managed_by (rq_Labels target) = [] \<or>
         (case fst (Get_crq (ra_Client R) (managed_by (rq_Labels target)) w) of
           Inl err \<Rightarrow> IsNotFound (ra_Errors R) err
         | Inr crq \<Rightarrow> \<exists>t. crq_DeletionTimestamp crq = Some t))))"
proof (cases "ar_OldObject req")
  case None
  then show ?thesis
    by (simp add: handleDelete_eq)
next
  case (Some raw)
  show ?thesis
  proof (cases "ra_DecodeRaw R raw")
    case (Inl err)
    with Some show ?thesis
      by (simp add: handleDelete_eq)
  next
    case (Inr target)
    with Some show ?thesis
      by (simp add: handleDelete_eq split: prod.split sum.split)
  qed
qed

subsection \<open>The life of one ResourceQuota behind the webhook\<close>

text \<open>
  The API server stores an update or carries out a delete only if the webhook admits it. \<open>enc\<close> is the
  wire form of an object; between two requests the world changes in any way.
\<close>

definition update_request :: "(resource_quota \<Rightarrow> 'raw) \<Rightarrow> user_info \<Rightarrow> resource_quota \<Rightarrow> resource_quota \<Rightarrow> 'raw adm_request" where
  "update_request enc u old new = \<lparr>ar_Operation = AdmUpdate,
     ar_Kind = \<lparr>gvk_Group = GroupName, gvk_Version = ''v1'', gvk_Kind = ''ResourceQuota''\<rparr>,
     ar_Resource = \<lparr>gvr_Group = GroupName, gvr_Version = ''v1'', gvr_Resource = ''resourcequotas''\<rparr>,
     ar_SubResource = [], ar_Name = om_Name (rq_ObjectMeta new), ar_Namespace = rq_Namespace new,
     ar_UserInfo = u, ar_Object = Some (enc new), ar_OldObject = Some (enc old),
     ar_Options = None, ar_DryRun = None\<rparr>"

definition delete_request :: "(resource_quota \<Rightarrow> 'raw) \<Rightarrow> user_info \<Rightarrow> resource_quota \<Rightarrow> 'raw adm_request" where
  "delete_request enc u old = (update_request enc u old old)\<lparr>ar_Operation := AdmDelete, ar_Object := None\<rparr>"

inductive admitted_step ::
  "('raw, 'w, 'e) remove_admission \<Rightarrow> (resource_quota \<Rightarrow> 'raw) \<Rightarrow>
   resource_quota option \<Rightarrow> resource_quota option \<Rightarrow> bool" for R enc where
  update: "is_allowed (fst (Remove_Handle R (update_request enc u old new) w)) \<Longrightarrow>
    admitted_step R enc (Some old) (Some new)"
| delete: "is_allowed (fst (Remove_Handle R (delete_request enc u old) w)) \<Longrightarrow>
    admitted_step R enc (Some old) None"

text \<open>A request that carries an encoded object decodes to that object.\<close>

definition decodes :: "('raw, 'w, 'e) remove_admission \<Rightarrow> (resource_quota \<Rightarrow> 'raw) \<Rightarrow> bool" where
  "decodes R enc \<longleftrightarrow> (\<forall>q. ra_DecodeRaw R (enc q) = Inr q) \<and>
     (\<forall>req q. ar_Object req = Some (enc q) \<longrightarrow> ra_Decode R req = Inr q)"

text \<open>The ClusterResourceQuota \<open>n\<close> is there and not being deleted, or the server does not answer.\<close>

definition alive :: "('raw, 'w, 'e) remove_admission \<Rightarrow> string \<Rightarrow> bool" where
  "alive R n \<longleftrightarrow> (\<forall>w. case fst (Get_crq (ra_Client R) n w) of
     Inl err \<Rightarrow> \<not> IsNotFound (ra_Errors R) err
   | Inr crq \<Rightarrow> crq_DeletionTimestamp crq = None)"

definition attached :: "string \<Rightarrow> resource_quota option \<Rightarrow> bool" where
  "attached n s \<longleftrightarrow> (\<exists>q. s = Some q \<and> managed_by (rq_Labels q) = n)"

lemma admitted_step_attached:
  assumes "decodes R enc" and "alive R n" and "n \<noteq> []" and "admitted_step R enc s s'" and "attached n s"
  shows "attached n s'"
  using assms(4)
proof cases
  case (update u old new w)
  then show ?thesis
    using assms(1,3,5)
    by (auto simp: Remove_Handle_def update_allowed_iff decode_old_def update_request_def decodes_def attached_def)
next
  case (delete u old w)
  have "\<not> is_allowed (fst (handleDelete R (delete_request enc u old) w))"
    using assms(1-3,5) delete(1) spec [OF assms(2) [unfolded alive_def], of w]
    by (auto simp: delete_allowed_iff delete_request_def update_request_def decodes_def attached_def
        split: sum.splits)
  with delete show ?thesis
    by (simp add: Remove_Handle_def delete_request_def)
qed

subsection \<open>Properties\<close>

text \<open>
  An update is admitted exactly if both objects decode and the quota was not managed before or is
  managed by the same ClusterResourceQuota after; a quota that is not managed can be attached to one.
  Nothing else about the object matters.
\<close>
lemma update_admitted_iff:
  "is_allowed (fst (handleUpdate R req w)) =
    (\<exists>inst old. ra_Decode R req = Inr inst \<and>
      (case ar_OldObject req of None \<Rightarrow> Inr empty_resource_quota | Some raw \<Rightarrow> ra_DecodeRaw R raw) = Inr old \<and>
      managed_by (rq_Labels old) \<in> {[], managed_by (rq_Labels inst)})"
  unfolding update_allowed_iff decode_old_def by auto

text \<open>
  A delete is admitted exactly if the request carries no object, or the object decodes and it is not
  managed, or its ClusterResourceQuota does not exist or is being deleted. An error of the API
  server other than not-found refuses the delete.
\<close>
lemma delete_admitted_iff:
  "is_allowed (fst (handleDelete R req w)) =
    (case ar_OldObject req of None \<Rightarrow> True | Some raw \<Rightarrow>
      (\<exists>target. ra_DecodeRaw R raw = Inr target \<and>
        (if managed_by (rq_Labels target) = [] then True
         else case fst (Get_crq (ra_Client R) (managed_by (rq_Labels target)) w) of
           Inl err \<Rightarrow> IsNotFound (ra_Errors R) err
         | Inr crq \<Rightarrow> \<exists>t. crq_DeletionTimestamp crq = Some t)))"
  unfolding delete_allowed_iff by (auto split: option.split)

text \<open>
  C12. As long as a ClusterResourceQuota exists and is not being deleted, a ResourceQuota it manages stays:
  no sequence of updates and deletes that the webhook admits, by any users and with any changes in the
  world in between, removes the quota or attaches it to another ClusterResourceQuota.
\<close>
theorem managed_quota_survives:
  assumes "decodes R enc" and "alive R n" and "n \<noteq> []"
    and "managed_by (rq_Labels q) = n" and "(admitted_step R enc)\<^sup>*\<^sup>* (Some q) s"
  shows "\<exists>q'. s = Some q' \<and> managed_by (rq_Labels q') = n"
proof -
  have "attached n s"
    using assms(5)
  proof (induction rule: rtranclp_induct)
    case base
    then show ?case
      using assms(4) by (simp add: attached_def)
  next
    case (step y z)
    then show ?case
      using admitted_step_attached [OF assms(1-3)] by blast
  qed
  then show ?thesis
    by (simp add: attached_def)
qed

definition remove_client :: "(mem_world, ref_error) kube_client" where
  "remove_client = mem_client\<lparr>Get_crq := (\<lambda>n w. (Inr (demo_crq 10), w))\<rparr>"

definition ref_remove :: "(resource_quota, mem_world, ref_error) remove_admission" where
  "ref_remove = NewResourceQuotaRemoveAdmission (ref_decode, Inr) ref_errs remove_client"

theorem managed_quota_survives_witness:
  "\<exists>q'. Some (demo_quota ''team'' ''ns1'' 4) = Some q' \<and> managed_by (rq_Labels q') = ''team''"
proof (rule managed_quota_survives [of ref_remove id, where q = "demo_quota ''team'' ''ns1'' 3"])
  show "decodes ref_remove id"
    by (simp add: decodes_def ref_remove_def ref_decode_def)
  show "alive ref_remove ''team''"
    by (simp add: alive_def ref_remove_def remove_client_def demo_crq_def empty_object_meta_def)
  show "managed_by (rq_Labels (demo_quota ''team'' ''ns1'' 3)) = ''team''"
    by (simp add: demo_quota_def mstr_def)
  have "is_allowed (fst (Remove_Handle ref_remove
      (update_request id admin_user (demo_quota ''team'' ''ns1'' 3) (demo_quota ''team'' ''ns1'' 4)) status_world))"
    by (simp add: Remove_Handle_def update_allowed_iff decode_old_def update_request_def ref_remove_def
        ref_decode_def demo_quota_def mstr_def)
  then show "(admitted_step ref_remove id)\<^sup>*\<^sup>* (Some (demo_quota ''team'' ''ns1'' 3)) (Some (demo_quota ''team'' ''ns1'' 4))"
    by (intro r_into_rtranclp admitted_step.update)
qed simp

end
