(* ===== verification/Controller.thy ===== *)
theory Controller
  imports Remove_Admission "HOL-Library.Sublist"
begin

section \<open>The controller (\<open>clusterresourcequota-controller.go\<close>)\<close>

text \<open>
  The reconciler creates one ResourceQuota per selected namespace for every ClusterResourceQuota and
  writes the sum of their usages to its status.

  One aliasing is part of the model: the closure assigns the label map of the ClusterResourceQuota to
  the ResourceQuota and then writes into it, so if that map is not nil the write changes the
  ClusterResourceQuota in memory as well.
\<close>

subsection \<open>What the reconciler is built from\<close>

text \<open>\<open>metav1.LabelSelectorAsSelector\<close> gives a predicate on label sets, or an error.\<close>

type_synonym 'e selector_lib = "label_selector option \<Rightarrow> 'e + (labels \<Rightarrow> bool)"

record ('w, 'e) reconciler =
  rc_Client :: "('w, 'e) kube_client"
  rc_Errors :: "'e err_lib"
  rc_Quota :: quota_lib
  rc_LabelSelectorAsSelector :: "'e selector_lib"
  rc_SetOwnerReference :: "cluster_resource_quota \<Rightarrow> resource_quota \<Rightarrow> 'e option \<times> resource_quota"
  rc_DeepEqual :: "cluster_resource_quota_spec \<Rightarrow> cluster_resource_quota_spec \<Rightarrow> bool"

text \<open>
  \<open>controllerutil.SetOwnerReference\<close> changes the owner references of the object only, and without an
  error leaves one that names the owner there; \<open>equality.Semantic.DeepEqual\<close> holds of equal values.
\<close>

locale ownership =
  fixes set_owner :: "cluster_resource_quota \<Rightarrow> resource_quota \<Rightarrow> 'e option \<times> resource_quota"
  assumes owner_only: "\<exists>refs. snd (set_owner c q) =
      q\<lparr>rq_ObjectMeta := (rq_ObjectMeta q)\<lparr>om_OwnerReferences := refs\<rparr>\<rparr>"
    and owner_set: "fst (set_owner c q) = None \<Longrightarrow>
      \<exists>r \<in> set (om_OwnerReferences (rq_ObjectMeta (snd (set_owner c q)))).
        or_Name r = crq_Name c \<and> or_UID r = om_UID (crq_ObjectMeta c)"
begin

lemma owner_keeps:
  "rq_Spec (snd (set_owner c q)) = rq_Spec q"
  "rq_Labels (snd (set_owner c q)) = rq_Labels q"
  "rq_Namespace (snd (set_owner c q)) = rq_Namespace q"
  "om_Annotations (rq_ObjectMeta (snd (set_owner c q))) = om_Annotations (rq_ObjectMeta q)"
  "rq_Status (snd (set_owner c q)) = rq_Status q"
  using owner_only [of c q] by auto

end

definition ref_SetOwnerReference :: "cluster_resource_quota \<Rightarrow> resource_quota \<Rightarrow> ref_error option \<times> resource_quota" where
  "ref_SetOwnerReference c q =
    (None, q\<lparr>rq_ObjectMeta := (rq_ObjectMeta q)\<lparr>om_OwnerReferences :=
      \<lparr>or_Kind = ''ClusterResourceQuota'', or_Name = crq_Name c, or_UID = om_UID (crq_ObjectMeta c)\<rparr> #
      filter (\<lambda>r. or_UID r \<noteq> om_UID (crq_ObjectMeta c)) (om_OwnerReferences (rq_ObjectMeta q))\<rparr>\<rparr>)"

interpretation ref_owner: ownership ref_SetOwnerReference
  by unfold_locales (auto simp: ref_SetOwnerReference_def)

subsection \<open>What triggers a reconciliation\<close>

datatype crq_event =
  CreateEvent cluster_resource_quota
| UpdateEvent cluster_resource_quota cluster_resource_quota
| DeleteEvent cluster_resource_quota
| GenericEvent cluster_resource_quota

text \<open>\<open>predicate.Funcs\<close> with \<open>UpdateFunc\<close> only: the other events pass.\<close>

definition OnClusterResourceQuotaSpecChange :: "('w, 'e) reconciler \<Rightarrow> crq_event \<Rightarrow> bool" where
  "OnClusterResourceQuotaSpecChange R ev =
    (case ev of
      UpdateEvent oldObj newObj \<Rightarrow> \<not> rc_DeepEqual R (crq_Spec oldObj) (crq_Spec newObj)
    | _ \<Rightarrow> True)"

record request =
  req_Namespace :: string
  req_Name :: string

definition ns_Labels :: "kube_namespace \<Rightarrow> labels" where
  "ns_Labels ns = (case om_Labels (ns_ObjectMeta ns) of None \<Rightarrow> [] | Some ls \<Rightarrow> ls)"

abbreviation ns_Name :: "kube_namespace \<Rightarrow> string" where
  "ns_Name ns \<equiv> om_Name (ns_ObjectMeta ns)"

definition ObjectKeyFromObject :: "cluster_resource_quota \<Rightarrow> request" where
  "ObjectKeyFromObject c =
    \<lparr>req_Namespace = om_Namespace (crq_ObjectMeta c), req_Name = crq_Name c\<rparr>"

text \<open>The object is \<open>None\<close> when it is not a Namespace.\<close>

definition OnNamespaceChange :: "('w, 'e) reconciler \<Rightarrow> kube_namespace option \<Rightarrow> 'w \<Rightarrow> request list \<times> 'w" where
  "OnNamespaceChange R obj w =
    (case obj of
      None \<Rightarrow> ([], w)
    | Some ns \<Rightarrow>
        (case List_crq (rc_Client R) w of
          (Inl err, w') \<Rightarrow> ([], w')
        | (Inr items, w') \<Rightarrow>
            (fold (\<lambda>crq requests.
              case rc_LabelSelectorAsSelector R (crqs_NamespaceSelector (crq_Spec crq)) of
                Inl err \<Rightarrow> requests
              | Inr sel \<Rightarrow>
                  if sel (ns_Labels ns) then requests @ [ObjectKeyFromObject crq] else requests) items [], w')))"

text \<open>
  \<open>Setup\<close>: what the builder is given - the predicate on events of ClusterResourceQuotas, the mapping of
  Namespaces, and the reconciler; \<open>Complete\<close> of controller-runtime is a parameter.
\<close>

record ('w, 'r) controller_builder =
  cb_For_Predicates :: "(crq_event \<Rightarrow> bool) list"
  cb_Watches_Namespace :: "kube_namespace option \<Rightarrow> 'w \<Rightarrow> request list \<times> 'w"
  cb_Reconciler :: 'r

definition reconciler_Setup :: "(('w, ('w, 'e) reconciler) controller_builder \<Rightarrow> 'e option) \<Rightarrow>
    ('w, 'e) reconciler \<Rightarrow> 'e option" where
  "reconciler_Setup Complete a = Complete
     \<lparr>cb_For_Predicates = [OnClusterResourceQuotaSpecChange a],
      cb_Watches_Namespace = OnNamespaceChange a, cb_Reconciler = a\<rparr>"

subsection \<open>The reconciliation\<close>

definition selectedNamespaces :: "('w, 'e) reconciler \<Rightarrow> cluster_resource_quota \<Rightarrow> 'w \<Rightarrow>
    ('e + kube_namespace list) \<times> 'w" where
  "selectedNamespaces R crq w =
    (case List_ns (rc_Client R) w of
      (Inl err, w') \<Rightarrow> (Inl err, w')
    | (Inr items, w') \<Rightarrow>
        (case rc_LabelSelectorAsSelector R (crqs_NamespaceSelector (crq_Spec crq)) of
          Inl err \<Rightarrow> (Inl err, w')
        | Inr selector \<Rightarrow>
            (Inr (fold (\<lambda>ns matched. if selector (ns_Labels ns) then matched @ [ns] else matched) items []), w')))"

text \<open>The closure given to \<open>CreateOrUpdate\<close>, on the ClusterResourceQuota and the ResourceQuota.\<close>

definition mutate :: "('w, 'e) reconciler \<Rightarrow> cluster_resource_quota \<times> resource_quota \<Rightarrow>
    'e option \<times> cluster_resource_quota \<times> resource_quota" where
  "mutate R s =
    (case s of (crq, rq) \<Rightarrow>
      let rq = rq\<lparr>rq_ObjectMeta := (rq_ObjectMeta rq)\<lparr>om_Labels := crq_Labels crq,
            om_Annotations := om_Annotations (crq_ObjectMeta crq)\<rparr>\<rparr>;
          labels = (case rq_Labels rq of None \<Rightarrow> [] | Some ls \<Rightarrow> ls);
          labels = mput LabelClusterResourceQuota (crq_Name crq) labels;
          crq = (case crq_Labels crq of
              None \<Rightarrow> crq
            | Some shared \<Rightarrow> crq\<lparr>crq_ObjectMeta := (crq_ObjectMeta crq)\<lparr>om_Labels := Some labels\<rparr>\<rparr>);
          rq = rq\<lparr>rq_ObjectMeta := (rq_ObjectMeta rq)\<lparr>om_Labels := Some labels\<rparr>\<rparr>;
          rq = rq\<lparr>rq_Spec := crqs_ResourceQuotaSpec (crq_Spec crq)\<rparr> in
      (case rc_SetOwnerReference R crq rq of (err, rq) \<Rightarrow> (err, crq, rq)))"

text \<open>The variables of the loop of \<open>syncResourceQuota\<close>.\<close>

record 'e sync_state =
  ss_ClusterResourceQuota :: cluster_resource_quota
  ss_totalUsage :: resource_list
  ss_namespaceUsage :: "namespace_resource_quota list"
  ss_errs :: "'e list"

definition sync_namespace :: "('w, 'e) reconciler \<Rightarrow> kube_namespace \<Rightarrow> 'e sync_state \<times> 'w \<Rightarrow> 'e sync_state \<times> 'w" where
  "sync_namespace R ns s =
    (case s of (st, w) \<Rightarrow>
      let resourceQuota = empty_resource_quota\<lparr>rq_ObjectMeta := empty_object_meta\<lparr>
            om_Name := crq_Name (ss_ClusterResourceQuota st), om_Namespace := ns_Name ns\<rparr>\<rparr> in
      (case CreateOrUpdate (rc_Client R) (mutate R) (ss_ClusterResourceQuota st, resourceQuota) w of
        ((Some err, crq, rq), w') \<Rightarrow>
          (st\<lparr>ss_ClusterResourceQuota := crq, ss_errs := ss_errs st @ [err]\<rparr>, w')
      | ((None, crq, rq), w') \<Rightarrow>
          (st\<lparr>ss_ClusterResourceQuota := crq,
              ss_totalUsage := qAdd (rc_Quota R) (ss_totalUsage st) (rq_Status_Used rq),
              ss_namespaceUsage := ss_namespaceUsage st @
                [\<lparr>nrq_Name = ns_Name ns, nrq_Used = rq_Status_Used rq\<rparr>]\<rparr>, w')))"

definition zero_usage :: "resource_list \<Rightarrow> resource_list" where
  "zero_usage hard = fold (\<lambda>(resourceName, _). mput resourceName (Quantity 0)) hard []"

definition syncResourceQuota :: "('w, 'e) reconciler \<Rightarrow> cluster_resource_quota \<Rightarrow> 'w \<Rightarrow>
    'e option \<times> cluster_resource_quota \<times> 'w" where
  "syncResourceQuota R crq w =
    (case selectedNamespaces R crq w of
      (Inl err, w') \<Rightarrow> (Some err, crq, w')
    | (Inr matchedNamespaces, w') \<Rightarrow>
        (case fold (sync_namespace R) matchedNamespaces
            (\<lparr>ss_ClusterResourceQuota = crq, ss_totalUsage = zero_usage (crq_Spec_Hard crq),
              ss_namespaceUsage = [], ss_errs = []\<rparr>, w') of
          (st, w'') \<Rightarrow>
            let crq = set_crq_Namespaces (ss_namespaceUsage st) (ss_ClusterResourceQuota st);
                crq = set_crq_Hard (crq_Spec_Hard crq) crq;
                crq = set_crq_Used (ss_totalUsage st) crq in
            (NewAggregate (rc_Errors R) (ss_errs st), crq, w'')))"

definition Reconcile :: "('w, 'e) reconciler \<Rightarrow> request \<Rightarrow> 'w \<Rightarrow> 'e option \<times> 'w" where
  "Reconcile R req w =
    (case Get_crq (rc_Client R) (req_Name req) w of
      (Inl err, w') \<Rightarrow> if IsNotFound (rc_Errors R) err then (None, w') else (Some err, w')
    | (Inr crq, w') \<Rightarrow>
        if crq_DeletionTimestamp crq \<noteq> None then (None, w')
        else
          (case syncResourceQuota R crq w' of
            (Some err, crq', w'') \<Rightarrow> (Some err, w'')
          | (None, crq', w'') \<Rightarrow> Status_Update (rc_Client R) crq' w''))"

subsection \<open>Lemmas\<close>

text \<open>Whether a ClusterResourceQuota selects a namespace; a selector with an error selects none.\<close>

definition selects :: "('w, 'e) reconciler \<Rightarrow> cluster_resource_quota \<Rightarrow> kube_namespace \<Rightarrow> bool" where
  "selects R crq ns =
    (case rc_LabelSelectorAsSelector R (crqs_NamespaceSelector (crq_Spec crq)) of
      Inl err \<Rightarrow> False | Inr sel \<Rightarrow> sel (ns_Labels ns))"

lemma OnNamespaceChange_eq:
  "OnNamespaceChange R (Some ns) w =
    (case List_crq (rc_Client R) w of
      (Inl err, w') \<Rightarrow> ([], w')
    | (Inr items, w') \<Rightarrow> (map ObjectKeyFromObject (filter (\<lambda>crq. selects R crq ns) items), w'))"
proof -
  have eq: "(\<lambda>crq requests. case rc_LabelSelectorAsSelector R (crqs_NamespaceSelector (crq_Spec crq)) of
      Inl err \<Rightarrow> requests
    | Inr sel \<Rightarrow> if sel (ns_Labels ns) then requests @ [ObjectKeyFromObject crq] else requests) =
    (\<lambda>crq requests. if selects R crq ns then requests @ [ObjectKeyFromObject crq] else requests)"
    by (auto simp: selects_def fun_eq_iff split: sum.split)
  show ?thesis
    unfolding OnNamespaceChange_def option.case eq fold_append_filter append_Nil ..
qed

lemma selects_Inr:
  "rc_LabelSelectorAsSelector R (crqs_NamespaceSelector (crq_Spec crq)) = Inr sel \<Longrightarrow>
   selects R crq = (\<lambda>ns. sel (ns_Labels ns))"
  by (simp add: selects_def fun_eq_iff)

lemma selectedNamespaces_Inr:
  "selectedNamespaces R crq w = (Inr matched, w') \<longleftrightarrow>
    (\<exists>items sel. List_ns (rc_Client R) w = (Inr items, w') \<and>
      rc_LabelSelectorAsSelector R (crqs_NamespaceSelector (crq_Spec crq)) = Inr sel \<and>
      matched = filter (selects R crq) items)"
proof -
  have "fold (\<lambda>ns matched. if sel (ns_Labels ns) then matched @ [ns] else matched) items [] =
      filter (\<lambda>ns. sel (ns_Labels ns)) items" for sel items
    using fold_append_filter [of "\<lambda>ns. sel (ns_Labels ns)" "\<lambda>ns. ns" items "[]"] by simp
  then show ?thesis
    by (auto simp: selectedNamespaces_def selects_Inr split: prod.splits sum.splits)
qed

text \<open>Two ClusterResourceQuotas that differ in their labels only.\<close>

definition same_but_labels :: "cluster_resource_quota \<Rightarrow> cluster_resource_quota \<Rightarrow> bool" where
  "same_but_labels c c' \<longleftrightarrow>
    (\<exists>ls. c' = c\<lparr>crq_ObjectMeta := (crq_ObjectMeta c)\<lparr>om_Labels := ls\<rparr>\<rparr>)"

lemma same_but_labels_fields:
  "same_but_labels c c' \<Longrightarrow> crq_Spec c' = crq_Spec c \<and> crq_Status c' = crq_Status c \<and> crq_Name c' = crq_Name c"
  by (auto simp: same_but_labels_def)

lemma same_but_labels_refl: "same_but_labels c c"
  unfolding same_but_labels_def by (intro exI [of _ "crq_Labels c"]) simp

lemma same_but_labels_trans: "same_but_labels a b \<Longrightarrow> same_but_labels b c \<Longrightarrow> same_but_labels a c"
  by (auto simp: same_but_labels_def)

lemma mutate_crq:
  "fst (snd (mutate R (c, q))) =
    (case crq_Labels c of
      None \<Rightarrow> c
    | Some ls \<Rightarrow> c\<lparr>crq_ObjectMeta := (crq_ObjectMeta c)\<lparr>om_Labels :=
        Some (mput LabelClusterResourceQuota (crq_Name c) ls)\<rparr>\<rparr>)"
  by (auto simp: mutate_def Let_def split: prod.split option.split)

lemma mutate_same: "same_but_labels c (fst (snd (mutate R (c, q))))"
  by (auto simp: mutate_crq same_but_labels_refl split: option.split)
    (auto simp: same_but_labels_def)

lemma mutate_quota:
  assumes "ownership (rc_SetOwnerReference R)"
  shows "rq_Spec (snd (snd (mutate R (c, q)))) = crqs_ResourceQuotaSpec (crq_Spec c)"
    and "rq_Labels (snd (snd (mutate R (c, q)))) =
      Some (mput LabelClusterResourceQuota (crq_Name c) (case crq_Labels c of None \<Rightarrow> [] | Some ls \<Rightarrow> ls))"
    and "rq_Namespace (snd (snd (mutate R (c, q)))) = rq_Namespace q"
    and "om_Annotations (rq_ObjectMeta (snd (snd (mutate R (c, q))))) = om_Annotations (crq_ObjectMeta c)"
    and "rq_Status (snd (snd (mutate R (c, q)))) = rq_Status q"
  unfolding mutate_def Let_def prod.case split_beta fst_conv snd_conv ownership.owner_keeps [OF assms]
  by (simp_all split: option.split)

definition usage_sum :: "namespace_resource_quota list \<Rightarrow> string \<Rightarrow> quantity" where
  "usage_sum es k = sum_list (map (\<lambda>e. rval (nrq_Used e) k) es)"

lemma zero_usage_lookup: "map_of (zero_usage hard) k = (if map_of hard k = None then None else Some 0)"
proof -
  have "map_of (fold (\<lambda>(n, _). mput n (Quantity 0)) hard m) k =
      (if map_of hard k = None then map_of m k else Some 0)" for m
    by (induction hard arbitrary: m) (auto simp: gomap_simps)
  then show ?thesis
    by (simp add: zero_usage_def)
qed

text \<open>All the contracts the reconciler is used under.\<close>

locale controller_env =
  api_server "rc_Client R" stored + quota_arith "rc_Quota R" + api_errors "rc_Errors R" +
  ownership "rc_SetOwnerReference R"
  for R :: "('w, 'e) reconciler" and stored :: "'w \<Rightarrow> string \<Rightarrow> cluster_resource_quota option"
begin

lemma sync_namespace_effect:
  assumes "sync_namespace R ns (st, w) = (st', w')"
  shows "same_but_labels (ss_ClusterResourceQuota st) (ss_ClusterResourceQuota st')"
    and "stored w' = stored w"
    and "(\<exists>err. ss_errs st' = ss_errs st @ [err] \<and> ss_namespaceUsage st' = ss_namespaceUsage st \<and>
        ss_totalUsage st' = ss_totalUsage st) \<or>
      (\<exists>used. ss_errs st' = ss_errs st \<and>
        ss_namespaceUsage st' = ss_namespaceUsage st @ [\<lparr>nrq_Name = ns_Name ns, nrq_Used = used\<rparr>] \<and>
        ss_totalUsage st' = qAdd (rc_Quota R) (ss_totalUsage st) used)"
proof -
  define q where "q = empty_resource_quota\<lparr>rq_ObjectMeta := empty_object_meta\<lparr>
      om_Name := crq_Name (ss_ClusterResourceQuota st), om_Namespace := ns_Name ns\<rparr>\<rparr>"
  obtain r c' q' w1 where run:
      "CreateOrUpdate (rc_Client R) (mutate R) (ss_ClusterResourceQuota st, q) w = ((r, c', q'), w1)"
    by (metis prod_cases3 surj_pair)
  have c': "ss_ClusterResourceQuota st' = c'" and w': "w' = w1"
    using assms run by (auto simp: sync_namespace_def q_def Let_def split: option.splits)
  show "same_but_labels (ss_ClusterResourceQuota st) (ss_ClusterResourceQuota st')"
    using create_crq [OF run] mutate_same same_but_labels_refl unfolding c' by metis
  show "stored w' = stored w"
    using create_stored [of "mutate R" "(ss_ClusterResourceQuota st, q)" w] run w' by simp
  show "(\<exists>err. ss_errs st' = ss_errs st @ [err] \<and> ss_namespaceUsage st' = ss_namespaceUsage st \<and>
        ss_totalUsage st' = ss_totalUsage st) \<or>
      (\<exists>used. ss_errs st' = ss_errs st \<and>
        ss_namespaceUsage st' = ss_namespaceUsage st @ [\<lparr>nrq_Name = ns_Name ns, nrq_Used = used\<rparr>] \<and>
        ss_totalUsage st' = qAdd (rc_Quota R) (ss_totalUsage st) used)"
    using assms run by (auto simp: sync_namespace_def q_def Let_def split: option.splits)
qed

lemma sync_fold_effect:
  assumes "fold (sync_namespace R) nss (st, w) = (st', w')"
  shows "same_but_labels (ss_ClusterResourceQuota st) (ss_ClusterResourceQuota st') \<and> stored w' = stored w \<and>
    (\<exists>new errs. ss_namespaceUsage st' = ss_namespaceUsage st @ new \<and> ss_errs st' = ss_errs st @ errs \<and>
      length new + length errs = length nss \<and> subseq (map nrq_Name new) (map ns_Name nss) \<and>
      (\<forall>k. rval (ss_totalUsage st') k = rval (ss_totalUsage st) k + usage_sum new k) \<and>
      (\<forall>k. map_of (ss_totalUsage st) k \<noteq> None \<longrightarrow> map_of (ss_totalUsage st') k \<noteq> None))"
  using assms
proof (induction nss arbitrary: st w)
  case Nil
  then show ?case
    by (auto simp: same_but_labels_refl usage_sum_def)
next
  case (Cons ns nss)
  obtain st1 w1 where step: "sync_namespace R ns (st, w) = (st1, w1)"
    by fastforce
  note eff = sync_namespace_effect [OF step]
  obtain new errs where rest: "same_but_labels (ss_ClusterResourceQuota st1) (ss_ClusterResourceQuota st')"
    "stored w' = stored w1" "ss_namespaceUsage st' = ss_namespaceUsage st1 @ new"
    "ss_errs st' = ss_errs st1 @ errs" "length new + length errs = length nss"
    "subseq (map nrq_Name new) (map ns_Name nss)"
    "\<And>k. rval (ss_totalUsage st') k = rval (ss_totalUsage st1) k + usage_sum new k"
    "\<And>k. map_of (ss_totalUsage st1) k \<noteq> None \<Longrightarrow> map_of (ss_totalUsage st') k \<noteq> None"
    using Cons.IH [of st1 w1] Cons.prems step by auto
  have base: "same_but_labels (ss_ClusterResourceQuota st) (ss_ClusterResourceQuota st')" "stored w' = stored w"
    using eff(1,2) rest(1,2) same_but_labels_trans by auto
  from eff(3) show ?case
  proof (elim disjE exE conjE)
    fix err
    assume "ss_errs st1 = ss_errs st @ [err]" "ss_namespaceUsage st1 = ss_namespaceUsage st"
      "ss_totalUsage st1 = ss_totalUsage st"
    then show ?thesis
      using base rest(3-8) by (intro conjI exI [of _ new] exI [of _ "err # errs"]) auto
  next
    fix used
    assume *: "ss_errs st1 = ss_errs st"
      "ss_namespaceUsage st1 = ss_namespaceUsage st @ [\<lparr>nrq_Name = ns_Name ns, nrq_Used = used\<rparr>]"
      "ss_totalUsage st1 = qAdd (rc_Quota R) (ss_totalUsage st) used"
    then have "map_of (ss_totalUsage st) k \<noteq> None \<Longrightarrow> map_of (ss_totalUsage st') k \<noteq> None" for k
      using rest(8) [of k] Add_None_iff by auto
    with * show ?thesis
      using base rest(3-7)
      by (intro conjI exI [of _ "\<lparr>nrq_Name = ns_Name ns, nrq_Used = used\<rparr> # new"] exI [of _ errs])
        (auto simp: usage_sum_def add.assoc)
  qed
qed

lemma syncResourceQuota_effect:
  assumes "syncResourceQuota R crq w = (r, crq', w')"
  shows "stored w' = stored w"
    and "selectedNamespaces R crq w = (Inr matched, w1) \<Longrightarrow>
      \<exists>errs. r = NewAggregate (rc_Errors R) errs \<and>
        length (crq_Status_Namespaces crq') + length errs = length matched \<and>
        subseq (map nrq_Name (crq_Status_Namespaces crq')) (map ns_Name matched) \<and>
        crq_Name crq' = crq_Name crq \<and> crq_Status_Hard crq' = crq_Spec_Hard crq \<and>
        (\<forall>k. rval (crq_Status_Used crq') k = usage_sum (crq_Status_Namespaces crq') k) \<and>
        (\<forall>k. map_of (crq_Spec_Hard crq) k \<noteq> None \<longrightarrow> map_of (crq_Status_Used crq') k \<noteq> None)"
proof -
  let ?st0 = "\<lparr>ss_ClusterResourceQuota = crq, ss_totalUsage = zero_usage (crq_Spec_Hard crq),
    ss_namespaceUsage = [], ss_errs = []\<rparr> :: 'e sync_state"
  have list: "stored (snd (selectedNamespaces R crq w)) = stored w"
    using list_ns_stored [of w] by (auto simp: selectedNamespaces_def split: prod.split sum.split)
  have run: "\<exists>st. fold (sync_namespace R) matched (?st0, w1) = (st, w') \<and>
      r = NewAggregate (rc_Errors R) (ss_errs st) \<and>
      crq' = set_crq_Used (ss_totalUsage st) (set_crq_Hard (crq_Spec_Hard (ss_ClusterResourceQuota st))
        (set_crq_Namespaces (ss_namespaceUsage st) (ss_ClusterResourceQuota st)))"
    if "selectedNamespaces R crq w = (Inr matched, w1)" for matched w1
    using assms that by (auto simp: syncResourceQuota_def Let_def split: prod.splits)
  show "stored w' = stored w"
  proof (cases "selectedNamespaces R crq w")
    case (Pair sel w1)
    show ?thesis
    proof (cases sel)
      case (Inl e)
      then show ?thesis
        using assms Pair list by (simp add: syncResourceQuota_def)
    next
      case (Inr matched)
      then obtain st where "fold (sync_namespace R) matched (?st0, w1) = (st, w')"
        using run Pair by blast
      from sync_fold_effect [OF this] show ?thesis
        using list Pair by simp
    qed
  qed
  assume "selectedNamespaces R crq w = (Inr matched, w1)"
  then obtain st where fold: "fold (sync_namespace R) matched (?st0, w1) = (st, w')"
    and res: "r = NewAggregate (rc_Errors R) (ss_errs st)"
      "crq' = set_crq_Used (ss_totalUsage st) (set_crq_Hard (crq_Spec_Hard (ss_ClusterResourceQuota st))
        (set_crq_Namespaces (ss_namespaceUsage st) (ss_ClusterResourceQuota st)))"
    using run by blast
  have "rval (zero_usage (crq_Spec_Hard crq)) k = 0" for k
    by (simp add: rval_def zero_usage_lookup)
  then show "\<exists>errs. r = NewAggregate (rc_Errors R) errs \<and>
        length (crq_Status_Namespaces crq') + length errs = length matched \<and>
        subseq (map nrq_Name (crq_Status_Namespaces crq')) (map ns_Name matched) \<and>
        crq_Name crq' = crq_Name crq \<and> crq_Status_Hard crq' = crq_Spec_Hard crq \<and>
        (\<forall>k. rval (crq_Status_Used crq') k = usage_sum (crq_Status_Namespaces crq') k) \<and>
        (\<forall>k. map_of (crq_Spec_Hard crq) k \<noteq> None \<longrightarrow> map_of (crq_Status_Used crq') k \<noteq> None)"
    using sync_fold_effect [OF fold] same_but_labels_fields [of crq "ss_ClusterResourceQuota st"]
    by (auto simp: res zero_usage_lookup)
qed

end

text \<open>
  The loop of \<open>syncResourceQuota\<close> starts with \<open>loop_start\<close>; \<open>loop_world\<close> is the world when it comes to the
  \<open>i\<close>-th matched namespace. \<open>shown_used\<close> is the usage that the server shows for a namespace: that in the status
  of its ResourceQuota of the given name, nothing if it has none.
\<close>

definition loop_start :: "cluster_resource_quota \<Rightarrow> 'e sync_state" where
  "loop_start crq = \<lparr>ss_ClusterResourceQuota = crq, ss_totalUsage = zero_usage (crq_Spec_Hard crq),
     ss_namespaceUsage = [], ss_errs = []\<rparr>"

definition loop_world :: "('w, 'e) reconciler \<Rightarrow> cluster_resource_quota \<Rightarrow> kube_namespace list \<Rightarrow> 'w \<Rightarrow> nat \<Rightarrow> 'w" where
  "loop_world R crq matched w i = snd (fold (sync_namespace R) (take i matched) (loop_start crq, w))"

definition shown_used :: "(string \<times> string \<Rightarrow> resource_quota option) \<Rightarrow> string \<Rightarrow> string \<Rightarrow> resource_list" where
  "shown_used v n ns = rqst_Used (status_of (v (ns, n)))"

text \<open>The loop over a server of which the client sees the ResourceQuotas.\<close>

locale controller_view =
  controller_env R stored + quota_view "rc_Client R" shown
  for R :: "('w, 'e) reconciler" and stored :: "'w \<Rightarrow> string \<Rightarrow> cluster_resource_quota option"
    and shown :: "'w \<Rightarrow> string \<times> string \<Rightarrow> resource_quota option"
begin

lemma mutate_keeps_status: "keeps_status (mutate R)"
  using mutate_quota(5) [OF ownership_axioms] by auto

lemma sync_namespace_usage:
  assumes "sync_namespace R ns (st, w) = (st', w')" and "ss_errs st' = ss_errs st"
  shows "ss_namespaceUsage st' = ss_namespaceUsage st @ [\<lparr>nrq_Name = ns_Name ns,
    nrq_Used = shown_used (shown w) (crq_Name (ss_ClusterResourceQuota st)) (ns_Name ns)\<rparr>]"
proof -
  define q where "q = empty_resource_quota\<lparr>rq_ObjectMeta := empty_object_meta\<lparr>
      om_Name := crq_Name (ss_ClusterResourceQuota st), om_Namespace := ns_Name ns\<rparr>\<rparr>"
  obtain r c' q' w1 where run:
      "CreateOrUpdate (rc_Client R) (mutate R) (ss_ClusterResourceQuota st, q) w = ((r, c', q'), w1)"
    by (metis prod_cases3 surj_pair)
  then have "r = None" and st': "ss_namespaceUsage st' =
      ss_namespaceUsage st @ [\<lparr>nrq_Name = ns_Name ns, nrq_Used = rq_Status_Used q'\<rparr>]"
    using assms by (auto simp: sync_namespace_def q_def Let_def split: option.splits)
  have "rq_Status q' = status_of (shown w (quota_key q))"
    using create_status [OF run [unfolded \<open>r = None\<close>] mutate_keeps_status]
    by (simp add: q_def empty_resource_quota_def)
  then show ?thesis
    by (simp add: st' shown_used_def quota_key_def q_def)
qed

lemma sync_fold_usage:
  assumes "fold (sync_namespace R) nss (st, w) = (st', w')" and "ss_errs st' = ss_errs st"
  shows "ss_namespaceUsage st' = ss_namespaceUsage st @ map (\<lambda>i. \<lparr>nrq_Name = ns_Name (nss ! i),
    nrq_Used = shown_used (shown (snd (fold (sync_namespace R) (take i nss) (st, w))))
      (crq_Name (ss_ClusterResourceQuota st)) (ns_Name (nss ! i))\<rparr>) [0..<length nss]"
  using assms
proof (induction nss arbitrary: st w)
  case (Cons ns nss)
  obtain st1 w1 where step: "sync_namespace R ns (st, w) = (st1, w1)"
    by fastforce
  note eff = sync_namespace_effect [OF step]
  have rest: "fold (sync_namespace R) nss (st1, w1) = (st', w')"
    using Cons.prems(1) step by simp
  obtain errs where "ss_errs st' = ss_errs st1 @ errs"
    using sync_fold_effect [OF rest] by blast
  then have errs: "ss_errs st' = ss_errs st1" "ss_errs st1 = ss_errs st"
    using Cons.prems(2) eff(3) by auto
  have name: "crq_Name (ss_ClusterResourceQuota st1) = crq_Name (ss_ClusterResourceQuota st)"
    using same_but_labels_fields [OF eff(1)] by simp
  show ?case
    using Cons.IH [OF rest errs(1)] sync_namespace_usage [OF step errs(2)]
    by (simp add: name step upt_conv_Cons map_Suc_upt [symmetric] comp_def del: upt_Suc map_Suc_upt)
qed simp

end

text \<open>The same loop while nobody else writes ResourceQuotas.\<close>

locale quiet_controller =
  controller_view R stored shown + quiet_quota_view "rc_Client R" shown
  for R :: "('w, 'e) reconciler" and stored :: "'w \<Rightarrow> string \<Rightarrow> cluster_resource_quota option"
    and shown :: "'w \<Rightarrow> string \<times> string \<Rightarrow> resource_quota option"
begin

lemma sync_namespace_quiet:
  assumes "sync_namespace R ns (st, w) = (st', w')" and "n = crq_Name (ss_ClusterResourceQuota st)"
  shows "k \<noteq> (ns_Name ns, n) \<Longrightarrow> shown w' k = shown w k"
    and "ss_errs st' = ss_errs st \<Longrightarrow> \<exists>q. shown w' (ns_Name ns, n) = Some q \<and>
      rq_Status_Used q = shown_used (shown w) n (ns_Name ns) \<and> managed_by (rq_Labels q) = n"
proof -
  define q where "q = empty_resource_quota\<lparr>rq_ObjectMeta := empty_object_meta\<lparr>
      om_Name := crq_Name (ss_ClusterResourceQuota st), om_Namespace := ns_Name ns\<rparr>\<rparr>"
  have key: "quota_key q = (ns_Name ns, n)"
    by (simp add: q_def quota_key_def assms(2))
  obtain r c' q' w1 where run:
      "CreateOrUpdate (rc_Client R) (mutate R) (ss_ClusterResourceQuota st, q) w = ((r, c', q'), w1)"
    by (metis prod_cases3 surj_pair)
  have w': "w' = w1"
    using assms run by (auto simp: sync_namespace_def q_def Let_def split: option.splits)
  show "shown w' k = shown w k" if "k \<noteq> (ns_Name ns, n)"
    using create_frame [of k q "mutate R" "ss_ClusterResourceQuota st" w] that run w' key by simp
  assume "ss_errs st' = ss_errs st"
  then have none: "r = None"
    using assms run by (auto simp: sync_namespace_def q_def Let_def split: option.splits)
  note run = run [unfolded none]
  have "rq_Status q' = status_of (shown w (quota_key q))"
    using create_status [OF run mutate_keeps_status] by (simp add: q_def empty_resource_quota_def)
  moreover have "managed_by (rq_Labels q') = n"
    using create_ran [OF run] assms(2)
    by (auto simp: mutate_quota(2) [OF ownership_axioms] mstr_def gomap_simps)
  ultimately show "\<exists>q. shown w' (ns_Name ns, n) = Some q \<and>
      rq_Status_Used q = shown_used (shown w) n (ns_Name ns) \<and> managed_by (rq_Labels q) = n"
    using create_shows [OF run] by (auto simp: key w' shown_used_def)
qed

lemma sync_fold_frame:
  assumes "fold (sync_namespace R) nss (st, w) = (st', w')" and "n = crq_Name (ss_ClusterResourceQuota st)"
    and "k \<notin> (\<lambda>ns. (ns_Name ns, n)) ` set nss"
  shows "shown w' k = shown w k"
  using assms
proof (induction nss arbitrary: st w)
  case (Cons ns nss)
  obtain st1 w1 where step: "sync_namespace R ns (st, w) = (st1, w1)"
    by fastforce
  have "n = crq_Name (ss_ClusterResourceQuota st1)"
    using same_but_labels_fields [OF sync_namespace_effect(1) [OF step]] Cons.prems(2) by simp
  then show ?case
    using Cons.IH [of st1 w1] Cons.prems step sync_namespace_quiet(1) [OF step Cons.prems(2), of k] by simp
qed simp

text \<open>After a loop without an error, the ResourceQuota of every matched namespace is there, with its usage.\<close>

lemma sync_fold_quiet:
  assumes "fold (sync_namespace R) nss (st, w) = (st', w')" and "n = crq_Name (ss_ClusterResourceQuota st)"
    and "ss_errs st' = ss_errs st" and "distinct (map ns_Name nss)"
  shows "ss_namespaceUsage st' = ss_namespaceUsage st @ map (\<lambda>ns. \<lparr>nrq_Name = ns_Name ns,
      nrq_Used = shown_used (shown w) n (ns_Name ns)\<rparr>) nss \<and>
    (\<forall>ns \<in> set nss. \<exists>q. shown w' (ns_Name ns, n) = Some q \<and>
      rq_Status_Used q = shown_used (shown w) n (ns_Name ns) \<and> managed_by (rq_Labels q) = n)"
  using assms
proof (induction nss arbitrary: st w)
  case (Cons ns nss)
  obtain st1 w1 where step: "sync_namespace R ns (st, w) = (st1, w1)"
    by fastforce
  note eff = sync_namespace_effect [OF step] and quiet = sync_namespace_quiet [OF step Cons.prems(2)]
  have rest: "fold (sync_namespace R) nss (st1, w1) = (st', w')"
    using Cons.prems(1) step by simp
  have name: "n = crq_Name (ss_ClusterResourceQuota st1)"
    using same_but_labels_fields [OF eff(1)] Cons.prems(2) by simp
  obtain errs where "ss_errs st' = ss_errs st1 @ errs"
    using sync_fold_effect [OF rest] by blast
  then have errs: "ss_errs st' = ss_errs st1" "ss_errs st1 = ss_errs st"
    using Cons.prems(3) eff(3) by auto
  have here: "shown w' (ns_Name ns, n) = shown w1 (ns_Name ns, n)"
    using sync_fold_frame [OF rest name] Cons.prems(4) by auto
  have later: "shown_used (shown w1) n (ns_Name m) = shown_used (shown w) n (ns_Name m)" if "m \<in> set nss" for m
  proof -
    have "ns_Name ns \<notin> ns_Name ` set nss"
      using Cons.prems(4) by simp
    moreover have "ns_Name m \<in> ns_Name ` set nss"
      using that by (rule imageI)
    ultimately have "ns_Name m \<noteq> ns_Name ns"
      by auto
    then show ?thesis
      using quiet(1) [of "(ns_Name m, n)"] by (simp add: shown_used_def)
  qed
  have own: "\<exists>q. shown w' (ns_Name ns, n) = Some q \<and>
      rq_Status_Used q = shown_used (shown w) n (ns_Name ns) \<and> managed_by (rq_Labels q) = n"
    unfolding here using quiet(2) [OF errs(2)] .
  have "distinct (map ns_Name nss)"
    using Cons.prems(4) by simp
  from Cons.IH [OF rest name errs(1) this] own later
    sync_namespace_usage [OF step errs(2), folded Cons.prems(2)] show ?case
    by simp
qed simp

end

subsubsection \<open>A run in memory, for the witnesses\<close>

definition ref_LabelSelectorAsSelector :: "ref_error selector_lib" where
  "ref_LabelSelectorAsSelector s =
    (case s of
      None \<Rightarrow> Inr (\<lambda>_. False)
    | Some sel \<Rightarrow>
        if ls_MatchExpressions sel = [] then
          Inr (\<lambda>ls. list_all (\<lambda>(k, v). map_of ls k = Some v) (ls_MatchLabels sel))
        else Inl (RPlain ''invalid label selector operator''))"

definition ref_reconciler :: "(mem_world, ref_error) reconciler" where
  "ref_reconciler = \<lparr>rc_Client = mem_client, rc_Errors = ref_errs, rc_Quota = ref_quota,
     rc_LabelSelectorAsSelector = ref_LabelSelectorAsSelector,
     rc_SetOwnerReference = ref_SetOwnerReference, rc_DeepEqual = (=)\<rparr>"

lemma ref_reconciler_fields [simp]:
  "rc_Client ref_reconciler = mem_client" "rc_Errors ref_reconciler = ref_errs"
  "rc_Quota ref_reconciler = ref_quota" "rc_SetOwnerReference ref_reconciler = ref_SetOwnerReference"
  "rc_LabelSelectorAsSelector ref_reconciler = ref_LabelSelectorAsSelector"
  "rc_DeepEqual ref_reconciler = (=)"
  by (simp_all add: ref_reconciler_def)

lemma controller_env_ref: "controller_env ref_reconciler mem_stored"
  unfolding controller_env_def ref_reconciler_fields
  by (intro conjI mem.api_server_axioms ref_quota.quota_arith_axioms ref_errs.api_errors_axioms
      ref_owner.ownership_axioms)

interpretation ref_controller: quiet_controller ref_reconciler mem_stored mem_shown
  unfolding quiet_controller_def controller_view_def ref_reconciler_fields
  using controller_env_ref mem_quotas.quiet_quota_view_axioms mem_quotas.quota_view_axioms by simp

definition demo_ns :: "string \<Rightarrow> string \<Rightarrow> kube_namespace" where
  "demo_ns n team = \<lparr>ns_ObjectMeta = empty_object_meta\<lparr>om_Name := n, om_Labels := Some [(''team'', team)]\<rparr>\<rparr>"

definition team_crq :: cluster_resource_quota where
  "team_crq = (demo_crq 10)\<lparr>crq_Spec := \<lparr>crqs_ResourceQuotaSpec =
      empty_rq_spec\<lparr>rqs_Hard := [(''cpu'', Quantity 10), (''pods'', Quantity 4)]\<rparr>,
     crqs_NamespaceSelector = Some \<lparr>ls_MatchLabels = [(''team'', ''a'')], ls_MatchExpressions = []\<rparr>\<rparr>\<rparr>"

definition team_world :: mem_world where
  "team_world = \<lparr>mw_crqs = [(''team'', team_crq)],
     mw_rqs = [((''ns1'', ''team''), demo_quota ''team'' ''ns1'' 3), ((''ns3'', ''team''), demo_quota ''team'' ''ns3'' 2)],
     mw_nss = [demo_ns ''ns1'' ''a'', demo_ns ''ns2'' ''b'', demo_ns ''ns3'' ''a''], mw_clock = 500\<rparr>"

definition team_request :: request where
  "team_request = \<lparr>req_Namespace = [], req_Name = ''team''\<rparr>"

lemma team_get:
  "Get_crq (rc_Client ref_reconciler) (req_Name team_request) team_world = (Inr team_crq, team_world)"
  by (simp add: mem_client_def mem_get_def team_world_def team_request_def team_crq_def demo_crq_def)

definition team_reconciled :: mem_world where
  "team_reconciled = snd (Reconcile ref_reconciler team_request team_world)"

lemma team_Reconcile: "Reconcile ref_reconciler team_request team_world = (None, team_reconciled)"
  unfolding team_reconciled_def by code_simp

subsection \<open>A reconciliation without errors\<close>

lemma Reconcile_effect:
  assumes "controller_env R stored" and "Get_crq (rc_Client R) (req_Name req) w = (Inr crq, w1)"
    and "crq_DeletionTimestamp crq = None" and "Reconcile R req w = (None, w')"
  shows "\<exists>items w2 s. List_ns (rc_Client R) w1 = (Inr items, w2) \<and>
    stored w' (req_Name req) = Some s \<and>
    map nrq_Name (crq_Status_Namespaces s) = map ns_Name (filter (selects R crq) items) \<and>
    crq_Status_Hard s = crq_Spec_Hard crq \<and>
    (\<forall>k. rval (crq_Status_Used s) k = usage_sum (crq_Status_Namespaces s) k) \<and>
    (\<forall>k. map_of (crq_Spec_Hard crq) k \<noteq> None \<longrightarrow> map_of (crq_Status_Used s) k \<noteq> None) \<and>
    (\<forall>n. n \<noteq> req_Name req \<longrightarrow> stored w' n = stored w n)"
proof -
  have api: "api_server (rc_Client R) stored" and errs: "api_errors (rc_Errors R)"
    using assms(1) by (simp_all add: controller_env_def)
  obtain crq' w2 where sync: "syncResourceQuota R crq w1 = (None, crq', w2)"
    and upd: "Status_Update (rc_Client R) crq' w2 = (None, w')"
    using assms(2-4) by (auto simp: Reconcile_def split: prod.splits option.splits)
  obtain matched w3 where sel: "selectedNamespaces R crq w1 = (Inr matched, w3)"
    using sync by (auto simp: syncResourceQuota_def split: prod.splits sum.splits)
  then obtain items where items: "List_ns (rc_Client R) w1 = (Inr items, w3)"
    and matched: "matched = filter (selects R crq) items"
    by (auto simp: selectedNamespaces_Inr)
  obtain es where eff: "None = NewAggregate (rc_Errors R) es"
    "length (crq_Status_Namespaces crq') + length es = length matched"
    "subseq (map nrq_Name (crq_Status_Namespaces crq')) (map ns_Name matched)"
    "crq_Name crq' = crq_Name crq" "crq_Status_Hard crq' = crq_Spec_Hard crq"
    "\<forall>k. rval (crq_Status_Used crq') k = usage_sum (crq_Status_Namespaces crq') k"
    "\<forall>k. map_of (crq_Spec_Hard crq) k \<noteq> None \<longrightarrow> map_of (crq_Status_Used crq') k \<noteq> None"
    using controller_env.syncResourceQuota_effect(2) [OF assms(1) sync sel] by blast
  have "es = []"
    using eff(1) api_errors.aggregate_None [OF errs, of es] by simp
  then have names: "map nrq_Name (crq_Status_Namespaces crq') = map ns_Name matched"
    using eff(2) subseq_same_length [OF eff(3)] by simp
  have name: "crq_Name crq' = req_Name req" and stored: "stored w1 = stored w"
    using api_server.get_Some [OF api assms(2)] eff(4) by simp_all
  obtain s where s: "stored w' (crq_Name crq') = Some s" "crq_Status s = crq_Status crq'"
    by (rule api_server.update_Some [OF api upd])
  have "stored w' n = stored w n" if "n \<noteq> req_Name req" for n
    using api_server.update_frame [OF api upd, of n] that name stored
      controller_env.syncResourceQuota_effect(1) [OF assms(1) sync] by simp
  then show ?thesis
    using items matched names eff(5-7) s name by auto
qed

text \<open>The loop that such a reconciliation has run, and what it has written.\<close>

lemma Reconcile_loop:
  assumes "controller_env R stored" and "Get_crq (rc_Client R) (req_Name req) w = (Inr crq, w1)"
    and "crq_DeletionTimestamp crq = None" and "Reconcile R req w = (None, w')"
    and "List_ns (rc_Client R) w1 = (Inr items, w2)" and "stored w' (req_Name req) = Some s"
  obtains st w3 c where "fold (sync_namespace R) (filter (selects R crq) items) (loop_start crq, w2) = (st, w3)"
    and "ss_errs st = []" and "Status_Update (rc_Client R) c w3 = (None, w')"
    and "crq_Status_Namespaces s = ss_namespaceUsage st" and "crq_Name crq = req_Name req"
proof -
  have api: "api_server (rc_Client R) stored" and errs: "api_errors (rc_Errors R)"
    using assms(1) by (simp_all add: controller_env_def)
  obtain crq' w4 where sync: "syncResourceQuota R crq w1 = (None, crq', w4)"
    and upd: "Status_Update (rc_Client R) crq' w4 = (None, w')"
    using assms(2-4) by (auto simp: Reconcile_def split: prod.splits option.splits)
  obtain matched where sel: "selectedNamespaces R crq w1 = (Inr matched, w2)"
    using sync assms(5) by (auto simp: syncResourceQuota_def selectedNamespaces_def split: prod.splits sum.splits)
  then have matched: "matched = filter (selects R crq) items"
    using assms(5) by (auto simp: selectedNamespaces_Inr)
  obtain st where fold: "fold (sync_namespace R) matched (loop_start crq, w2) = (st, w4)"
    and agg: "None = NewAggregate (rc_Errors R) (ss_errs st)"
    and crq': "crq' = set_crq_Used (ss_totalUsage st) (set_crq_Hard (crq_Spec_Hard (ss_ClusterResourceQuota st))
      (set_crq_Namespaces (ss_namespaceUsage st) (ss_ClusterResourceQuota st)))"
    using sync sel by (auto simp: syncResourceQuota_def loop_start_def Let_def split: prod.splits)
  have name: "crq_Name crq = req_Name req"
    using api_server.get_Some(1) [OF api assms(2)] .
  have "crq_Name crq' = crq_Name crq"
    using same_but_labels_fields [of crq "ss_ClusterResourceQuota st"] controller_env.sync_fold_effect [OF assms(1) fold]
    by (simp add: crq' loop_start_def)
  then obtain s' where "stored w' (req_Name req) = Some s'" and "crq_Status s' = crq_Status crq'"
    using api_server.update_Some [OF api upd] name by metis
  then have "crq_Status_Namespaces s = ss_namespaceUsage st"
    using assms(6) by (simp add: crq')
  moreover have "ss_errs st = []"
    using agg api_errors.aggregate_None [OF errs, of "ss_errs st"] by simp
  ultimately show ?thesis
    using that fold upd name unfolding matched by blast
qed

text \<open>Each usage written is the one the client is shown when the loop comes to the namespace.\<close>

lemma Reconcile_usage:
  assumes "controller_env R stored" and "quota_view (rc_Client R) shown"
    and "Get_crq (rc_Client R) (req_Name req) w = (Inr crq, w1)"
    and "crq_DeletionTimestamp crq = None" and "Reconcile R req w = (None, w')"
    and "List_ns (rc_Client R) w1 = (Inr items, w2)" and "stored w' (req_Name req) = Some s"
    and "matched = filter (selects R crq) items"
  shows "map nrq_Used (crq_Status_Namespaces s) = map (\<lambda>i. shown_used
    (shown (loop_world R crq matched w2 i)) (req_Name req) (ns_Name (matched ! i))) [0..<length matched]"
proof -
  obtain st w3 where fold: "fold (sync_namespace R) matched (loop_start crq, w2) = (st, w3)"
    and res: "ss_errs st = []" "crq_Status_Namespaces s = ss_namespaceUsage st" "crq_Name crq = req_Name req"
    using Reconcile_loop [OF assms(1,3-7)] unfolding assms(8) by metis
  have "controller_view R stored shown"
    using assms(1,2) by (simp add: controller_view_def)
  from controller_view.sync_fold_usage [OF this fold] res show ?thesis
    by (simp add: loop_start_def loop_world_def)
qed

text \<open>
  While nobody else writes ResourceQuotas: the usages are those shown at the start, and afterwards every
  matched namespace has its ResourceQuota, labelled, with that usage, and nothing else has changed.
\<close>

lemma Reconcile_quiet:
  assumes "controller_env R stored" and "quiet_quota_view (rc_Client R) shown"
    and "Get_crq (rc_Client R) (req_Name req) w = (Inr crq, w1)"
    and "crq_DeletionTimestamp crq = None" and "Reconcile R req w = (None, w')"
    and "List_ns (rc_Client R) w1 = (Inr items, w2)" and "stored w' (req_Name req) = Some s"
    and "matched = filter (selects R crq) items" and "distinct (map ns_Name matched)" and "n = req_Name req"
  shows "crq_Status_Namespaces s = map (\<lambda>ns. \<lparr>nrq_Name = ns_Name ns,
      nrq_Used = shown_used (shown w) n (ns_Name ns)\<rparr>) matched"
    and "ns \<in> set matched \<Longrightarrow> \<exists>q. shown w' (ns_Name ns, n) = Some q \<and>
      rq_Status_Used q = shown_used (shown w) n (ns_Name ns) \<and> managed_by (rq_Labels q) = n"
    and "k \<notin> (\<lambda>ns. (ns_Name ns, n)) ` set matched \<Longrightarrow> shown w' k = shown w k"
proof -
  obtain st w3 c where fold: "fold (sync_namespace R) matched (loop_start crq, w2) = (st, w3)"
    and upd: "Status_Update (rc_Client R) c w3 = (None, w')"
    and res: "ss_errs st = []" "crq_Status_Namespaces s = ss_namespaceUsage st" "crq_Name crq = req_Name req"
    using Reconcile_loop [OF assms(1,3-7)] unfolding assms(8) by metis
  have quiet: "quiet_controller R stored shown"
    using assms(1,2) by (simp add: quiet_controller_def controller_view_def quiet_quota_view_def)
  have n: "n = crq_Name (ss_ClusterResourceQuota (loop_start crq :: 'b sync_state))"
    using res(3) assms(10) by (simp add: loop_start_def)
  have same: "shown w2 = shown w" "shown w' = shown w3"
    using quiet_quota_view.same_view(1) [OF assms(2,3)] quiet_quota_view.same_view(2) [OF assms(2,6)]
      quiet_quota_view.same_view(3) [OF assms(2) upd] by simp_all
  have errs: "ss_errs st = ss_errs (loop_start crq)" and none: "ss_namespaceUsage (loop_start crq) = []"
    using res(1) by (simp_all add: loop_start_def)
  note loop = quiet_controller.sync_fold_quiet [OF quiet fold n errs assms(9), unfolded none same(1)]
  show "crq_Status_Namespaces s = map (\<lambda>ns. \<lparr>nrq_Name = ns_Name ns,
      nrq_Used = shown_used (shown w) n (ns_Name ns)\<rparr>) matched"
    using loop res(2) by simp
  show "\<exists>q. shown w' (ns_Name ns, n) = Some q \<and>
      rq_Status_Used q = shown_used (shown w) n (ns_Name ns) \<and> managed_by (rq_Labels q) = n"
    if "ns \<in> set matched"
    using loop that unfolding same(2) by blast
  show "shown w' k = shown w k" if "k \<notin> (\<lambda>ns. (ns_Name ns, n)) ` set matched"
    using quiet_controller.sync_fold_frame [OF quiet fold n that] unfolding same .
qed

subsection \<open>Properties\<close>

text \<open>
  C10. Take a ClusterResourceQuota that is there and not being deleted. A reconciliation that returns no error has written
  a status that lists exactly the namespaces the selector matches, in the order the server lists
  them, each with the usage that the status of its own ResourceQuota shows when the loop comes to it, and with
  none if the ResourceQuota is only just being made. \<open>Hard\<close> is the \<open>Hard\<close> of the spec; for every
  resource, \<open>Used\<close> is the sum of the listed usages, and every resource with a hard limit is
  there, if only with zero. No other ClusterResourceQuota on the server is changed.
\<close>
theorem reconcile_writes_the_sum:
  assumes "controller_env R stored" and "quota_view (rc_Client R) shown"
    and "Get_crq (rc_Client R) (req_Name req) w = (Inr crq, w1)"
    and "crq_DeletionTimestamp crq = None" and "Reconcile R req w = (None, w')"
  shows "\<exists>items w2 s. List_ns (rc_Client R) w1 = (Inr items, w2) \<and>
    stored w' (req_Name req) = Some s \<and>
    (let matched = filter (selects R crq) items; us = crq_Status_Namespaces s in
      map nrq_Name us = map ns_Name matched \<and>
      (\<forall>i < length matched. nrq_Used (us ! i) =
        shown_used (shown (loop_world R crq matched w2 i)) (req_Name req) (ns_Name (matched ! i))) \<and>
      crq_Status_Hard s = crq_Spec_Hard crq \<and>
      (\<forall>k. rval (crq_Status_Used s) k = usage_sum us k) \<and>
      (\<forall>k. map_of (crq_Spec_Hard crq) k \<noteq> None \<longrightarrow> map_of (crq_Status_Used s) k \<noteq> None)) \<and>
    (\<forall>n. n \<noteq> req_Name req \<longrightarrow> stored w' n = stored w n)"
proof -
  obtain items w2 s where eff: "List_ns (rc_Client R) w1 = (Inr items, w2)" "stored w' (req_Name req) = Some s"
    "map nrq_Name (crq_Status_Namespaces s) = map ns_Name (filter (selects R crq) items)"
    "crq_Status_Hard s = crq_Spec_Hard crq"
    "\<forall>k. rval (crq_Status_Used s) k = usage_sum (crq_Status_Namespaces s) k"
    "\<forall>k. map_of (crq_Spec_Hard crq) k \<noteq> None \<longrightarrow> map_of (crq_Status_Used s) k \<noteq> None"
    "\<forall>n. n \<noteq> req_Name req \<longrightarrow> stored w' n = stored w n"
    using Reconcile_effect [OF assms(1,3-5)] by blast
  define matched where "matched = filter (selects R crq) items"
  have "nrq_Used (crq_Status_Namespaces s ! i) =
      shown_used (shown (loop_world R crq matched w2 i)) (req_Name req) (ns_Name (matched ! i))"
    if "i < length matched" for i
    using arg_cong [OF Reconcile_usage [OF assms(1-5) eff(1,2) matched_def], of "\<lambda>us. us ! i"] that
      arg_cong [OF eff(3), of length] by (simp add: matched_def [symmetric])
  with eff show ?thesis
    unfolding matched_def Let_def by blast
qed

text \<open>The ResourceQuotas of \<open>ns1\<close> and \<open>ns3\<close> show 3 and 2 in their statuses.\<close>

theorem reconcile_writes_the_sum_witness:
  "\<exists>s. mem_stored team_reconciled ''team'' = Some s \<and>
    map nrq_Name (crq_Status_Namespaces s) = [''ns1'', ''ns3''] \<and>
    nrq_Used (crq_Status_Namespaces s ! 1) = [(''cpu'', Quantity 2)] \<and>
    crq_Status_Hard s = [(''cpu'', Quantity 10), (''pods'', Quantity 4)]"
proof -
  have live: "crq_DeletionTimestamp team_crq = None"
    by (simp add: team_crq_def demo_crq_def empty_object_meta_def)
  let ?matched = "filter (selects ref_reconciler team_crq) (mw_nss team_world)"
  have names: "map ns_Name ?matched = [''ns1'', ''ns3'']" and len: "1 < length ?matched"
    and second: "shown_used (mem_shown (loop_world ref_reconciler team_crq ?matched team_world 1)) ''team''
      (ns_Name (?matched ! 1)) = [(''cpu'', Quantity 2)]"
    by code_simp+
  have view: "quota_view (rc_Client ref_reconciler) mem_shown"
    using mem_quotas.quota_view_axioms by simp
  have nss: "List_ns (rc_Client ref_reconciler) team_world = (Inr (mw_nss team_world), team_world)"
    by (simp add: mem_client_def)
  have name: "req_Name team_request = ''team''" and hard: "crq_Spec_Hard team_crq = [(''cpu'', Quantity 10), (''pods'', Quantity 4)]"
    by (simp_all add: team_request_def team_crq_def empty_rq_spec_def)
  from reconcile_writes_the_sum [OF controller_env_ref view team_get live team_Reconcile] nss
  show ?thesis
    using names second len unfolding name hard by (fastforce simp: Let_def)
qed

text \<open>
  C22. One namespace that fails does not stop the others: every matched namespace is either in the new
  usage list, in order, or has added one error, and \<open>Used\<close> is the sum of those that worked. But then
  the reconciliation returns the errors without writing a status at all, so that what
  the server holds of the ClusterResourceQuota is what it held before.
\<close>
theorem reconcile_failure_keeps_status:
  assumes "controller_env R stored" and "Get_crq (rc_Client R) (req_Name req) w = (Inr crq, w1)"
    and "crq_DeletionTimestamp crq = None"
    and "selectedNamespaces R crq w1 = (Inr matched, w2)"
    and "syncResourceQuota R crq w1 = (Some err, crq', w3)"
  shows "Reconcile R req w = (Some err, w3) \<and> stored w3 = stored w \<and>
    (\<exists>errs. NewAggregate (rc_Errors R) errs = Some err \<and>
      length (crq_Status_Namespaces crq') + length errs = length matched \<and>
      subseq (map nrq_Name (crq_Status_Namespaces crq')) (map ns_Name matched) \<and>
      (\<forall>k. rval (crq_Status_Used crq') k = usage_sum (crq_Status_Namespaces crq') k))"
proof -
  have api: "api_server (rc_Client R) stored"
    using assms(1) by (simp add: controller_env_def)
  show ?thesis
    using assms(2,3,5) controller_env.syncResourceQuota_effect [OF assms(1,5)] assms(4)
      api_server.get_Some(2) [OF api assms(2)]
    by (auto simp: Reconcile_def)
qed

definition failing_create :: "(mem_world, ref_error) kube_client" where
  "failing_create = mem_client\<lparr>CreateOrUpdate := (\<lambda>f s w.
     if rq_Namespace (snd s) = ''ns1'' then ((Some (RStatus 500 ''ns1''), s), w)
     else CreateOrUpdate mem_client f s w)\<rparr>"

definition failing_reconciler :: "(mem_world, ref_error) reconciler" where
  "failing_reconciler = ref_reconciler\<lparr>rc_Client := failing_create\<rparr>"

lemma controller_env_failing: "controller_env failing_reconciler mem_stored"
proof -
  have "api_server failing_create mem_stored"
  proof unfold_locales
    show "mem_stored (snd (CreateOrUpdate failing_create f s w)) = mem_stored w" for f s w
      using mem.create_stored [of f s w] by (simp add: failing_create_def)
    show "c' = c \<or> (\<exists>q0. c' = fst (snd (f (c, q0))))"
      if "CreateOrUpdate failing_create f (c, q) w = ((r, c', q'), w')" for f c q w r c' q' w'
      using that mem.create_crq [of f c q w r c' q' w'] by (auto simp: failing_create_def split: if_splits)
    show "\<exists>q0. fst (f (c, q0)) = None \<and> fst (snd (f (c, q0))) = c' \<and>
        rq_Spec q' = rq_Spec (snd (snd (f (c, q0)))) \<and>
        managed_by (rq_Labels q') = managed_by (rq_Labels (snd (snd (f (c, q0))))) \<and>
        rq_Namespace q0 = rq_Namespace q"
      if "CreateOrUpdate failing_create f (c, q) w = ((None, c', q'), w')" for f c q w c' q' w'
      using that mem.create_ran [of f c q w c' q' w'] by (auto simp: failing_create_def split: if_splits)
  qed (use mem.update_stored mem.update_frame mem.get_stored mem.get_name mem.now_stored mem.list_ns_stored
      in \<open>simp_all add: failing_create_def\<close>)
  then show ?thesis
    unfolding controller_env_def failing_reconciler_def
    by (simp add: ref_quota.quota_arith_axioms ref_errs.api_errors_axioms ref_owner.ownership_axioms)
qed

theorem reconcile_failure_keeps_status_witness:
  "\<exists>w3. Reconcile failing_reconciler team_request team_world =
      (Some (RAggregate [RStatus 500 ''ns1'']), w3) \<and> mem_stored w3 = mem_stored team_world"
proof -
  have get: "Get_crq (rc_Client failing_reconciler) (req_Name team_request) team_world = (Inr team_crq, team_world)"
    using team_get by (simp add: failing_reconciler_def failing_create_def)
  have live: "crq_DeletionTimestamp team_crq = None"
    by (simp add: team_crq_def demo_crq_def empty_object_meta_def)
  have sel: "selectedNamespaces failing_reconciler team_crq team_world =
      (Inr [demo_ns ''ns1'' ''a'', demo_ns ''ns3'' ''a''], team_world)"
    by code_simp
  define out where "out = syncResourceQuota failing_reconciler team_crq team_world"
  have "fst out = Some (RAggregate [RStatus 500 ''ns1''])"
    unfolding out_def by code_simp
  then have sync: "syncResourceQuota failing_reconciler team_crq team_world =
      (Some (RAggregate [RStatus 500 ''ns1'']), fst (snd out), snd (snd out))"
    by (simp add: out_def prod_eq_iff)
  show ?thesis
    using reconcile_failure_keeps_status [OF controller_env_failing get live sel sync] by blast
qed

text \<open>
  C23. What the controller makes of a ResourceQuota: its spec is that of the ClusterResourceQuota, so the
  quota of one namespace is as large as that of all together; its labels are those of the
  ClusterResourceQuota with the label that names the owner added or corrected, so the webhooks see it
  as managed by exactly this one; its annotations are copied; an owner reference is set; namespace
  and status are untouched. If the ClusterResourceQuota has labels of its own, they receive
  the owner label too, because the two objects share the map.
\<close>
theorem quota_is_made_after_its_owner:
  assumes "ownership (rc_SetOwnerReference R)" and "mutate R (c, q) = (None, c', q')"
  shows "rq_Spec q' = crqs_ResourceQuotaSpec (crq_Spec c) \<and> managed_by (rq_Labels q') = crq_Name c \<and>
    (\<forall>k. k \<noteq> LabelClusterResourceQuota \<longrightarrow> map_of (the (rq_Labels q')) k =
      map_of (case crq_Labels c of None \<Rightarrow> [] | Some ls \<Rightarrow> ls) k) \<and>
    om_Annotations (rq_ObjectMeta q') = om_Annotations (crq_ObjectMeta c) \<and>
    (\<exists>r \<in> set (om_OwnerReferences (rq_ObjectMeta q')).
      or_Name r = crq_Name c \<and> or_UID r = om_UID (crq_ObjectMeta c)) \<and>
    rq_Namespace q' = rq_Namespace q \<and> rq_Status q' = rq_Status q \<and>
    crq_Labels c' = (case crq_Labels c of None \<Rightarrow> None | Some ls \<Rightarrow> rq_Labels q')"
proof -
  have snd: "q' = snd (snd (mutate R (c, q)))" and fst: "c' = fst (snd (mutate R (c, q)))"
    using assms(2) by simp_all
  have "\<exists>r \<in> set (om_OwnerReferences (rq_ObjectMeta q')).
      or_Name r = crq_Name c \<and> or_UID r = om_UID (crq_ObjectMeta c)"
  proof -
    obtain c1 q1 where "rc_SetOwnerReference R c1 q1 = (None, q')" and "c1 = c'"
      using assms(2) by (auto simp: mutate_def Let_def split: prod.splits)
    moreover have "crq_Name c' = crq_Name c" "om_UID (crq_ObjectMeta c') = om_UID (crq_ObjectMeta c)"
      unfolding fst by (simp_all add: mutate_crq split: option.split)
    ultimately show ?thesis
      using ownership.owner_set [OF assms(1), of c1 q1] by simp
  qed
  moreover have "crq_Labels c' = (case crq_Labels c of None \<Rightarrow> None | Some ls \<Rightarrow> rq_Labels q')"
    unfolding fst snd mutate_quota(2) [OF assms(1)] by (simp add: mutate_crq split: option.split)
  ultimately show ?thesis
    unfolding snd by (simp add: mutate_quota [OF assms(1)] mstr_def gomap_simps)
qed

theorem quota_is_made_after_its_owner_witness:
  "case mutate ref_reconciler (team_crq, empty_resource_quota) of (_, _, q') \<Rightarrow>
    managed_by (rq_Labels q') = ''team''"
proof -
  have "mutate ref_reconciler (team_crq, empty_resource_quota) =
      (None, fst (snd (mutate ref_reconciler (team_crq, empty_resource_quota))),
       snd (snd (mutate ref_reconciler (team_crq, empty_resource_quota))))"
    by code_simp
  from quota_is_made_after_its_owner [OF _ this] show ?thesis
    by (simp add: ref_owner.ownership_axioms split_beta team_crq_def demo_crq_def)
qed

text \<open>
  Nothing is done for a ClusterResourceQuota that is gone or being deleted: no error, no write. In
  particular its ResourceQuotas are not touched.
\<close>
lemma reconcile_ignores_the_dead:
  assumes "controller_env R stored" and "Get_crq (rc_Client R) (req_Name req) w = (r, w1)"
    and "case r of Inl err \<Rightarrow> IsNotFound (rc_Errors R) err | Inr crq \<Rightarrow> crq_DeletionTimestamp crq \<noteq> None"
  shows "Reconcile R req w = (None, w1) \<and> stored w1 = stored w"
proof -
  have api: "api_server (rc_Client R) stored"
    using assms(1) by (simp add: controller_env_def)
  show ?thesis
    using assms(2,3) api_server.get_stored [OF api, of "req_Name req" w]
    by (auto simp: Reconcile_def split: sum.splits)
qed

lemma selectedNamespaces_selects:
  assumes "List_ns (rc_Client R) v = (Inr nss, v')" and "ns \<in> set nss"
  shows "(case fst (selectedNamespaces R crq v) of Inl err \<Rightarrow> False | Inr matched \<Rightarrow> ns \<in> set matched) =
    selects R crq ns"
proof (cases "rc_LabelSelectorAsSelector R (crqs_NamespaceSelector (crq_Spec crq))")
  case (Inl err)
  then show ?thesis
    using assms(1) by (simp add: selectedNamespaces_def selects_def)
next
  case (Inr sel)
  then have "selectedNamespaces R crq v = (Inr (filter (selects R crq) nss), v')"
    using assms(1) by (simp add: selectedNamespaces_Inr)
  then show ?thesis
    using assms(2) by simp
qed

text \<open>
  C24. A namespace event and the reconciliation agree on what is selected. When the namespace is on
  the server's list and the ClusterResourceQuotas can be listed, the event enqueues, in list order,
  exactly those of them whose selection contains this namespace, those being deleted included; one whose
  selector is invalid is skipped and does not keep the others from being enqueued. Reconciling one that is being
  deleted then does nothing. For any other listed one (names being unique), a reconciliation without error
  writes a status that lists the namespace if and only if the event has enqueued it.
\<close>
theorem namespace_event_matches_selection:
  assumes "controller_env R stored" and "List_crq (rc_Client R) w = (Inr items, w')"
    and "distinct (map ObjectKeyFromObject items)" and "crq \<in> set items"
    and "Get_crq (rc_Client R) (crq_Name crq) u = (Inr crq, v)"
    and "List_ns (rc_Client R) v = (Inr nss, v')" and "ns \<in> set nss" and "distinct (map ns_Name nss)"
  shows "OnNamespaceChange R (Some ns) w = (map ObjectKeyFromObject (filter (\<lambda>crq.
      case fst (selectedNamespaces R crq v) of Inl err \<Rightarrow> False | Inr matched \<Rightarrow> ns \<in> set matched) items), w') \<and>
    (crq_DeletionTimestamp crq \<noteq> None \<longrightarrow> Reconcile R (ObjectKeyFromObject crq) u = (None, v)) \<and>
    (\<forall>u'. crq_DeletionTimestamp crq = None \<longrightarrow> Reconcile R (ObjectKeyFromObject crq) u = (None, u') \<longrightarrow>
      (\<exists>s. stored u' (crq_Name crq) = Some s \<and>
        (ns_Name ns \<in> set (map nrq_Name (crq_Status_Namespaces s)) \<longleftrightarrow>
          ObjectKeyFromObject crq \<in> set (fst (OnNamespaceChange R (Some ns) w)))))"
proof (intro conjI allI impI)
  have event: "OnNamespaceChange R (Some ns) w =
      (map ObjectKeyFromObject (filter (\<lambda>crq. selects R crq ns) items), w')"
    using assms(2) by (simp add: OnNamespaceChange_eq)
  then show "OnNamespaceChange R (Some ns) w = (map ObjectKeyFromObject (filter (\<lambda>crq.
      case fst (selectedNamespaces R crq v) of Inl err \<Rightarrow> False | Inr matched \<Rightarrow> ns \<in> set matched) items), w')"
    by (simp add: selectedNamespaces_selects [OF assms(6,7)])
  have key: "req_Name (ObjectKeyFromObject crq) = crq_Name crq"
    by (simp add: ObjectKeyFromObject_def)
  note get = assms(5) [folded key]
  show "Reconcile R (ObjectKeyFromObject crq) u = (None, v)" if "crq_DeletionTimestamp crq \<noteq> None"
    using reconcile_ignores_the_dead [OF assms(1) get] that by simp
  fix u'
  assume live: "crq_DeletionTimestamp crq = None" and run: "Reconcile R (ObjectKeyFromObject crq) u = (None, u')"
  obtain s where s: "stored u' (crq_Name crq) = Some s"
    and names: "map nrq_Name (crq_Status_Namespaces s) = map ns_Name (filter (selects R crq) nss)"
    using Reconcile_effect [OF assms(1) get live run] assms(6) by (auto simp: key)
  have "ns_Name ns \<in> ns_Name ` set (filter (selects R crq) nss) \<longleftrightarrow> selects R crq ns"
    using assms(7,8) by (auto simp: distinct_map dest: inj_onD)
  moreover have "ObjectKeyFromObject crq \<in> ObjectKeyFromObject ` set (filter (\<lambda>crq. selects R crq ns) items) \<longleftrightarrow>
      selects R crq ns"
    using assms(3,4) by (auto simp: distinct_map dest: inj_onD)
  moreover have "nrq_Name ` set (crq_Status_Namespaces s) = ns_Name ` set (filter (selects R crq) nss)"
    using arg_cong [OF names, of set] by simp
  ultimately show "\<exists>s. stored u' (crq_Name crq) = Some s \<and>
      (ns_Name ns \<in> set (map nrq_Name (crq_Status_Namespaces s)) \<longleftrightarrow>
        ObjectKeyFromObject crq \<in> set (fst (OnNamespaceChange R (Some ns) w)))"
    using s by (simp only: event fst_conv list.set_map) blast
qed

theorem namespace_event_matches_selection_witness:
  "map req_Name (fst (OnNamespaceChange ref_reconciler (Some (demo_ns ''ns1'' ''a'')) team_world)) = [''team''] \<and>
    (\<exists>s. mem_stored team_reconciled ''team'' = Some s \<and> ''ns1'' \<in> set (map nrq_Name (crq_Status_Namespaces s)))"
proof -
  have crqs: "List_crq (rc_Client ref_reconciler) team_world = (Inr [team_crq], team_world)"
    by (simp add: mem_client_def team_world_def)
  have one: "distinct (map ObjectKeyFromObject [team_crq])" and "team_crq \<in> set [team_crq]"
    by simp_all
  have name: "crq_Name team_crq = req_Name team_request" and key: "ObjectKeyFromObject team_crq = team_request"
    and live: "crq_DeletionTimestamp team_crq = None"
    by (simp_all add: team_crq_def demo_crq_def team_request_def ObjectKeyFromObject_def empty_object_meta_def)
  have get: "Get_crq (rc_Client ref_reconciler) (crq_Name team_crq) team_world = (Inr team_crq, team_world)"
    unfolding name by (rule team_get)
  have nss: "List_ns (rc_Client ref_reconciler) team_world = (Inr (mw_nss team_world), team_world)"
    by (simp add: mem_client_def)
  have mem: "demo_ns ''ns1'' ''a'' \<in> set (mw_nss team_world)" and dist: "distinct (map ns_Name (mw_nss team_world))"
    by (simp_all add: team_world_def demo_ns_def)
  have sel: "selectedNamespaces ref_reconciler team_crq team_world =
      (Inr [demo_ns ''ns1'' ''a'', demo_ns ''ns3'' ''a''], team_world)"
    by code_simp
  note both = namespace_event_matches_selection [OF controller_env_ref crqs one \<open>team_crq \<in> set [team_crq]\<close> get nss mem dist]
  from conjunct1 [OF this] have event:
      "OnNamespaceChange ref_reconciler (Some (demo_ns ''ns1'' ''a'')) team_world = ([team_request], team_world)"
    by (simp add: sel key)
  have "ns_Name (demo_ns ''ns1'' ''a'') = ''ns1''" and "req_Name team_request = ''team''"
    by (simp_all add: demo_ns_def team_request_def)
  then show ?thesis
    using conjunct2 [OF conjunct2 [OF both]] live team_Reconcile by (auto simp: key event name)
qed

text \<open>
  The write that ends a reconciliation does not start the next one: an update event passes
  the filter only if the spec has changed, and a status write leaves the spec alone.
\<close>
lemma status_write_does_not_retrigger:
  assumes "\<forall>s. rc_DeepEqual R s s"
  shows "OnClusterResourceQuotaSpecChange R (UpdateEvent c
      (set_crq_Used u (set_crq_Hard h (set_crq_Namespaces nss c)))) = False \<and>
    OnClusterResourceQuotaSpecChange R (UpdateEvent c
      (updateClusterResourceQuotaStatusUsed c rq newtotal)) = False \<and>
    OnClusterResourceQuotaSpecChange R (CreateEvent c) = True"
  using assms by (simp add: OnClusterResourceQuotaSpecChange_def)

end
