(* ===== verification/Interleaving.thy ===== *)
theory Interleaving
  imports Controller
begin

section \<open>Requests and Sync, interleaved\<close>

text \<open>
  The webhook server runs every request in a goroutine of its own, beside the goroutine of
  \<open>CacheSyner\<close>. A request takes the lock of the cache for \<open>GetOrCreate\<close> and then, separately, the mutex
  of the entry for the closure of \<open>validate\<close>; after a conflict it starts over. \<open>Sync\<close> holds the lock of the
  cache only: it may change the map of an entry while a request holds that entry's mutex, between the
  check and the store. So the steps that interleave are: a request gets its pointer; a request takes the
  mutex and checks; it stores its entry and releases the mutex; \<open>Sync\<close> runs; and the world changes by
  itself. A request whose check ends without an entry to store releases the mutex at once.

  \<open>Sync\<close> itself is one step here; the theory \<open>Locking\<close> takes it apart, and the requests down to their locks.
\<close>

datatype 'e thread =
  Starting resource_quota string bool
| Holding address resource_quota string bool
| Storing address resource_quota string bool resource_usage_info
| Finished "'e option"

record ('w, 'e) system =
  sys_cache :: resource_quota_cache
  sys_world :: 'w
  sys_threads :: "nat \<Rightarrow> 'e thread"
  sys_locked :: "address list"

definition set_thread :: "nat \<Rightarrow> 'e thread \<Rightarrow> ('w, 'e) system \<Rightarrow> ('w, 'e) system" where
  "set_thread i t s = s\<lparr>sys_threads := (sys_threads s)(i := t)\<rparr>"

text \<open>
  One step of a request. A request that finds the mutex taken waits: its step changes nothing.
\<close>

fun thread_step :: "('raw, 'w, 'e) status_admission \<Rightarrow> nat \<Rightarrow> ('w, 'e) system \<Rightarrow> ('w, 'e) system" where
  "thread_step A i s =
    (case sys_threads s i of
      Starting rq n skip \<Rightarrow>
        (case GetOrCreate n (sys_cache s) of (a, c) \<Rightarrow>
          set_thread i (Holding a rq n skip) (s\<lparr>sys_cache := c\<rparr>))
    | Holding a rq n skip \<Rightarrow>
        if a \<in> set (sys_locked s) then s
        else
          (case validate_check A rq n skip (read_quotas a (sys_cache s)) (sys_world s) of
            (Inl r, w) \<Rightarrow>
              set_thread i
                (case r of
                  Some err \<Rightarrow> if IsConflict (sa_Errors A) err then Starting rq n skip else Finished r
                | None \<Rightarrow> Finished r)
                (s\<lparr>sys_world := w\<rparr>)
          | (Inr entry, w) \<Rightarrow>
              set_thread i (Storing a rq n skip entry)
                (s\<lparr>sys_world := w, sys_locked := a # sys_locked s\<rparr>))
    | Storing a rq n skip entry \<Rightarrow>
        set_thread i (Finished None)
          (s\<lparr>sys_cache := write_quotas a (mput (rq_Namespace rq) entry (read_quotas a (sys_cache s))) (sys_cache s),
             sys_locked := removeAll a (sys_locked s)\<rparr>)
    | Finished r \<Rightarrow> s)"

inductive request_step :: "('raw, 'w, 'e) status_admission \<Rightarrow> ('w, 'e) system \<Rightarrow> ('w, 'e) system \<Rightarrow> bool" for A where
  thread: "request_step A s (thread_step A i s)"
| world: "request_step A s (s\<lparr>sys_world := w\<rparr>)"

text \<open>Any step; and the steps when \<open>Sync\<close> happens to run only while no request is between check and store.\<close>

inductive system_step :: "('raw, 'w, 'e) status_admission \<Rightarrow> ('w, 'e) system \<Rightarrow> ('w, 'e) system \<Rightarrow> bool" for A where
  request: "request_step A s s' \<Longrightarrow> system_step A s s'"
| sync: "Sync (time_Now (sa_Client A)) qs (sys_cache s) (sys_world s) = (c, w) \<Longrightarrow>
    system_step A s (s\<lparr>sys_cache := c, sys_world := w\<rparr>)"

inductive calm_step :: "('raw, 'w, 'e) status_admission \<Rightarrow> ('w, 'e) system \<Rightarrow> ('w, 'e) system \<Rightarrow> bool" for A where
  calm_request: "request_step A s s' \<Longrightarrow> calm_step A s s'"
| calm_sync: "sys_locked s = [] \<Longrightarrow> Sync (time_Now (sa_Client A)) qs (sys_cache s) (sys_world s) = (c, w) \<Longrightarrow>
    calm_step A s (s\<lparr>sys_cache := c, sys_world := w\<rparr>)"

lemma calm_step_system: "calm_step A s s' \<Longrightarrow> system_step A s s'"
  by (auto elim!: calm_step.cases intro: system_step.intros)

subsection \<open>The two steps of the closure, uninterrupted\<close>

text \<open>Check and store in a row are \<open>OnLock\<close> of the closure, and with \<open>GetOrCreate\<close> before it \<open>validate\<close>.\<close>

lemma OnLock_is_validate:
  assumes "map_of (rqc_quotacache c) n = Some a"
  shows "OnLock a (validate_locked A rq n skip) c w = validate A rq n skip (c, w)"
  using assms by (simp add: validate_def GetOrCreate_def)

lemma check_and_store_is_OnLock:
  assumes "sys_threads s i = Holding a rq n skip" and "a \<notin> set (sys_locked s)"
    and "validate_check A rq n skip (read_quotas a (sys_cache s)) (sys_world s) = (Inr entry, w)"
  shows "OnLock a (validate_locked A rq n skip) (sys_cache s) (sys_world s) =
    (None, sys_cache (thread_step A i (thread_step A i s)), sys_world (thread_step A i (thread_step A i s)))"
  using assms by (simp add: OnLock_def validate_locked_def set_thread_def)

lemma GetOrCreate_keeps_pointers:
  assumes "GetOrCreate n c = (a, c')" and "map_of (rqc_quotacache c) m = Some b"
  shows "map_of (rqc_quotacache c') m = Some b"
  using assms by (auto simp: GetOrCreate_eq bind_new_def gomap_simps split: option.splits if_splits)

lemma GetOrCreate_pointers:
  assumes "GetOrCreate n c = (a, c')"
  shows "length (rqc_heap c) \<le> length (rqc_heap c')"
    and "map_of (rqc_quotacache c') m = Some b \<Longrightarrow>
      map_of (rqc_quotacache c) m = Some b \<or> length (rqc_heap c) \<le> b"
    and "b < length (rqc_heap c) \<Longrightarrow> read_quotas b c' = read_quotas b c"
  using assms by (auto simp: GetOrCreate_eq bind_new_def gomap_simps read_quotas_def nth_append
      split: option.splits if_splits)

lemma thread_step_others: "j \<noteq> i \<Longrightarrow> sys_threads (thread_step A i s) j = sys_threads s j"
  by (cases "sys_threads s i") (auto simp: set_thread_def split: prod.splits sum.splits)

subsection \<open>Sync in between\<close>

text \<open>\<open>Sync\<close> never moves a name to an object that was there before under another name.\<close>

lemma existing_fold_pointers:
  assumes "fold (existing_step now) es (c, g, w) = (c', g', w')"
  shows "length (rqc_heap c') = length (rqc_heap c) \<and>
    (\<forall>m b. map_of (rqc_quotacache c') m = Some b \<longrightarrow> map_of (rqc_quotacache c) m = Some b)"
  using assms
proof (induction es arbitrary: c g w)
  case (Cons e es)
  obtain d h v where step: "existing_step now e (c, g, w) = (d, h, v)"
    by (metis prod_cases3)
  have "length (rqc_heap d) = length (rqc_heap c) \<and>
      (\<forall>m b. map_of (rqc_quotacache d) m = Some b \<longrightarrow> map_of (rqc_quotacache c) m = Some b)"
    using step by (cases e)
      (auto simp: existing_step_def cache_simps gomap_simps split: option.splits prod.splits if_splits)
  then show ?case
    using Cons.IH [of d h v] Cons.prems step by auto
qed simp

lemma new_fold_pointers:
  "length (rqc_heap c) \<le> length (rqc_heap (fold new_step g c)) \<and>
   (\<forall>m b. map_of (rqc_quotacache (fold new_step g c)) m = Some b \<longrightarrow>
     map_of (rqc_quotacache c) m = Some b \<or> length (rqc_heap c) \<le> b)"
proof (induction g arbitrary: c)
  case (Cons e g)
  obtain n qs where e: "e = (n, qs)"
    by fastforce
  define d where "d = new_step (n, qs) c"
  have d: "length (rqc_heap d) = Suc (length (rqc_heap c))"
    "map_of (rqc_quotacache d) = (map_of (rqc_quotacache c))(n \<mapsto> length (rqc_heap c))"
    by (simp_all add: d_def new_step_eq bind_new_def gomap_simps)
  have IH: "length (rqc_heap d) \<le> length (rqc_heap (fold new_step g d))"
    "map_of (rqc_quotacache (fold new_step g d)) m = Some b \<Longrightarrow>
      map_of (rqc_quotacache d) m = Some b \<or> length (rqc_heap d) \<le> b" for m b
    using Cons [of d] by blast+
  have "map_of (rqc_quotacache c) m = Some b \<or> length (rqc_heap c) \<le> b"
    if "map_of (rqc_quotacache (fold new_step g d)) m = Some b" for m b
    using IH(2) [OF that] by (auto simp: d split: if_splits)
  then show ?case
    using IH(1) by (simp add: e d flip: d_def)
qed simp

lemma Sync_pointers:
  assumes "Sync now qs c w = (c', w')" and "map_of (rqc_quotacache c') m = Some b"
  shows "map_of (rqc_quotacache c) m = Some b \<or> length (rqc_heap c) \<le> b"
proof -
  obtain d g where fold: "fold (existing_step now) (rqc_quotacache c)
      (c, group_quotas (fst (now w)) qs, snd (now w)) = (d, g, w')" and c': "c' = fold new_step g d"
    using assms(1) by (auto simp: Sync_def split: prod.splits)
  show ?thesis
    using existing_fold_pointers [OF fold] new_fold_pointers [of d g] assms(2) unfolding c' by metis
qed

subsection \<open>A step of a request, by cases\<close>

lemma thread_step_cases:
  obtains (idle) "thread_step A i s = s"
  | (get) rq n skip a c where "sys_threads s i = Starting rq n skip"
      and "GetOrCreate n (sys_cache s) = (a, c)"
      and "thread_step A i s = set_thread i (Holding a rq n skip) (s\<lparr>sys_cache := c\<rparr>)"
  | (answer) a rq n skip r w t where "sys_threads s i = Holding a rq n skip"
      and "validate_check A rq n skip (read_quotas a (sys_cache s)) (sys_world s) = (Inl r, w)"
      and "t = Starting rq n skip \<or> t = Finished r"
      and "thread_step A i s = set_thread i t (s\<lparr>sys_world := w\<rparr>)"
  | (check) a rq n skip entry w where "sys_threads s i = Holding a rq n skip"
      and "a \<notin> set (sys_locked s)"
      and "validate_check A rq n skip (read_quotas a (sys_cache s)) (sys_world s) = (Inr entry, w)"
      and "thread_step A i s = set_thread i (Storing a rq n skip entry)
        (s\<lparr>sys_world := w, sys_locked := a # sys_locked s\<rparr>)"
  | (store) a rq n skip entry where "sys_threads s i = Storing a rq n skip entry"
      and "thread_step A i s = set_thread i (Finished None)
        (s\<lparr>sys_cache := write_quotas a (mput (rq_Namespace rq) entry (read_quotas a (sys_cache s))) (sys_cache s),
           sys_locked := removeAll a (sys_locked s)\<rparr>)"
proof (cases "sys_threads s i")
  case (Starting rq n skip)
  obtain a c where "GetOrCreate n (sys_cache s) = (a, c)"
    by fastforce
  with Starting show ?thesis
    by (intro get) simp_all
next
  case (Holding a rq n skip)
  obtain v w where run: "validate_check A rq n skip (read_quotas a (sys_cache s)) (sys_world s) = (v, w)"
    by fastforce
  show ?thesis
  proof (cases "a \<in> set (sys_locked s)")
    case True
    then show ?thesis
      using Holding by (intro idle) simp
  next
    case False
    show ?thesis
    proof (cases v)
      case (Inl r)
      define t where "t = (case r of
          Some err \<Rightarrow> if IsConflict (sa_Errors A) err then Starting rq n skip else Finished r
        | None \<Rightarrow> Finished r)"
      have "thread_step A i s = set_thread i t (s\<lparr>sys_world := w\<rparr>)"
        using Holding False run Inl by (simp add: t_def)
      moreover have "t = Starting rq n skip \<or> t = Finished r"
        by (simp add: t_def split: option.split)
      ultimately show ?thesis
        using Holding run Inl by (intro answer) simp_all
    next
      case (Inr entry)
      then show ?thesis
        using Holding False run by (intro check) simp_all
    qed
  qed
qed (simp_all add: idle store)

subsection \<open>Well-formed systems\<close>

text \<open>
  The cache is well formed; a pointer that a request holds is valid and is not the object of another
  name, though it may be an orphan; and whoever is about to store has the mutex, alone.
\<close>

fun object_of :: "'e thread \<Rightarrow> (address \<times> string) option" where
  "object_of (Holding a rq n skip) = Some (a, n)"
| "object_of (Storing a rq n skip entry) = Some (a, n)"
| "object_of (Starting rq n skip) = None"
| "object_of (Finished r) = None"

fun storing_at :: "'e thread \<Rightarrow> address option" where
  "storing_at (Storing a rq n skip entry) = Some a"
| "storing_at (Holding a rq n skip) = None"
| "storing_at (Starting rq n skip) = None"
| "storing_at (Finished r) = None"

definition pointer_ok :: "resource_quota_cache \<Rightarrow> (address \<times> string) option \<Rightarrow> bool" where
  "pointer_ok c ob \<longleftrightarrow> (\<forall>a m. ob = Some (a, m) \<longrightarrow> a < length (rqc_heap c) \<and>
     (\<forall>p. map_of (rqc_quotacache c) p = Some a \<longrightarrow> p = m))"

definition locks_ok :: "('w, 'e) system \<Rightarrow> bool" where
  "locks_ok s \<longleftrightarrow> (\<forall>i a. storing_at (sys_threads s i) = Some a \<longrightarrow> a \<in> set (sys_locked s) \<and>
     (\<forall>j. storing_at (sys_threads s j) = Some a \<longrightarrow> j = i))"

definition system_ok :: "('w, 'e) system \<Rightarrow> bool" where
  "system_ok s \<longleftrightarrow> cache_ok (sys_cache s) \<and>
     (\<forall>i. pointer_ok (sys_cache s) (object_of (sys_threads s i))) \<and> locks_ok s"

lemma pointer_ok_mono:
  assumes "pointer_ok c ob" and "length (rqc_heap c) \<le> length (rqc_heap c')"
    and "\<And>m b. map_of (rqc_quotacache c') m = Some b \<Longrightarrow>
      map_of (rqc_quotacache c) m = Some b \<or> length (rqc_heap c) \<le> b"
  shows "pointer_ok c' ob"
  using assms unfolding pointer_ok_def by fastforce

lemma pointer_ok_write: "pointer_ok c ob \<Longrightarrow> pointer_ok (write_quotas a qs c) ob"
  by (simp add: pointer_ok_def cache_simps)

lemma pointer_ok_None [simp]: "pointer_ok c None"
  by (simp add: pointer_ok_def)

lemma system_okD:
  assumes "system_ok s"
  shows "cache_ok (sys_cache s)" and "pointer_ok (sys_cache s) (object_of (sys_threads s i))" and "locks_ok s"
  using assms by (simp_all add: system_ok_def)

lemma read_quotas_wf: "cache_ok c \<Longrightarrow> a < length (rqc_heap c) \<Longrightarrow> mwf (read_quotas a c)"
  by (simp add: cache_ok_def read_quotas_def)

lemma locks_ok_release:
  assumes "locks_ok s" and "storing_at t = None" and "sys_threads s' = (sys_threads s)(i := t)"
    and "set (sys_locked s) - set_option (storing_at (sys_threads s i)) \<subseteq> set (sys_locked s')"
  shows "locks_ok s'"
  unfolding locks_ok_def
proof (intro allI impI)
  fix j a
  assume "storing_at (sys_threads s' j) = Some a"
  then have "j \<noteq> i" and "storing_at (sys_threads s j) = Some a"
    using assms(2,3) by (auto split: if_splits)
  moreover have "storing_at (sys_threads s i) \<noteq> Some a"
    using assms(1) calculation unfolding locks_ok_def by metis
  ultimately show "a \<in> set (sys_locked s') \<and> (\<forall>k. storing_at (sys_threads s' k) = Some a \<longrightarrow> k = j)"
    using assms unfolding locks_ok_def by (auto simp: elem_set split: if_splits)
qed

lemma locks_ok_acquire:
  assumes "locks_ok s" and "a \<notin> set (sys_locked s)" and "storing_at t = Some a"
    and "sys_threads s' = (sys_threads s)(i := t)" and "sys_locked s' = a # sys_locked s"
  shows "locks_ok s'"
  using assms unfolding locks_ok_def by (auto split: if_splits)

lemma system_ok_set_thread:
  assumes "system_ok s" and "cache_ok c" and "\<And>j. pointer_ok c (object_of (sys_threads s j))"
    and "pointer_ok c (object_of t)" and "locks_ok (set_thread i t s')" and "sys_cache s' = c"
    and "sys_threads s' = sys_threads s"
  shows "system_ok (set_thread i t s')"
  using assms by (simp add: system_ok_def set_thread_def)

lemma thread_step_ok:
  assumes "system_ok s"
  shows "system_ok (thread_step A i s)"
proof (cases rule: thread_step_cases [of A i s])
  case idle
  then show ?thesis
    using assms by simp
next
  case (get rq n skip a c)
  note ok = cache.goc_ok [OF system_okD(1) [OF assms] get(2)]
  have "pointer_ok c (object_of (sys_threads s j))" for j
    using pointer_ok_mono [OF system_okD(2) [OF assms]] GetOrCreate_pointers [OF get(2)] by blast
  moreover have "pointer_ok c (object_of (Holding a rq n skip))"
    using cache_okD [OF ok GetOrCreate_lookup [OF get(2)]] by (simp add: pointer_ok_def)
  moreover have "locks_ok (set_thread i (Holding a rq n skip) (s\<lparr>sys_cache := c\<rparr>))"
    by (rule locks_ok_release [OF system_okD(3) [OF assms], where i = i and t = "Holding a rq n skip"])
      (auto simp: set_thread_def)
  ultimately show ?thesis
    unfolding get(3) by (intro system_ok_set_thread [OF assms ok]) simp_all
next
  case (answer a rq n skip r w t)
  have none: "storing_at t = None" "object_of t = None"
    using answer(3) by auto
  have "locks_ok (set_thread i t (s\<lparr>sys_world := w\<rparr>))"
    by (rule locks_ok_release [OF system_okD(3) [OF assms] none(1), where i = i]) (auto simp: set_thread_def)
  then show ?thesis
    unfolding answer(4) using system_okD(1,2) [OF assms] none(2)
    by (intro system_ok_set_thread [OF assms]) simp_all
next
  case (check a rq n skip entry w)
  have "locks_ok (set_thread i (Storing a rq n skip entry) (s\<lparr>sys_world := w, sys_locked := a # sys_locked s\<rparr>))"
    by (rule locks_ok_acquire [OF system_okD(3) [OF assms] check(2), where i = i and t = "Storing a rq n skip entry"])
      (simp_all add: set_thread_def)
  moreover have "pointer_ok (sys_cache s) (object_of (Storing a rq n skip entry))"
    using system_okD(2) [OF assms, of i] by (simp add: check(1))
  ultimately show ?thesis
    unfolding check(4) using system_okD(1,2) [OF assms] by (intro system_ok_set_thread [OF assms]) simp_all
next
  case (store a rq n skip entry)
  let ?qs = "mput (rq_Namespace rq) entry (read_quotas a (sys_cache s))"
  have "a < length (rqc_heap (sys_cache s))"
    using system_okD(2) [OF assms, of i] by (simp add: store(1) pointer_ok_def)
  then have "cache_ok (write_quotas a ?qs (sys_cache s))"
    using read_quotas_wf system_okD(1) [OF assms] by (blast intro: cache_ok_write gm_wf)
  moreover have "locks_ok (set_thread i (Finished None) (s\<lparr>sys_cache := write_quotas a ?qs (sys_cache s),
      sys_locked := removeAll a (sys_locked s)\<rparr>))"
    by (rule locks_ok_release [OF system_okD(3) [OF assms], where i = i and t = "Finished None"])
      (auto simp: set_thread_def store(1))
  ultimately show ?thesis
    unfolding store(2) using system_okD(2) [OF assms] pointer_ok_write
    by (intro system_ok_set_thread [OF assms]) simp_all
qed

lemma Sync_heap:
  assumes "Sync now qs c w = (c', w')"
  shows "length (rqc_heap c) \<le> length (rqc_heap c')"
proof -
  obtain d g where fold: "fold (existing_step now) (rqc_quotacache c)
      (c, group_quotas (fst (now w)) qs, snd (now w)) = (d, g, w')" and c': "c' = fold new_step g d"
    using assms by (auto simp: Sync_def split: prod.splits)
  show ?thesis
    using existing_fold_pointers [OF fold] new_fold_pointers [of d g] unfolding c' by metis
qed

lemma system_step_ok:
  assumes "system_ok s" and "system_step A s s'"
  shows "system_ok s'"
  using assms(2)
proof cases
  case request
  from this(1) show ?thesis
  proof cases
    case (thread i)
    then show ?thesis
      using thread_step_ok [OF assms(1)] by simp
  next
    case (world w)
    then show ?thesis
      using assms(1) by (simp add: system_ok_def locks_ok_def)
  qed
next
  case (sync qs c w)
  have "cache_ok c"
    using Sync_effect(1) [OF system_okD(1) [OF assms(1)] sync(2)] .
  moreover have "pointer_ok c (object_of (sys_threads s i))" for i
    using pointer_ok_mono [OF system_okD(2) [OF assms(1)] Sync_heap [OF sync(2)]] Sync_pointers [OF sync(2)] by blast
  ultimately show ?thesis
    using sync(1) system_okD(3) [OF assms(1)] by (simp add: system_ok_def locks_ok_def)
qed

subsection \<open>What is about to be stored fits\<close>

text \<open>
  Limits \<open>L\<close> per ClusterResourceQuota, for requests that are not exempt. An entry that waits to be
  stored is the requested usage, and with it the total of the object it goes to is within them.
\<close>

definition pending_ok :: "(string \<Rightarrow> resource_list) \<Rightarrow> resource_quota_cache \<Rightarrow> 'e thread \<Rightarrow> bool" where
  "pending_ok L c t =
    (case t of
      Starting rq m skip \<Rightarrow> \<not> skip
    | Holding a rq m skip \<Rightarrow> \<not> skip
    | Storing a rq m skip entry \<Rightarrow> \<not> skip \<and> rui_Used entry = rq_Status_Used rq \<and>
        (\<forall>k h. map_of (L m) k = Some h \<longrightarrow>
          quotas_total (mput (rq_Namespace rq) entry (read_quotas a c)) k \<le> h)
    | Finished r \<Rightarrow> True)"

definition calm_ok :: "(string \<Rightarrow> resource_list) \<Rightarrow> ('w, 'e) system \<Rightarrow> bool" where
  "calm_ok L s \<longleftrightarrow> system_ok s \<and> (\<forall>i. pending_ok L (sys_cache s) (sys_threads s i))"

lemma calm_okD:
  assumes "calm_ok L s"
  shows "system_ok s" and "pending_ok L (sys_cache s) (sys_threads s i)"
  using assms by (simp_all add: calm_ok_def)

lemma pending_ok_read:
  assumes "pending_ok L c t" and "\<And>a. storing_at t = Some a \<Longrightarrow> read_quotas a c' = read_quotas a c"
  shows "pending_ok L c' t"
  using assms by (cases t) (simp_all add: pending_ok_def)

locale limited_env = status_env A stored
  for A :: "('raw, 'w, 'e) status_admission" and stored :: "'w \<Rightarrow> string \<Rightarrow> cluster_resource_quota option" +
  fixes L :: "string \<Rightarrow> resource_list"
  assumes limits: "fst (Get_crq (sa_Client A) n w) = Inr crq \<Longrightarrow> map_of (L n) k = Some h \<Longrightarrow>
      map_of (crq_Status_Hard crq) k = Some h"
    and limits_pos: "map_of (L n) k = Some h \<Longrightarrow> 0 \<le> h"
begin

lemma check_fits:
  assumes "validate_check A rq n False qs w = (Inr entry, w')" and "mwf qs"
  shows "rui_Used entry = rq_Status_Used rq"
    and "map_of (L n) k = Some h \<Longrightarrow> quotas_total (mput (rq_Namespace rq) entry qs) k \<le> h"
proof -
  show used: "rui_Used entry = rq_Status_Used rq"
    using assms(1) unfolding validate_check_def Let_def by (auto split: prod.splits sum.splits if_splits option.splits)
  assume k: "map_of (L n) k = Some h"
  have "validate_locked A rq n False qs w = (None, mput (rq_Namespace rq) entry qs, w')"
    using assms(1) by (simp add: validate_locked_def)
  then show "quotas_total (mput (rq_Namespace rq) entry qs) k \<le> h"
  proof (cases rule: locked_ok)
    case (missing err)
    then show ?thesis
      using assms(1) by (simp add: validate_check_def)
  next
    case (found crq w1 t)
    have "map_of (crq_Status_Hard crq) k = Some h"
      using limits [OF _ k, of w crq] found(1) by simp
    then show ?thesis
      using found(2) limits_pos [OF k] unnamed_total [of qs rq k] total_after_mput [OF assms(2) used]
      unfolding within_def by metis
  qed
qed

lemma calm_ok_thread:
  assumes "calm_ok L s"
  shows "calm_ok L (thread_step A i s)"
proof -
  have sys: "system_ok (thread_step A i s)"
    using thread_step_ok [OF calm_okD(1) [OF assms]] .
  note ok = system_okD [OF calm_okD(1) [OF assms]]
  have others: "pending_ok L c (sys_threads s j)"
    if "\<And>a. storing_at (sys_threads s j) = Some a \<Longrightarrow> read_quotas a c = read_quotas a (sys_cache s)" for c j
    using pending_ok_read [OF calm_okD(2) [OF assms]] that by blast
  have "pending_ok L (sys_cache (thread_step A i s)) (sys_threads (thread_step A i s) j)" for j
  proof (cases rule: thread_step_cases [of A i s])
    case idle
    then show ?thesis
      using calm_okD(2) [OF assms] by simp
  next
    case (get rq n skip a c)
    have "\<not> skip"
      using calm_okD(2) [OF assms, of i] by (simp add: get(1) pending_ok_def)
    moreover have "pending_ok L c (sys_threads s j)" for j
    proof (rule others)
      fix b
      assume "storing_at (sys_threads s j) = Some b"
      then have "b < length (rqc_heap (sys_cache s))"
        using ok(2) [of j] by (cases "sys_threads s j") (simp_all add: pointer_ok_def)
      then show "read_quotas b c = read_quotas b (sys_cache s)"
        by (rule GetOrCreate_pointers(3) [OF get(2)])
    qed
    ultimately show ?thesis
      unfolding get(3) by (auto simp: set_thread_def) (simp add: pending_ok_def)
  next
    case (answer a rq n skip r w t)
    have "\<not> skip"
      using calm_okD(2) [OF assms, of i] by (simp add: answer(1) pending_ok_def)
    then have "pending_ok L (sys_cache s) t"
      using answer(3) by (auto simp: pending_ok_def)
    then show ?thesis
      unfolding answer(4) using calm_okD(2) [OF assms] by (simp add: set_thread_def)
  next
    case (check a rq n skip entry w)
    have skip: "\<not> skip"
      using calm_okD(2) [OF assms, of i] by (simp add: check(1) pending_ok_def)
    have "a < length (rqc_heap (sys_cache s))"
      using ok(2) [of i] by (simp add: check(1) pointer_ok_def)
    then have wf: "mwf (read_quotas a (sys_cache s))"
      by (rule read_quotas_wf [OF ok(1)])
    have run: "validate_check A rq n False (read_quotas a (sys_cache s)) (sys_world s) = (Inr entry, w)"
      using check(3) skip by simp
    show ?thesis
      unfolding check(4) using calm_okD(2) [OF assms] by (auto simp: set_thread_def)
        (use check_fits [OF run wf] skip in \<open>simp add: pending_ok_def\<close>)
  next
    case (store a rq n skip entry)
    let ?c = "write_quotas a (mput (rq_Namespace rq) entry (read_quotas a (sys_cache s))) (sys_cache s)"
    have "pending_ok L ?c (sys_threads s j)" if "j \<noteq> i" for j
    proof (rule others)
      fix b
      assume "storing_at (sys_threads s j) = Some b"
      then have "b \<noteq> a"
        using ok(3) that store(1) unfolding locks_ok_def by (metis storing_at.simps(1))
      then show "read_quotas b ?c = read_quotas b (sys_cache s)"
        by (simp add: read_quotas_def write_quotas_def)
    qed
    then show ?thesis
      unfolding store(2) by (simp add: set_thread_def pending_ok_def [of L ?c "Finished None"])
  qed
  with sys show ?thesis
    by (simp add: calm_ok_def)
qed

lemma calm_step_ok:
  assumes "calm_ok L s" and "calm_step A s s'"
  shows "calm_ok L s'"
  using assms(2)
proof cases
  case calm_request
  from this(1) show ?thesis
  proof cases
    case (thread i)
    then show ?thesis
      using calm_ok_thread [OF assms(1)] by simp
  next
    case (world w)
    then show ?thesis
      using assms(1) by (simp add: calm_ok_def system_ok_def locks_ok_def)
  qed
next
  case (calm_sync qs c w)
  have "system_ok s'"
    using system_step_ok [OF calm_okD(1) [OF assms(1)]] calm_step_system [OF assms(2)] by blast
  moreover have "pending_ok L c (sys_threads s i)" for i
  proof (rule pending_ok_read [OF calm_okD(2) [OF assms(1)]])
    fix a
    assume "storing_at (sys_threads s i) = Some a"
    then show "read_quotas a c = read_quotas a (sys_cache s)"
      using system_okD(3) [OF calm_okD(1) [OF assms(1)]] calm_sync(2) unfolding locks_ok_def by fastforce
  qed
  ultimately show ?thesis
    using calm_sync(1) by (simp add: calm_ok_def)
qed

end

subsection \<open>Requests only\<close>

text \<open>
  Without \<open>Sync\<close> a pointer that a request holds is the one its name has, and the cached total of
  the ClusterResourceQuota \<open>n\<close> is within its limits \<open>H\<close>.
\<close>

definition only :: "resource_list \<Rightarrow> string \<Rightarrow> string \<Rightarrow> resource_list" where
  "only H n = (\<lambda>m. if m = n then H else [])"

definition bound :: "resource_quota_cache \<Rightarrow> (address \<times> string) option \<Rightarrow> bool" where
  "bound c ob \<longleftrightarrow> (\<forall>a m. ob = Some (a, m) \<longrightarrow> map_of (rqc_quotacache c) m = Some a)"

definition requests_inv :: "resource_list \<Rightarrow> string \<Rightarrow> ('w, 'e) system \<Rightarrow> bool" where
  "requests_inv H n s \<longleftrightarrow> total_within H n (sys_cache s) \<and> calm_ok (only H n) s \<and>
     (\<forall>i. bound (sys_cache s) (object_of (sys_threads s i)))"

lemma requests_invD:
  assumes "requests_inv H n s"
  shows "total_within H n (sys_cache s)" and "calm_ok (only H n) s"
    and "bound (sys_cache s) (object_of (sys_threads s i))"
  using assms by (simp_all add: requests_inv_def)

lemma total_within_GetOrCreate:
  assumes "total_within H n c" and "GetOrCreate m c = (a, c')"
  shows "total_within H n c'"
  using assms cache.goc_ok [OF _ assms(2)] cache.goc_view [OF _ assms(2)]
  by (auto simp: total_within_def)

lemma bound_GetOrCreate:
  assumes "GetOrCreate n c = (a, c')" and "bound c ob"
  shows "bound c' ob"
  using assms GetOrCreate_keeps_pointers [OF assms(1)] by (simp add: bound_def)

lemma thread_step_requests:
  assumes "requests_inv H n s" and "calm_ok (only H n) (thread_step A i s)"
  shows "requests_inv H n (thread_step A i s)"
proof -
  note inv = requests_invD [OF assms(1)]
  have "total_within H n (sys_cache (thread_step A i s)) \<and>
    bound (sys_cache (thread_step A i s)) (object_of (sys_threads (thread_step A i s) j))" for j
  proof (cases rule: thread_step_cases [of A i s])
    case idle
    then show ?thesis
      using inv(1,3) by simp
  next
    case (get rq m skip a c)
    have "bound c (Some (a, m))"
      by (simp add: bound_def GetOrCreate_lookup [OF get(2)])
    then show ?thesis
      unfolding get(3) using inv(1,3) total_within_GetOrCreate [OF _ get(2)] bound_GetOrCreate [OF get(2)]
      by (simp add: set_thread_def)
  next
    case (answer a rq m skip r w t)
    have "object_of t = None"
      using answer(3) by auto
    then show ?thesis
      unfolding answer(4) using inv(1,3) by (simp add: set_thread_def bound_def)
  next
    case (check a rq m skip entry w)
    have "bound (sys_cache s) (Some (a, m))"
      using inv(3) [of i] by (simp add: check(1))
    then show ?thesis
      unfolding check(4) using inv(1,3) by (simp add: set_thread_def)
  next
    case (store a rq m skip entry)
    let ?qs = "mput (rq_Namespace rq) entry (read_quotas a (sys_cache s))"
    have ok: "cache_ok (sys_cache s)"
      using inv(1) by (simp add: total_within_def)
    have here: "map_of (rqc_quotacache (sys_cache s)) m = Some a"
      using inv(3) [of i] by (simp add: store(1) bound_def)
    have "cache_ok (write_quotas a ?qs (sys_cache s))"
      using cache_ok_write [OF ok gm_wf(1) [OF cache_okD(2) [OF ok here]]] .
    moreover have "quotas_total ?qs k \<le> h" if "m = n" "map_of H k = Some h" for k h
      using calm_okD(2) [OF inv(2), of i] that by (simp add: store(1) pending_ok_def only_def)
    ultimately have "total_within H n (write_quotas a ?qs (sys_cache s))"
      using inv(1) by (auto simp: total_within_def view_write [OF ok here])
    moreover have "bound (write_quotas a ?qs (sys_cache s)) (object_of (sys_threads s j))" for j
      using inv(3) by (simp add: bound_def cache_simps)
    ultimately show ?thesis
      unfolding store(2) by (simp add: set_thread_def bound_def)
  qed
  then show ?thesis
    using assms(2) by (simp add: requests_inv_def)
qed

subsection \<open>Properties\<close>

text \<open>
  C6. Requests cannot overrun the limit together. However the steps of any number of concurrent
  requests of users who are not exempt interleave - getting the pointer, checking under the mutex,
  storing - with retries and with any changes in the world, the cached total of a
  ClusterResourceQuota that was within its hard limits stays within them, and the pointer each request
  holds stays the one its name has, so that no recorded usage is lost.
\<close>
theorem concurrent_requests_stay_within_limits:
  assumes "status_env A stored"
    and "\<forall>k h. map_of H k = Some h \<longrightarrow> 0 \<le> h"
    and "\<forall>w crq. fst (Get_crq (sa_Client A) n w) = Inr crq \<longrightarrow> crq_Status_Hard crq = H"
    and "requests_inv H n s" and "(request_step A)\<^sup>*\<^sup>* s s'"
  shows "requests_inv H n s'"
  using assms(5)
proof (induction rule: rtranclp_induct)
  case base
  show ?case
    by (rule assms(4))
next
  case (step y z)
  have "limited_env A stored (only H n)"
    using assms(1-3) by (simp add: limited_env_def limited_env_axioms_def only_def)
  then have calm: "calm_ok (only H n) z"
    using limited_env.calm_step_ok requests_invD(2) [OF step.IH] calm_step.calm_request [OF step.hyps(2)] by blast
  from step.hyps(2) show ?case
  proof cases
    case (thread i)
    then show ?thesis
      using thread_step_requests [OF step.IH] calm by simp
  next
    case (world w)
    then show ?thesis
      using step.IH calm by (simp add: requests_inv_def)
  qed
qed

definition two_threads :: "nat \<Rightarrow> ref_error thread" where
  "two_threads i =
    (if i = 0 then Starting (demo_quota ''team'' ''ns2'' 2) ''team'' False
     else if i = 1 then Starting (demo_quota ''team'' ''ns3'' 2) ''team'' False
     else Finished None)"

definition two_requests :: "(mem_world, ref_error) system" where
  "two_requests = \<lparr>sys_cache = demo_cache, sys_world = status_world, sys_threads = two_threads, sys_locked = []\<rparr>"

lemma two_requests_ok: "system_ok two_requests"
  by (simp add: system_ok_def two_requests_def demo_cache_ok locks_ok_def two_threads_def)

lemma two_requests_calm: "calm_ok L two_requests"
  by (simp add: calm_ok_def two_requests_ok) (simp add: two_requests_def two_threads_def pending_ok_def)

text \<open>
  Both get their pointers and the second checks; the first finds the mutex taken; the second stores,
  and the first is refused, as 7 and 2 and 2 exceed 10.
\<close>

definition two_requests_run :: "(mem_world, ref_error) system" where
  "two_requests_run = fold (thread_step fixed_status) [0, 1, 1, 0, 1, 0] two_requests"

lemma two_requests_results:
  "(case sys_threads two_requests_run 0 of Finished (Some e) \<Rightarrow> IsForbidden ref_errs e | _ \<Rightarrow> False) \<and>
   (case sys_threads two_requests_run 1 of Finished None \<Rightarrow> True | _ \<Rightarrow> False)"
  by code_simp

theorem concurrent_requests_stay_within_limits_witness:
  "requests_inv [(''cpu'', Quantity 10)] ''team'' two_requests_run"
proof (rule concurrent_requests_stay_within_limits [OF status_env_fixed])
  show "\<forall>k h. map_of [(''cpu'', Quantity 10)] k = Some h \<longrightarrow> 0 \<le> h"
    by (simp add: less_eq_quantity_def)
  show "\<forall>w crq. fst (Get_crq (sa_Client fixed_status) ''team'' w) = Inr crq \<longrightarrow>
      crq_Status_Hard crq = [(''cpu'', Quantity 10)]"
    by (auto simp: fixed_status_def fixed_client_def split: sum.splits)
  show "requests_inv [(''cpu'', Quantity 10)] ''team'' two_requests"
    unfolding requests_inv_def
    by (simp add: two_requests_calm) (simp add: two_requests_def total_within_def demo_cache_ok quotas_total_def
        bound_def two_threads_def)
  have "(request_step fixed_status)\<^sup>*\<^sup>* s (fold (thread_step fixed_status) js s)" for js s
  proof (induction js arbitrary: s)
    case (Cons i js)
    then show ?case
      using request_step.thread [of fixed_status s i] by (auto intro: converse_rtranclp_into_rtranclp)
  qed simp
  then show "(request_step fixed_status)\<^sup>*\<^sup>* two_requests two_requests_run"
    unfolding two_requests_run_def .
qed

text \<open>
  C14. With \<open>Sync\<close> in between an accepted usage can be lost. If \<open>Sync\<close> runs after a request has got its
  pointer and before it has checked, and its listing does not have the ClusterResourceQuota yet, then
  \<open>Sync\<close> drops the entry and the request records its usage in an object that no name points to:
  whatever the check does, the cache has no usage for the name, and the next request is
  checked as if there were none.
\<close>
theorem sync_orphans_a_running_request:
  assumes "cache_ok c" and "GetOrCreate n c = (a, c1)"
    and "Sync now qs c1 w1 = (c2, w2)" and "listed (fst (now w1)) qs n = None"
    and "OnLock a (validate_locked A rq n skip) c2 w = (r, c3, w3)"
  shows "view c3 = view c2 \<and> view c3 n = None"
proof -
  have ok1: "cache_ok c1"
    using cache.goc_ok [OF assms(1,2)] .
  have here: "map_of (rqc_quotacache c1) n = Some a"
    by (rule GetOrCreate_lookup [OF assms(2)])
  have "usage c2 n = None"
    using Sync_effect(2) [OF ok1 assms(3)] assms(4) by simp
  then have gone: "view c2 n = None" and "map_of (rqc_quotacache c2) n = None"
    by (simp_all add: usage_def view_def)
  have "a \<notin> ran (map_of (rqc_quotacache c2))"
  proof
    assume "a \<in> ran (map_of (rqc_quotacache c2))"
    then obtain m where m: "map_of (rqc_quotacache c2) m = Some a"
      by (auto simp: ran_def)
    with Sync_pointers [OF assms(3)] cache_okD(1) [OF ok1 here]
    have "map_of (rqc_quotacache c1) m = Some a"
      by fastforce
    then have "m = n"
      using cache_okD(3) [OF ok1 here] by simp
    with m show False
      using \<open>map_of (rqc_quotacache c2) n = None\<close> by simp
  qed
  moreover obtain qs' where "c3 = write_quotas a qs' c2"
    using assms(5) by (auto simp: OnLock_def split: prod.splits)
  ultimately show ?thesis
    using view_write_orphan [of a c2 qs'] gone by simp
qed

text \<open>
  The request is the first for its ClusterResourceQuota, and the listing comes from a client cache
  that does not have its ResourceQuota yet. The check succeeds, and the cache stays empty.
\<close>

definition orphan_start :: resource_quota_cache where
  "orphan_start = snd (GetOrCreate ''team'' NewResourceQuotaCache)"

definition orphan_synced :: resource_quota_cache where
  "orphan_synced = fst (Sync tick_clock [] orphan_start 0)"

definition orphan_checked :: "ref_error option \<times> resource_quota_cache \<times> mem_world" where
  "orphan_checked = OnLock 0 (validate_locked ref_status (demo_quota ''team'' ''ns1'' 9) ''team'' False)
     orphan_synced status_world"

theorem sync_orphans_a_running_request_witness:
  "fst orphan_checked = None \<and> view (fst (snd orphan_checked)) ''team'' = None"
proof
  show "fst orphan_checked = None"
    by code_simp
  have goc: "GetOrCreate ''team'' NewResourceQuotaCache = (0, orphan_start)"
    unfolding orphan_start_def by code_simp
  have sync: "Sync tick_clock [] orphan_start 0 = (orphan_synced, 1)"
    unfolding orphan_synced_def by code_simp
  have run: "OnLock 0 (validate_locked ref_status (demo_quota ''team'' ''ns1'' 9) ''team'' False)
      orphan_synced status_world = (fst orphan_checked, fst (snd orphan_checked), snd (snd orphan_checked))"
    by (simp add: orphan_checked_def)
  show "view (fst (snd orphan_checked)) ''team'' = None"
    using sync_orphans_a_running_request [OF cache_ok_New goc sync _ run] by (auto simp: listed_def)
qed

end
