(* ===== verification/Resync.thy ===== *)
theory Resync
  imports Api_Server "HOL-Library.Word"
begin

section \<open>Resync periods (\<open>ResyncPeriod\<close> of \<open>manager.go\<close>)\<close>

text \<open>
  Every informer factory gets its own resync period, the configured one times a random factor
  between 1 and 2. The code computes it in \<open>float64\<close>. A positive float here is an integer in a fixed unit, and
  \<open>round53\<close> rounds it to 53 significant bits, to the nearest and to even on a tie, as IEEE 754 does;
  it rounds exact integers only, so no float below the unit is ever needed.
\<close>

function ulp :: "int \<Rightarrow> int" where
  "ulp n = (if n < 2 ^ 53 then 1 else 2 * ulp (n div 2))"
  by auto
termination
  by (relation "measure nat") auto

declare ulp.simps [simp del]

definition round53 :: "int \<Rightarrow> int" where
  "round53 n =
    (let u = ulp n; q = n div u; r = n mod u in
     if 2 * r < u \<or> 2 * r = u \<and> even q then q * u else (q + 1) * u)"

text \<open>
  \<open>rand.Float64()\<close> of \<open>math/rand/v2\<close> is a random 53-bit integer divided by \<open>2 ^ 53\<close>. The unit of the
  factor and of the product is \<open>2 ^ -53\<close>, that of \<open>float64(d.Nanoseconds())\<close> is a nanosecond. The conversion to
  \<open>Duration\<close> cuts towards zero; above \<open>2 ^ 63\<close> nanoseconds, where Go leaves its result open, the model has
  the exact number.
\<close>

definition Float64 :: "53 word \<Rightarrow> int" where
  "Float64 draw = uint draw"

definition ResyncPeriod :: "time \<Rightarrow> 53 word \<Rightarrow> time" where
  "ResyncPeriod d draw =
    (let factor = round53 (Float64 draw + 2 ^ 53);
         product = round53 (round53 \<bar>d\<bar> * factor) in
     sgn d * (product div 2 ^ 53))"


subsection \<open>Rounding\<close>

lemma ulp_props:
  assumes "0 \<le> n"
  shows "\<exists>e. ulp n = 2 ^ e \<and> (e = 0 \<or> 2 ^ 52 * 2 ^ e \<le> n)"
  using assms
proof (induction n rule: ulp.induct)
  case (1 n)
  show ?case
  proof (cases "n < 2 ^ 53")
    case True
    then show ?thesis
      by (intro exI [of _ 0]) (simp add: ulp.simps)
  next
    case False
    then obtain e where e: "ulp (n div 2) = 2 ^ e" "e = 0 \<or> 2 ^ 52 * 2 ^ e \<le> n div 2"
      using 1 by auto
    have "2 ^ 52 * 2 ^ Suc e \<le> n"
      using e(2) False by (cases "e = 0") auto
    moreover have "ulp n = 2 ^ Suc e"
      using False e(1) by (simp add: ulp.simps [of n])
    ultimately show ?thesis
      by blast
  qed
qed

lemma round53_between:
  assumes "0 < ulp n"
  shows "n div ulp n * ulp n \<le> round53 n" and "round53 n \<le> (n div ulp n + 1) * ulp n"
    and "ulp n dvd n \<Longrightarrow> round53 n = n"
  using assms by (auto simp: round53_def Let_def algebra_simps)

text \<open>A number of at most 53 bits bounds what rounds to it from either side.\<close>

lemma multiple_or_below:
  assumes "0 \<le> n" and "0 \<le> m" and "m \<le> 2 ^ 53"
  shows "ulp n dvd m * 2 ^ k \<or> m * 2 ^ k \<le> 2 ^ 52 * ulp n \<and> 2 ^ 52 * ulp n \<le> n"
proof -
  obtain e where e: "ulp n = 2 ^ e" "e = 0 \<or> 2 ^ 52 * 2 ^ e \<le> n"
    using ulp_props [OF assms(1)] by blast
  show ?thesis
  proof (cases "e \<le> k")
    case True
    then show ?thesis
      unfolding e(1) by (intro disjI1 dvd_mult le_imp_power_dvd)
  next
    case False
    then obtain j where j: "e = Suc (k + j)"
      using less_imp_Suc_add by (metis not_le)
    have "m * 2 ^ k \<le> 2 ^ 53 * 2 ^ k"
      using assms(3) by (intro mult_right_mono) auto
    also have "\<dots> \<le> 2 ^ 53 * 2 ^ (k + j)"
      by (intro mult_left_mono power_increasing) auto
    also have "\<dots> = 2 ^ 52 * ulp n"
      by (simp add: e(1) j)
    finally show ?thesis
      using e j by simp
  qed
qed

lemma round53_bounds:
  assumes "0 \<le> n" and "0 \<le> m" and "m \<le> 2 ^ 53"
  shows "m * 2 ^ k \<le> n \<Longrightarrow> m * 2 ^ k \<le> round53 n"
    and "n \<le> m * 2 ^ k \<Longrightarrow> round53 n \<le> m * 2 ^ k"
proof -
  let ?u = "ulp n"
  have pos: "0 < ?u"
    using ulp_props [OF assms(1)] by auto
  note between = round53_between [OF pos]
  {
    fix q assume "q * ?u \<le> n"
    then have "q \<le> n div ?u"
      using zdiv_mono1 [of "q * ?u" n ?u] pos by simp
    then have "q * ?u \<le> round53 n"
      using between(1) pos by (meson mult_right_mono order_trans less_imp_le)
  }
  note low = this
  {
    fix q assume q: "n \<le> q * ?u"
    have "round53 n \<le> q * ?u"
    proof (cases "n = q * ?u")
      case True
      then have "?u dvd n"
        by (metis dvd_triv_right)
      then show ?thesis
        using between(3) q by simp
    next
      case False
      moreover have "n div ?u * ?u \<le> n"
        using pos by (metis div_mult_mod_eq le_add_same_cancel1 pos_mod_sign)
      ultimately have "n div ?u * ?u < q * ?u"
        using q by linarith
      then have "n div ?u < q"
        using pos by simp
      then have "(n div ?u + 1) * ?u \<le> q * ?u"
        using pos by (intro mult_right_mono) auto
      then show ?thesis
        using between(2) by linarith
    qed
  }
  note high = this
  show "m * 2 ^ k \<le> n \<Longrightarrow> m * 2 ^ k \<le> round53 n"
    using multiple_or_below [OF assms, of k] low [of "2 ^ 52"] low [of "m * 2 ^ k div ?u"]
    by (auto simp: dvd_div_mult_self)
  show "n \<le> m * 2 ^ k \<Longrightarrow> round53 n \<le> m * 2 ^ k"
    using multiple_or_below [OF assms, of k] high [of "2 ^ 52"] high [of "m * 2 ^ k div ?u"]
    by (auto simp: dvd_div_mult_self)
qed

lemma round53_exact: "0 \<le> n \<Longrightarrow> n \<le> 2 ^ 53 \<Longrightarrow> round53 n = n"
  using round53_bounds [of n n 0] by (simp add: order_antisym)


subsection \<open>The period\<close>

text \<open>
  A period below \<open>2 ^ 53\<close> nanoseconds (104 days) is kept at least as long as configured and at most doubled, whatever
  the draw and however the three float operations round.
\<close>

lemma resync_period_bounds:
  assumes "0 \<le> d" and "d < 2 ^ 53"
  shows "d \<le> ResyncPeriod d draw" and "ResyncPeriod d draw \<le> 2 * d"
proof -
  let ?factor = "round53 (uint draw + 2 ^ 53)"
  have draw: "0 \<le> uint draw" "uint draw < 2 ^ 53"
    using uint_lt2p [of draw] by simp_all
  have factor: "2 ^ 53 \<le> ?factor" "?factor \<le> 2 ^ 54"
    using round53_bounds [of "uint draw + 2 ^ 53" "2 ^ 53" 0] round53_bounds [of "uint draw + 2 ^ 53" "2 ^ 53" 1] draw
    by simp_all
  let ?product = "d * ?factor"
  have product: "d * 2 ^ 53 \<le> ?product" "?product \<le> d * 2 ^ 54"
    using factor assms(1) by (auto intro: mult_left_mono)
  have d: "round53 d = d"
    using assms by (simp add: round53_exact)
  have r: "d * 2 ^ 53 \<le> round53 ?product" "round53 ?product \<le> d * 2 ^ 54"
    by (rule round53_bounds; use product assms in simp)+
  have "d \<le> round53 ?product div 2 ^ 53"
    using zdiv_mono1 [OF r(1), of "2 ^ 53"] by simp
  moreover have "d * 2 ^ 54 div 2 ^ 53 = 2 * d"
    by simp
  then have "round53 ?product div 2 ^ 53 \<le> 2 * d"
    using zdiv_mono1 [OF r(2), of "2 ^ 53"] by simp
  ultimately show "d \<le> ResyncPeriod d draw" and "ResyncPeriod d draw \<le> 2 * d"
    using assms(1) by (simp_all add: ResyncPeriod_def Float64_def Let_def d sgn_if)
qed

end
