(* ===== verification/Manager.thy ===== *)
theory Manager
  imports Adaptor Interleaving Resync
begin

section \<open>Configuration and start-up (\<open>manager.go\<close>, \<open>resourcequota.go\<close>, \<open>clusterresourcequota.go\<close>)\<close>

text \<open>
  How the process is put together: the options, the manager's options made from them, the order in
  which the parts are constructed and registered, the errors that stop it, and the goroutines that
  start the informers. The constructors of other packages are parameters: what a call
  returns is a field of \<open>setup_env\<close>, and a call that only has an effect on another package is an
  entry of a trace.
\<close>

subsection \<open>Options\<close>

record leader_election_options =
  leo_Enabled :: bool
  leo_ID :: string

record webhook_options =
  who_Enabled :: bool
  who_Addr :: string
  who_CertDir :: string

record metrics_options =
  mto_Enabled :: bool
  mto_Addr :: string

record probe_options =
  pro_Enabled :: bool
  pro_Addr :: string

text \<open>The pointers are \<open>None\<close> when nil.\<close>

record options =
  opt_LeaderElection :: "leader_election_options option"
  opt_Webhook :: "webhook_options option"
  opt_Metrics :: "metrics_options option"
  opt_ResyncPeriod :: time
  opt_Probe :: "probe_options option"
  opt_ResourceQuotaConfigFile :: string

definition NewDefaultOptions :: options where
  "NewDefaultOptions = \<lparr>
     opt_LeaderElection = Some \<lparr>leo_Enabled = False, leo_ID = ''clusterresourcequota'' @ GroupPrefix\<rparr>,
     opt_Webhook = Some \<lparr>who_Enabled = True, who_Addr = '':8443'', who_CertDir = ''certs''\<rparr>,
     opt_Metrics = Some \<lparr>mto_Enabled = True, mto_Addr = '':9090''\<rparr>,
     opt_ResyncPeriod = 3600 * second,
     opt_Probe = Some \<lparr>pro_Enabled = True, pro_Addr = '':8080''\<rparr>,
     opt_ResourceQuotaConfigFile = []\<rparr>"

text \<open>The fields of \<open>manager.Options\<close> that are set, with the zero value where none is.\<close>

record webhook_server =
  whs_Host :: string
  whs_Port :: int
  whs_CertDir :: string

record manager_options =
  mgo_LeaderElection :: bool
  mgo_LeaderElectionID :: string
  mgo_WebhookServer :: "webhook_server option"
  mgo_MetricsBindAddress :: string
  mgo_HealthProbeBindAddress :: string

text \<open>
  \<open>strconv.Atoi\<close>, whose error the code drops: the value, or zero for a malformed number. The digits
  are read as a 64-bit unsigned integer; at an overflow the reading stops, with the largest value,
  before it has looked at the rest. The sign comes last, and clamps to 64 bits.
\<close>

definition digit :: "char \<Rightarrow> int option" where
  "digit c = (let n = int (of_char c) in if 48 \<le> n \<and> n \<le> 57 then Some (n - 48) else None)"

fun ParseUint :: "int \<Rightarrow> string \<Rightarrow> int option" where
  "ParseUint n [] = Some n"
| "ParseUint n (c # cs) =
    (case digit c of
      None \<Rightarrow> None
    | Some d \<Rightarrow> if 10 * n + d > 2 ^ 64 - 1 then Some (2 ^ 64 - 1) else ParseUint (10 * n + d) cs)"

definition Atoi :: "string \<Rightarrow> int" where
  "Atoi s =
    (let (neg, body) = (case s of c # cs \<Rightarrow>
            if c = CHR ''-'' then (True, cs) else if c = CHR ''+'' then (False, cs) else (False, s)
          | [] \<Rightarrow> (False, [])) in
     if body = [] then 0
     else case ParseUint 0 body of
       None \<Rightarrow> 0
     | Some n \<Rightarrow> if neg then max (- n) (- (2 ^ 63)) else min n (2 ^ 63 - 1))"

text \<open>
  The options of \<open>RunWithConfig\<close>, in its order; \<open>libnet.SplitHostPort\<close> is a parameter. Reading a
  field through a nil pointer panics. A webhook server that is left unset does not mean that there is none:
  controller-runtime then makes a default one.
\<close>

definition deref :: "'a option \<Rightarrow> go_panic + 'a" where
  "deref p = (case p of None \<Rightarrow> Inl NilDereference | Some x \<Rightarrow> Inr x)"

definition manager_options_of :: "(string \<Rightarrow> string \<times> string) \<Rightarrow> options \<Rightarrow> go_panic + manager_options" where
  "manager_options_of SplitHostPort options =
    (let m0 = \<lparr>mgo_LeaderElection = False, mgo_LeaderElectionID = [], mgo_WebhookServer = None,
           mgo_MetricsBindAddress = [], mgo_HealthProbeBindAddress = []\<rparr> in
     sum_bind (deref (opt_LeaderElection options)) (\<lambda>le.
     let m1 = (if leo_Enabled le then m0\<lparr>mgo_LeaderElection := True, mgo_LeaderElectionID := leo_ID le\<rparr>
               else m0) in
     sum_bind (deref (opt_Webhook options)) (\<lambda>wh.
     let m2 = (if who_Enabled wh then
                 (case SplitHostPort (who_Addr wh) of (host, portstr) \<Rightarrow>
                   m1\<lparr>mgo_WebhookServer := Some \<lparr>whs_Host = host, whs_Port = Atoi portstr,
                     whs_CertDir = who_CertDir wh\<rparr>\<rparr>)
               else m1) in
     sum_bind (deref (opt_Metrics options)) (\<lambda>mt.
     let m3 = (if mto_Enabled mt then m2\<lparr>mgo_MetricsBindAddress := mto_Addr mt\<rparr> else m2) in
     sum_bind (deref (opt_Probe options)) (\<lambda>pr.
     Inr (if pro_Enabled pr then m3\<lparr>mgo_HealthProbeBindAddress := pro_Addr pr\<rparr> else m3))))))"

subsection \<open>The configuration of the quota plugin\<close>

record limited_resource =
  lr_APIGroup :: string
  lr_Resource :: string
  lr_MatchContains :: "string list"

record rq_configuration =
  rqc_LimitedResources :: "limited_resource list"

definition DefaultResourceQuotaConfig :: rq_configuration where
  "DefaultResourceQuotaConfig = \<lparr>rqc_LimitedResources =
     [\<lparr>lr_APIGroup = ''v1'', lr_Resource = ''pods'', lr_MatchContains = [''*'']\<rparr>]\<rparr>"

text \<open>What the calls into other packages return at start-up; \<open>env_Float64\<close> are the draws of \<open>rand.Float64\<close>.\<close>

record 'e setup_env =
  env_GetConfig :: "'e option"
  env_manager_New :: "manager_options \<Rightarrow> 'e option"
  env_manager_Start :: "'e option"
  env_controller_Complete :: "'e option"
  env_kubernetes_NewForConfig :: "'e option"
  env_metadata_NewForConfig :: "'e option"
  env_thisclientset_NewForConfig :: "'e option"
  env_ReadFile :: "string \<Rightarrow> 'e + string"
  env_Unmarshal :: "string \<Rightarrow> 'e + rq_configuration"
  env_plugin_NewResourceQuota :: "rq_configuration \<Rightarrow> nat \<Rightarrow> 'e option"
  env_quota_NewController :: "'e option"
  env_Float64 :: "nat \<Rightarrow> 53 word"
  env_SplitHostPort :: "string \<Rightarrow> string \<times> string"
  env_Errors :: "'e err_lib"

definition GetResourceQuotaConfig :: "'e setup_env \<Rightarrow> string \<Rightarrow> 'e + rq_configuration" where
  "GetResourceQuotaConfig V path =
    (if path = [] then Inr DefaultResourceQuotaConfig
     else case env_ReadFile V path of
       Inl err \<Rightarrow> Inl (Errorf (env_Errors V) ''read resourcequota config file: %w'' [FErr err])
     | Inr data \<Rightarrow>
         (case env_Unmarshal V data of
           Inl err \<Rightarrow> Inl (Errorf (env_Errors V) ''unmarshal resourcequota config file: %w'' [FErr err])
         | Inr cfg \<Rightarrow> Inr cfg))"

text \<open>
  \<open>TrimMetadata\<close>, over objects \<open>'o\<close> with \<open>meta.Accessor\<close>: the managed fields of an object, or \<open>None\<close>
  inside \<open>Some\<close> when they are nil, or \<open>None\<close> when it is no API object.
\<close>

definition TrimMetadata :: "('o \<Rightarrow> 'f option option) \<Rightarrow> ('o \<Rightarrow> 'o) \<Rightarrow> 'o \<Rightarrow> 'o" where
  "TrimMetadata managed_fields clear_managed_fields obj =
    (case managed_fields obj of
      Some (Some mfs) \<Rightarrow> clear_managed_fields obj
    | _ \<Rightarrow> obj)"

subsection \<open>The controller context\<close>

text \<open>
  The context holds the two factories of the repository, the resync periods drawn for the two of
  Kubernetes, and the channel \<open>InformersStarted\<close>. \<open>cc_go\<close> are the goroutines that \<open>Start\<close> has
  launched and that have not run yet.
\<close>

datatype goroutine = StartThis | StartShared | StartObjectOrMetadata | StartHijacked

record ('o, 'tr) controller_context =
  cc_InformersStarted :: bool
  cc_InformerFactory_resync :: time
  cc_MetadataFactory_resync :: time
  cc_ThisInformerFactory :: "('o, 'tr) factory"
  cc_HijackedInformerFactory :: "('o, 'tr) factory"
  cc_shared_starts :: nat
  cc_metadata_starts :: nat
  cc_go :: "goroutine list"

text \<open>\<open>ResyncPeriod(d)()\<close> draws its factor anew for every factory.\<close>

definition NewControllerContextFromClientSet ::
  "'e setup_env \<Rightarrow> time \<Rightarrow> 'e + ('o, 'tr) controller_context" where
  "NewControllerContextFromClientSet V resyncPeriod =
    Inr \<lparr>cc_InformersStarted = False,
         cc_InformerFactory_resync = ResyncPeriod resyncPeriod (env_Float64 V 0),
         cc_MetadataFactory_resync = ResyncPeriod resyncPeriod (env_Float64 V 3),
         cc_ThisInformerFactory = NewSharedInformerFactoryWithOptions (ResyncPeriod resyncPeriod (env_Float64 V 1)) [],
         cc_HijackedInformerFactory = NewSharedInformerFactoryWithOptions (ResyncPeriod resyncPeriod (env_Float64 V 2)) [],
         cc_shared_starts = 0, cc_metadata_starts = 0, cc_go = []\<rparr>"

definition NewControllerContext :: "'e setup_env \<Rightarrow> options \<Rightarrow> 'e + ('o, 'tr) controller_context" where
  "NewControllerContext V options =
    (case env_kubernetes_NewForConfig V of
      Some err \<Rightarrow> Inl (Errorf (env_Errors V) ''create kubernetes client: %w'' [FErr err])
    | None \<Rightarrow>
        (case env_metadata_NewForConfig V of
          Some err \<Rightarrow> Inl (Errorf (env_Errors V) ''create metadata client: %w'' [FErr err])
        | None \<Rightarrow>
            (case env_thisclientset_NewForConfig V of
              Some err \<Rightarrow> Inl (Errorf (env_Errors V) ''create this client: %w'' [FErr err])
            | None \<Rightarrow> NewControllerContextFromClientSet V (opt_ResyncPeriod options))))"

definition Context_Start :: "('o, 'tr) controller_context \<Rightarrow> go_panic + ('o, 'tr) controller_context" where
  "Context_Start c =
    (let c = c\<lparr>cc_go := cc_go c @ [StartThis, StartShared, StartObjectOrMetadata, StartHijacked]\<rparr> in
     if cc_InformersStarted c then Inl CloseOfClosedChannel
     else Inr (c\<lparr>cc_InformersStarted := True\<rparr>))"

fun run_goroutine :: "goroutine \<Rightarrow> ('o, 'tr) controller_context \<Rightarrow> ('o, 'tr) controller_context" where
  "run_goroutine StartThis c = c\<lparr>cc_ThisInformerFactory := Start (cc_ThisInformerFactory c)\<rparr>"
| "run_goroutine StartShared c = c\<lparr>cc_shared_starts := Suc (cc_shared_starts c)\<rparr>"
| "run_goroutine StartObjectOrMetadata c = c\<lparr>cc_metadata_starts := Suc (cc_metadata_starts c)\<rparr>"
| "run_goroutine StartHijacked c = c\<lparr>cc_HijackedInformerFactory := Start (cc_HijackedInformerFactory c)\<rparr>"

text \<open>\<open>HasStarted\<close> polls the channel, which is ready once it is closed.\<close>

definition HasStarted :: "('o, 'tr) controller_context \<Rightarrow> bool" where
  "HasStarted c = (if cc_InformersStarted c then True else False)"

subsection \<open>Construction\<close>

text \<open>
  The effects of start-up, in order. The cache that the status webhook uses is the one that the
  runnable fills.
\<close>

datatype webhook_handler = StatusHandler | RemoveHandler | ValidationHandler

datatype start_effect =
  CompleteController
| AddCacheSyner time
| RegisterWebhook string webhook_handler
| SetHijackTransform
| SetDrainedNotification
| SetQuotaConfiguration
| SetExternalKubeClientSet
| SetExternalKubeInformerFactory
| GoContextStart
| GoQuotaControllerRun
| AddHealthzCheck string
| StartManager

text \<open>\<open>NewClusterResourceQuota\<close> of \<open>clusterresourcequota.go\<close>.\<close>

definition NewClusterResourceQuota :: "'e setup_env \<Rightarrow> 'e option \<times> start_effect list" where
  "NewClusterResourceQuota V =
    (case env_controller_Complete V of
      Some err \<Rightarrow> (Some err, [])
    | None \<Rightarrow> (None, [CompleteController, AddCacheSyner (30 * second),
        RegisterWebhook ''/validate-resourcequota-status'' StatusHandler,
        RegisterWebhook ''/validate-resourcequota-remove'' RemoveHandler]))"

text \<open>\<open>resourcequota.go\<close>.\<close>

definition NewResourceQuotaAdmission :: "'e setup_env \<Rightarrow> rq_configuration \<Rightarrow> 'e option \<times> start_effect list" where
  "NewResourceQuotaAdmission V rqConfig =
    (case env_plugin_NewResourceQuota V rqConfig 5 of
      Some err \<Rightarrow> (Some err, [])
    | None \<Rightarrow> (None, [SetDrainedNotification, SetQuotaConfiguration, SetExternalKubeClientSet,
        SetExternalKubeInformerFactory]))"

record quota_controller =
  qc_ResyncPeriod :: time
  qc_ReplenishmentResyncPeriod :: time
  qc_discoveryFunc :: bool

definition NewConditionalResourceQuotaController :: "'e setup_env \<Rightarrow> 'e + quota_controller" where
  "NewConditionalResourceQuotaController V =
    (let options = \<lparr>qc_ResyncPeriod = 600 * second, qc_ReplenishmentResyncPeriod = 43200 * second,
           qc_discoveryFunc = True\<rparr> in
     case env_quota_NewController V of
       Some err \<Rightarrow> Inl err
     | None \<Rightarrow> Inr options)"

text \<open>
  The transform goes to the ResourceQuota informer of the hijacked factory before any other code
  asks for that informer.
\<close>

definition NewResourceQuota ::
  "'e setup_env \<Rightarrow> 'tr \<Rightarrow> ('o, 'tr) controller_context \<Rightarrow> rq_configuration \<Rightarrow>
   ('e + quota_controller) \<times> start_effect list \<times> ('o, 'tr) controller_context" where
  "NewResourceQuota V tr context rqConfig =
    (case hijack_informer tr (cc_HijackedInformerFactory context) of
      (hijackInformer, hijacked) \<Rightarrow>
        let context = context\<lparr>cc_HijackedInformerFactory := hijacked\<rparr> in
        (case NewResourceQuotaAdmission V rqConfig of
          (Some err, eff) \<Rightarrow> (Inl err, SetHijackTransform # eff, context)
        | (None, eff) \<Rightarrow>
            (NewConditionalResourceQuotaController V, SetHijackTransform # eff, context)))"

text \<open>
  \<open>ConditionalResourceQuotaController.Run\<close>: the goroutines of the error group; it returns when the
  last of them has.
\<close>

datatype quota_goroutine = ControllerRun nat | ControllerSync time

definition ConditionalResourceQuotaController_Run :: "quota_controller \<Rightarrow> quota_goroutine list" where
  "ConditionalResourceQuotaController_Run c =
    (let eg = [ControllerRun 1] in
     if qc_discoveryFunc c then eg @ [ControllerSync (60 * second)] else eg)"

definition Setup :: "'e setup_env \<Rightarrow> 'tr \<Rightarrow> options \<Rightarrow>
    'e option \<times> start_effect list \<times> ('o, 'tr) controller_context option" where
  "Setup V tr options =
    (case NewClusterResourceQuota V of
      (Some err, eff) \<Rightarrow>
        (Some (Errorf (env_Errors V) ''create cluster resource quota controller: %w'' [FErr err]), eff, None)
    | (None, eff) \<Rightarrow>
        (case NewControllerContext V options of
          Inl err \<Rightarrow> (Some err, eff, None)
        | Inr context \<Rightarrow>
            (case GetResourceQuotaConfig V (opt_ResourceQuotaConfigFile options) of
              Inl err \<Rightarrow> (Some (Errorf (env_Errors V) ''load resource quota config: %w'' [FErr err]), eff, None)
            | Inr rqConfig \<Rightarrow>
                (case NewResourceQuota V tr context rqConfig of
                  (Inl err, eff', context) \<Rightarrow>
                    (Some (Errorf (env_Errors V) ''create resource quota admission: %w'' [FErr err]),
                     eff @ eff', Some context)
                | (Inr controller, eff', context) \<Rightarrow>
                    (None, eff @ eff' @ [GoContextStart, GoQuotaControllerRun,
                       RegisterWebhook ''/validate'' ValidationHandler], Some context)))))"

text \<open>The outcome of a run: an error, or a panic.\<close>

datatype 'e run_result = Panicked go_panic | RunReturned "'e option"

definition RunWithConfig :: "'e setup_env \<Rightarrow> 'tr \<Rightarrow> options \<Rightarrow>
    'e run_result \<times> start_effect list \<times> ('o, 'tr) controller_context option" where
  "RunWithConfig V tr options =
    (case manager_options_of (env_SplitHostPort V) options of
      Inl p \<Rightarrow> (Panicked p, [], None)
    | Inr managerOptions \<Rightarrow>
        (case env_manager_New V managerOptions of
          Some err \<Rightarrow> (RunReturned (Some err), [], None)
        | None \<Rightarrow>
            (case Setup V tr options of
              (Some err, eff, context) \<Rightarrow> (RunReturned (Some err), eff, context)
            | (None, eff, context) \<Rightarrow>
                (RunReturned (env_manager_Start V), eff @ [AddHealthzCheck ''ping'', StartManager], context))))"

definition Run :: "'e setup_env \<Rightarrow> 'tr \<Rightarrow> options \<Rightarrow>
    'e run_result \<times> start_effect list \<times> ('o, 'tr) controller_context option" where
  "Run V tr options =
    (case env_GetConfig V of
      Some err \<Rightarrow> (RunReturned (Some (Errorf (env_Errors V) ''failed to get config: %w'' [FErr err])), [], None)
    | None \<Rightarrow> RunWithConfig V tr options)"

text \<open>
  \<open>NewRootCmd\<close> of \<open>cmd/clusterresourcequota/main.go\<close>: the flags are parsed into the default options
  (\<open>config.Parse\<close> is a parameter that gives the parsed options or an error), then \<open>Run\<close>; and the exit
  code of \<open>main\<close>, which is that of the Go run time after a panic.
\<close>

definition NewRootCmd_RunE :: "(options \<Rightarrow> 'e + options) \<Rightarrow> 'e setup_env \<Rightarrow> 'tr \<Rightarrow>
    'e run_result \<times> start_effect list \<times> ('o, 'tr) controller_context option" where
  "NewRootCmd_RunE config_Parse V tr =
    (case config_Parse NewDefaultOptions of
      Inl err \<Rightarrow> (RunReturned (Some err), [], None)
    | Inr options \<Rightarrow> Run V tr options)"

definition ErrExitCode :: nat where
  "ErrExitCode = 1"

definition main_exit :: "'e run_result \<Rightarrow> nat" where
  "main_exit r =
    (case r of
      RunReturned None \<Rightarrow> 0
    | RunReturned (Some err) \<Rightarrow> ErrExitCode
    | Panicked p \<Rightarrow> 2)"

subsection \<open>Lemmas\<close>

lemma deref_simps [simp]: "deref None = Inl NilDereference" "deref (Some x) = Inr x"
  by (simp_all add: deref_def)

lemma hijack_informer_fresh:
  assumes "fresh_factory f"
  shows "fst (hijack_informer tr f) = 0"
    and "map_of (f_informers (snd (hijack_informer tr f))) ''ResourceQuota'' = Some 0"
    and "transform_at 0 (snd (hijack_informer tr f)) = Some tr"
    and "launched (snd (hijack_informer tr f)) a = 0"
  using assms
  by (simp_all add: hijack_informer_def ResourceQuotas_Informer_eq InformerFor_def fresh_factory_def Let_def
      SetTransform_def set_inf_def transform_at_def launched_def NewFilteredResourceQuotaInformer_def)

lemma fresh_new_factory: "fresh_factory (NewSharedInformerFactoryWithOptions r [])"
  by (simp add: NewSharedInformerFactoryWithOptions_def fresh_factory_def)

lemma NewControllerContext_Inr:
  "NewControllerContext V opts = Inr c \<Longrightarrow>
   fresh_factory (cc_HijackedInformerFactory c) \<and> \<not> cc_InformersStarted c \<and> cc_go c = []"
  by (auto simp: NewControllerContext_def NewControllerContextFromClientSet_def fresh_new_factory
      split: option.splits)

text \<open>No factory resyncs more often than configured, nor less than half as often.\<close>

lemma context_resync_periods:
  assumes "0 \<le> d" and "d < 2 ^ 53" and "NewControllerContextFromClientSet V d = Inr c"
  shows "\<forall>r \<in> {cc_InformerFactory_resync c, cc_MetadataFactory_resync c,
      f_defaultResync (cc_ThisInformerFactory c), f_defaultResync (cc_HijackedInformerFactory c)}. d \<le> r \<and> r \<le> 2 * d"
  using assms(3) resync_period_bounds [OF assms(1,2)]
  by (auto simp: NewControllerContextFromClientSet_def NewSharedInformerFactoryWithOptions_def)

lemma fold_goroutines:
  "fold run_goroutine gs c = c\<lparr>
     cc_ThisInformerFactory := (Start ^^ count_list gs StartThis) (cc_ThisInformerFactory c),
     cc_HijackedInformerFactory := (Start ^^ count_list gs StartHijacked) (cc_HijackedInformerFactory c),
     cc_shared_starts := cc_shared_starts c + count_list gs StartShared,
     cc_metadata_starts := cc_metadata_starts c + count_list gs StartObjectOrMetadata\<rparr>"
proof (induction gs arbitrary: c)
  case (Cons g gs)
  then show ?case
    by (cases g) (simp_all add: funpow_swap1)
qed simp

subsubsection \<open>The port\<close>

definition decimal :: "string \<Rightarrow> int" where
  "decimal cs = foldl (\<lambda>n c. 10 * n + (int (of_char c) - 48)) 0 cs"

lemma digit_Some: "digit c = Some d \<longleftrightarrow> d = int (of_char c) - 48 \<and> 0 \<le> d \<and> d \<le> 9"
  by (auto simp: digit_def Let_def)

lemma foldl_decimal_mono:
  "list_all (\<lambda>c. digit c \<noteq> None) cs \<Longrightarrow> 0 \<le> n \<Longrightarrow>
   n \<le> foldl (\<lambda>n c. 10 * n + (int (of_char c) - 48)) n cs"
proof (induction cs arbitrary: n)
  case (Cons c cs)
  then have "0 \<le> int (of_char c) - 48"
    by (auto simp: digit_Some)
  then show ?case
    using Cons.IH [of "10 * n + (int (of_char c) - 48)"] Cons.prems by simp
qed simp

lemma ParseUint_digits:
  "list_all (\<lambda>c. digit c \<noteq> None) cs \<Longrightarrow> 0 \<le> n \<Longrightarrow> n \<le> 2 ^ 64 - 1 \<Longrightarrow>
   ParseUint n cs = Some (min (foldl (\<lambda>n c. 10 * n + (int (of_char c) - 48)) n cs) (2 ^ 64 - 1))"
proof (induction cs arbitrary: n)
  case (Cons c cs)
  then obtain d where d: "digit c = Some d" "d = int (of_char c) - 48" "0 \<le> d"
    by (auto simp: digit_Some)
  then show ?case
    using Cons foldl_decimal_mono [of cs "10 * n + d"] by (auto simp: min_def)
qed simp

lemma ParseUint_range: "ParseUint n cs = Some v \<Longrightarrow> 0 \<le> n \<Longrightarrow> n \<le> 2 ^ 64 - 1 \<Longrightarrow> 0 \<le> v"
  by (induction n cs rule: ParseUint.induct) (auto simp: digit_Some split: option.splits if_splits)

lemma Atoi_range: "- (2 ^ 63) \<le> Atoi s \<and> Atoi s < 2 ^ 63"
proof -
  have clamp: "- (2 ^ 63) \<le> v \<and> v < 2 ^ 63"
    if "v = (case ParseUint 0 body of None \<Rightarrow> 0
      | Some n \<Rightarrow> if neg then max (- n) (- (2 ^ 63)) else min n (2 ^ 63 - 1))" for v :: int and neg body
    using that by (cases "ParseUint 0 body") (auto dest: ParseUint_range)
  obtain neg body where "(case s of c # cs \<Rightarrow>
      if c = CHR ''-'' then (True, cs) else if c = CHR ''+'' then (False, cs) else (False, s)
    | [] \<Rightarrow> (False, [])) = (neg, body)"
    by fastforce
  then show ?thesis
    using clamp [OF refl, of neg body] unfolding Atoi_def Let_def by simp
qed

lemma Atoi_digits:
  assumes "list_all (\<lambda>c. digit c \<noteq> None) s" and "s \<noteq> []"
  shows "Atoi s = min (decimal s) (2 ^ 63 - 1)"
proof -
  obtain c cs where s: "s = c # cs"
    using assms(2) by (cases s) auto
  have "digit CHR ''-'' = None" "digit CHR ''+'' = None"
    by (simp_all add: digit_def)
  then have "c \<noteq> CHR ''-''" "c \<noteq> CHR ''+''"
    using assms(1) by (auto simp: s)
  then show ?thesis
    using ParseUint_digits [OF assms(1), of 0] by (simp add: Atoi_def s decimal_def min_def)
qed

subsection \<open>Properties\<close>

text \<open>
  The options decide the manager's options field by field, and nothing but a section that is nil
  makes the start panic. A disabled section leaves the zero value of its fields; so with metrics
  disabled the bind address is the empty string, which asks controller-runtime for its default
  address and not for no server.
\<close>
lemma manager_options_total:
  "case manager_options_of S opts of
    Inl p \<Rightarrow> p = NilDereference \<and>
      (case (opt_LeaderElection opts, opt_Webhook opts, opt_Metrics opts, opt_Probe opts) of
        (Some le, Some wh, Some mt, Some pr) \<Rightarrow> False | _ \<Rightarrow> True)
  | Inr m \<Rightarrow> \<exists>le wh mt pr. opt_LeaderElection opts = Some le \<and> opt_Webhook opts = Some wh \<and>
      opt_Metrics opts = Some mt \<and> opt_Probe opts = Some pr \<and>
      m = \<lparr>mgo_LeaderElection = leo_Enabled le,
           mgo_LeaderElectionID = (if leo_Enabled le then leo_ID le else []),
           mgo_WebhookServer = (if who_Enabled wh then Some \<lparr>whs_Host = fst (S (who_Addr wh)),
             whs_Port = Atoi (snd (S (who_Addr wh))), whs_CertDir = who_CertDir wh\<rparr> else None),
           mgo_MetricsBindAddress = (if mto_Enabled mt then mto_Addr mt else []),
           mgo_HealthProbeBindAddress = (if pro_Enabled pr then pro_Addr pr else [])\<rparr>"
  by (cases "opt_LeaderElection opts"; cases "opt_Webhook opts"; cases "opt_Metrics opts";
      cases "opt_Probe opts") (simp_all add: manager_options_of_def Let_def split_beta)

text \<open>What \<open>Setup\<close> has done when it returns.\<close>

lemma Setup_effects:
  "case (Setup V tr opts :: 'e option \<times> start_effect list \<times> ('o, 'tr) controller_context option) of
    (r, eff, context) \<Rightarrow>
      (r = None) = (env_controller_Complete V = None \<and> env_kubernetes_NewForConfig V = None \<and>
        env_metadata_NewForConfig V = None \<and> env_thisclientset_NewForConfig V = None \<and>
        (\<exists>cfg. GetResourceQuotaConfig V (opt_ResourceQuotaConfigFile opts) = Inr cfg \<and>
          env_plugin_NewResourceQuota V cfg 5 = None) \<and> env_quota_NewController V = None) \<and>
      (if r = None then
        eff = [CompleteController, AddCacheSyner (30 * second),
          RegisterWebhook ''/validate-resourcequota-status'' StatusHandler,
          RegisterWebhook ''/validate-resourcequota-remove'' RemoveHandler, SetHijackTransform,
          SetDrainedNotification, SetQuotaConfiguration, SetExternalKubeClientSet,
          SetExternalKubeInformerFactory, GoContextStart, GoQuotaControllerRun,
          RegisterWebhook ''/validate'' ValidationHandler] \<and>
        (\<exists>c. context = Some c \<and> \<not> cc_InformersStarted c \<and>
          map_of (f_informers (cc_HijackedInformerFactory c)) ''ResourceQuota'' = Some 0 \<and>
          transform_at 0 (cc_HijackedInformerFactory c) = Some tr \<and>
          (\<forall>a. launched (cc_HijackedInformerFactory c) a = 0))
       else set eff \<inter> {GoContextStart, GoQuotaControllerRun, RegisterWebhook ''/validate'' ValidationHandler} = {})"
proof -
  show ?thesis
  proof (cases "env_controller_Complete V = None \<and>
      (\<exists>c :: ('o, 'tr) controller_context. NewControllerContext V opts = Inr c) \<and>
      (\<exists>cfg. GetResourceQuotaConfig V (opt_ResourceQuotaConfigFile opts) = Inr cfg)")
    case True
    then obtain c :: "('o, 'tr) controller_context" and cfg where
      parts: "NewControllerContext V opts = Inr c" "GetResourceQuotaConfig V (opt_ResourceQuotaConfigFile opts) = Inr cfg"
      and complete: "env_controller_Complete V = None"
      by blast
    then have envs: "env_kubernetes_NewForConfig V = None" "env_metadata_NewForConfig V = None"
      "env_thisclientset_NewForConfig V = None"
      by (auto simp: NewControllerContext_def split: option.splits)
    note fresh = NewControllerContext_Inr [OF parts(1)]
    show ?thesis
      using parts complete envs fresh hijack_informer_fresh [OF conjunct1 [OF fresh], of tr]
      by (simp add: Setup_def NewClusterResourceQuota_def NewResourceQuota_def NewResourceQuotaAdmission_def
          NewConditionalResourceQuotaController_def Let_def split_beta split: option.split)
  next
    case False
    then show ?thesis
      by (auto simp: Setup_def NewClusterResourceQuota_def NewControllerContext_def
          NewControllerContextFromClientSet_def split: option.splits sum.splits)
  qed
qed

lemma Setup_starts_no_manager:
  "StartManager \<notin> set (fst (snd (Setup V tr opts :: 'e option \<times> start_effect list \<times> ('o, 'tr) controller_context option)))"
  by (auto simp: Setup_def NewClusterResourceQuota_def NewResourceQuota_def NewResourceQuotaAdmission_def
      NewConditionalResourceQuotaController_def Let_def split_beta split: option.split sum.split)

lemma RunWithConfig_registers:
  assumes "(RunWithConfig V tr opts :: 'e run_result \<times> start_effect list \<times> ('o, 'tr) controller_context option) =
      (r, eff, context)" and "StartManager \<in> set eff"
  shows "{RegisterWebhook ''/validate-resourcequota-status'' StatusHandler,
    RegisterWebhook ''/validate-resourcequota-remove'' RemoveHandler,
    RegisterWebhook ''/validate'' ValidationHandler} \<subseteq> set eff"
proof -
  obtain r1 eff1 and context1 :: "('o, 'tr) controller_context option"
    where parts: "Setup V tr opts = (r1, eff1, context1)"
    by (metis prod_cases3)
  then have "StartManager \<notin> set eff1"
    using parts Setup_starts_no_manager [where V = V and tr = tr and opts = opts and 'o = 'o] by simp
  then have "r1 = None" and eff: "eff = eff1 @ [AddHealthzCheck ''ping'', StartManager]"
    using assms parts by (auto simp: RunWithConfig_def split: sum.splits option.splits)
  then show ?thesis
    using Setup_effects [where V = V and tr = tr and opts = opts and 'o = 'o] parts \<open>r1 = None\<close> by (simp add: eff)
qed

text \<open>
  C40. The port of the webhook server is a 64-bit integer, whatever the address says. It is the number in
  the address if that consists of digits, cut off at the largest integer, and an address without
  a port silently gives port 0, which asks for the default port of the server. The server option of the manager
  is set exactly if the webhook section is enabled, and is otherwise left unset; that does not turn the webhooks
  off, because whenever the manager is started all three handlers have been registered on its webhook
  server, enabled or not (controller-runtime makes a default one when the option is unset).
\<close>
theorem webhook_port_bounds:
  assumes "manager_options_of S opts = Inr m"
  shows "\<exists>wh. opt_Webhook opts = Some wh \<and> (mgo_WebhookServer m = None \<longleftrightarrow> \<not> who_Enabled wh) \<and>
    (\<forall>srv. mgo_WebhookServer m = Some srv \<longrightarrow> - (2 ^ 63) \<le> whs_Port srv \<and> whs_Port srv < 2 ^ 63 \<and>
      (let port = snd (S (who_Addr wh)) in
        if port = [] then whs_Port srv = 0
        else list_all (\<lambda>c. digit c \<noteq> None) port \<longrightarrow> whs_Port srv = min (decimal port) (2 ^ 63 - 1))) \<and>
    (\<forall>V tr r eff context.
      (RunWithConfig V tr opts :: 'e run_result \<times> start_effect list \<times> ('o, 'tr) controller_context option) =
        (r, eff, context) \<longrightarrow> StartManager \<in> set eff \<longrightarrow>
      {RegisterWebhook ''/validate-resourcequota-status'' StatusHandler,
        RegisterWebhook ''/validate-resourcequota-remove'' RemoveHandler,
        RegisterWebhook ''/validate'' ValidationHandler} \<subseteq> set eff)"
proof -
  obtain wh where wh: "opt_Webhook opts = Some wh"
    and server: "mgo_WebhookServer m = (if who_Enabled wh then Some \<lparr>whs_Host = fst (S (who_Addr wh)),
      whs_Port = Atoi (snd (S (who_Addr wh))), whs_CertDir = who_CertDir wh\<rparr> else None)"
    using manager_options_total [of opts S] unfolding assms sum.case by fastforce
  let ?p = "snd (S (who_Addr wh))"
  have "Atoi [] = 0"
    by (simp add: Atoi_def)
  then have "if ?p = [] then Atoi ?p = 0
      else list_all (\<lambda>c. digit c \<noteq> None) ?p \<longrightarrow> Atoi ?p = min (decimal ?p) (2 ^ 63 - 1)"
    using Atoi_digits [of ?p] by (cases "?p = []") (simp_all only: if_True if_False simp_thms, blast)
  moreover have "whs_Port srv = Atoi ?p" if "mgo_WebhookServer m = Some srv" for srv
    using that unfolding server by (auto split: if_splits)
  ultimately have server_ok: "- (2 ^ 63) \<le> whs_Port srv \<and> whs_Port srv < 2 ^ 63 \<and>
      (let port = ?p in if port = [] then whs_Port srv = 0
        else list_all (\<lambda>c. digit c \<noteq> None) port \<longrightarrow> whs_Port srv = min (decimal port) (2 ^ 63 - 1))"
    if "mgo_WebhookServer m = Some srv" for srv
    using that Atoi_range [of ?p] unfolding Let_def by metis
  have unset: "mgo_WebhookServer m = None \<longleftrightarrow> \<not> who_Enabled wh"
    by (simp add: server)
  show ?thesis
  proof (rule exI [of _ wh], rule conjI [OF wh], rule conjI [OF unset], rule conjI; intro allI impI)
    show "- (2 ^ 63) \<le> whs_Port srv \<and> whs_Port srv < 2 ^ 63 \<and> (let port = ?p in if port = [] then whs_Port srv = 0
        else list_all (\<lambda>c. digit c \<noteq> None) port \<longrightarrow> whs_Port srv = min (decimal port) (2 ^ 63 - 1))"
      if "mgo_WebhookServer m = Some srv" for srv
      using that by (rule server_ok)
  qed (rule RunWithConfig_registers)
qed

theorem webhook_port_bounds_witness:
  "\<exists>m srv. manager_options_of (\<lambda>_. ([], ''8443'')) NewDefaultOptions = Inr m \<and>
    mgo_WebhookServer m = Some srv \<and> whs_Port srv = 8443"
proof -
  obtain m where m: "manager_options_of (\<lambda>_. ([], ''8443'')) NewDefaultOptions = Inr m"
    using manager_options_total [of NewDefaultOptions "\<lambda>_. ([], ''8443'')"]
    by (auto simp: NewDefaultOptions_def split: sum.splits)
  then obtain srv where srv: "mgo_WebhookServer m = Some srv"
    using manager_options_total [of NewDefaultOptions "\<lambda>_. ([], ''8443'')"] by (auto simp: NewDefaultOptions_def)
  have "list_all (\<lambda>c. digit c \<noteq> None) ''8443''" and "decimal ''8443'' = 8443"
    by (simp_all add: digit_def decimal_def)
  then have "whs_Port srv = 8443"
    using webhook_port_bounds [OF m] srv by (auto simp: Let_def NewDefaultOptions_def)
  with m srv show ?thesis
    by blast
qed

text \<open>
  C38. Start-up is all or nothing as far as running code is concerned: the two goroutines are launched and
  the webhook of the quota plugin is registered exactly if every constructor succeeded, in a fixed
  order; and at that point the ResourceQuota informer of the hijacked factory exists, has the converting
  transform, and no informer of that factory has been launched yet.
\<close>
theorem setup_launches_only_when_complete:
  "case (Setup V tr opts :: 'e option \<times> start_effect list \<times> ('o, 'tr) controller_context option) of
    (r, eff, context) \<Rightarrow>
      (r = None) = (env_controller_Complete V = None \<and> env_kubernetes_NewForConfig V = None \<and>
        env_metadata_NewForConfig V = None \<and> env_thisclientset_NewForConfig V = None \<and>
        (\<exists>cfg. GetResourceQuotaConfig V (opt_ResourceQuotaConfigFile opts) = Inr cfg \<and>
          env_plugin_NewResourceQuota V cfg 5 = None) \<and> env_quota_NewController V = None) \<and>
      (if r = None then
        eff = [CompleteController, AddCacheSyner (30 * second),
          RegisterWebhook ''/validate-resourcequota-status'' StatusHandler,
          RegisterWebhook ''/validate-resourcequota-remove'' RemoveHandler, SetHijackTransform,
          SetDrainedNotification, SetQuotaConfiguration, SetExternalKubeClientSet,
          SetExternalKubeInformerFactory, GoContextStart, GoQuotaControllerRun,
          RegisterWebhook ''/validate'' ValidationHandler] \<and>
        (\<exists>c. context = Some c \<and> \<not> cc_InformersStarted c \<and>
          map_of (f_informers (cc_HijackedInformerFactory c)) ''ResourceQuota'' = Some 0 \<and>
          transform_at 0 (cc_HijackedInformerFactory c) = Some tr \<and>
          (\<forall>a. launched (cc_HijackedInformerFactory c) a = 0))
       else set eff \<inter> {GoContextStart, GoQuotaControllerRun, RegisterWebhook ''/validate'' ValidationHandler} = {})"
  by (rule Setup_effects)

text \<open>
  Starting the context: the channel is closed, and \<open>HasStarted\<close> holds, as soon as the four
  goroutines are launched, which may be before any of them has started an informer; when they have
  run, in whatever order, each factory has been started once. A second call of \<open>Start\<close>
  panics, because it closes the channel again.
\<close>
lemma context_start_once:
  assumes "Context_Start c = Inr c'" and "cc_go c = []" and "mset gs = mset (cc_go c')"
  shows "HasStarted c' \<and> cc_ThisInformerFactory c' = cc_ThisInformerFactory c \<and>
    cc_HijackedInformerFactory c' = cc_HijackedInformerFactory c \<and>
    (let d = fold run_goroutine gs c' in
      cc_ThisInformerFactory d = Start (cc_ThisInformerFactory c) \<and>
      cc_HijackedInformerFactory d = Start (cc_HijackedInformerFactory c) \<and>
      cc_shared_starts d = Suc (cc_shared_starts c) \<and> cc_metadata_starts d = Suc (cc_metadata_starts c)) \<and>
    Context_Start c' = Inl CloseOfClosedChannel"
proof -
  have c': "c' = c\<lparr>cc_go := [StartThis, StartShared, StartObjectOrMetadata, StartHijacked],
      cc_InformersStarted := True\<rparr>"
    using assms(1,2) by (auto simp: Context_Start_def Let_def split: if_splits)
  have "count_list gs g = count_list (cc_go c') g" for g
    using assms(3) by (metis count_mset)
  then have "count_list gs g = 1" for g
    by (cases g) (simp_all add: c')
  then show ?thesis
    by (simp add: fold_goroutines c' HasStarted_def Context_Start_def Let_def)
qed

definition demo_context :: "(unit, nat) controller_context" where
  "demo_context = \<lparr>cc_InformersStarted = False, cc_InformerFactory_resync = 1, cc_MetadataFactory_resync = 1,
     cc_ThisInformerFactory = demo_factory, cc_HijackedInformerFactory = hijacked_demo,
     cc_shared_starts = 0, cc_metadata_starts = 0, cc_go = []\<rparr>"

lemma context_start_once_witness:
  "case Context_Start demo_context of Inl p \<Rightarrow> False | Inr c \<Rightarrow>
    cc_HijackedInformerFactory (fold run_goroutine [StartHijacked, StartThis, StartShared, StartObjectOrMetadata] c) =
      Start hijacked_demo \<and> Context_Start c = Inl CloseOfClosedChannel"
proof -
  have start: "Context_Start demo_context = Inr (demo_context\<lparr>cc_go :=
      [StartThis, StartShared, StartObjectOrMetadata, StartHijacked], cc_InformersStarted := True\<rparr>)"
    by (simp add: Context_Start_def demo_context_def Let_def)
  have go: "cc_go demo_context = []"
    by (simp add: demo_context_def)
  have "mset [StartHijacked, StartThis, StartShared, StartObjectOrMetadata] =
      mset (cc_go (demo_context\<lparr>cc_go := [StartThis, StartShared, StartObjectOrMetadata, StartHijacked],
        cc_InformersStarted := True\<rparr>))"
    by simp
  from context_start_once [OF start go this] show ?thesis
    unfolding start Let_def by (simp add: demo_context_def)
qed

end
