(* ===== verification/Deepcopy.thy ===== *)
theory Deepcopy
  imports Kube_Types
begin

section \<open>Deep copies (\<open>apis/quota/v1/zz_generated.deepcopy.go\<close>)\<close>

text \<open>
  Objects that come out of an informer are shared, and a caller that wants to change one copies it
  first with the generated \<open>DeepCopy\<close>. The point of a deep copy is that it shares no memory with
  the original, so this theory has its own model of the types, with pointers: a map, the array of
  a slice and the target of a pointer are cells of a memory, and an address is an index into
  it. An assignment of a struct copies addresses; an allocation adds a cell.

  The structs of Kubernetes inside these types (\<open>ObjectMeta\<close>, \<open>ResourceQuotaSpec\<close>, ...) are values of a
  type \<open>'x\<close> whose \<open>DeepCopyInto\<close> is a parameter.
\<close>

subsection \<open>Structs with pointers\<close>

type_synonym pointer = "nat option"

record mem_namespace_quota =
  mn_Name :: string
  mn_Used :: pointer

record 'x mem_crq_spec =
  mcs_ResourceQuotaSpec :: 'x
  mcs_NamespaceSelector :: pointer

record 'x mem_crq_status =
  mct_ResourceQuotaStatus :: 'x
  mct_Namespaces :: pointer

record 'x mem_crq =
  mc_TypeMeta :: type_meta
  mc_ObjectMeta :: 'x
  mc_Spec :: "'x mem_crq_spec"
  mc_Status :: "'x mem_crq_status"

record 'x mem_rq =
  mr_TypeMeta :: type_meta
  mr_ObjectMeta :: 'x
  mr_Spec :: 'x
  mr_Status :: 'x

text \<open>Both list types: the items are in the array of a slice.\<close>

record 'x mem_list =
  ml_TypeMeta :: type_meta
  ml_ListMeta :: 'x
  ml_Items :: pointer

datatype 'x cell =
  MapCell resource_list
| NamespacesCell "mem_namespace_quota list"
| SelectorCell 'x
| CrqsCell "'x mem_crq list"
| RqsCell "'x mem_rq list"

type_synonym 'x memory = "'x cell list"

subsection \<open>The generated functions\<close>

text \<open>
  A copier takes the struct and the memory and returns the new struct. An array or map is
  allocated when its contents are there; the program cannot see the order of allocations.
\<close>

type_synonym ('x, 's) copier = "'s \<Rightarrow> 'x memory \<Rightarrow> 's \<times> 'x memory"

definition new_cell :: "'x cell \<Rightarrow> 'x memory \<Rightarrow> pointer \<times> 'x memory" where
  "new_cell v h = (Some (length h), h @ [v])"

text \<open>The loop \<open>for i := range *in { (*in)[i].DeepCopyInto(&(*out)[i]) }\<close>.\<close>

fun copy_items :: "('x, 's) copier \<Rightarrow> ('x, 's list) copier" where
  "copy_items cp [] h = ([], h)"
| "copy_items cp (x # xs) h =
    (case cp x h of (x', h1) \<Rightarrow> case copy_items cp xs h1 of (xs', h2) \<Rightarrow> (x' # xs', h2))"

definition NamespaceResourceQuota_DeepCopyInto :: "('x, mem_namespace_quota) copier" where
  "NamespaceResourceQuota_DeepCopyInto inp h =
    (let out = inp in
     case mn_Used inp of
       None \<Rightarrow> (out, h)
     | Some a \<Rightarrow>
         (case h ! a of
           MapCell used \<Rightarrow>
             (case new_cell (MapCell (fold (\<lambda>(key, val). mput key val) used [])) h of
               (p, h') \<Rightarrow> (out\<lparr>mn_Used := p\<rparr>, h'))
         | _ \<Rightarrow> (out, h)))"

definition ClusterResourceQuotaStatus_DeepCopyInto :: "('x, 'x) copier \<Rightarrow> ('x, 'x mem_crq_status) copier" where
  "ClusterResourceQuotaStatus_DeepCopyInto ext inp h =
    (let out = inp in
     case ext (mct_ResourceQuotaStatus inp) h of (st, h1) \<Rightarrow>
       let out = out\<lparr>mct_ResourceQuotaStatus := st\<rparr> in
       (case mct_Namespaces inp of
         None \<Rightarrow> (out, h1)
       | Some a \<Rightarrow>
           (case h1 ! a of
             NamespacesCell nss \<Rightarrow>
               (case copy_items NamespaceResourceQuota_DeepCopyInto nss h1 of (nss', h2) \<Rightarrow>
                 (case new_cell (NamespacesCell nss') h2 of (p, h3) \<Rightarrow> (out\<lparr>mct_Namespaces := p\<rparr>, h3)))
           | _ \<Rightarrow> (out, h1))))"

definition ClusterResourceQuotaSpec_DeepCopyInto :: "('x, 'x) copier \<Rightarrow> ('x, 'x mem_crq_spec) copier" where
  "ClusterResourceQuotaSpec_DeepCopyInto ext inp h =
    (let out = inp in
     case ext (mcs_ResourceQuotaSpec inp) h of (sp, h1) \<Rightarrow>
       let out = out\<lparr>mcs_ResourceQuotaSpec := sp\<rparr> in
       (case mcs_NamespaceSelector inp of
         None \<Rightarrow> (out, h1)
       | Some a \<Rightarrow>
           (case h1 ! a of
             SelectorCell sel \<Rightarrow>
               (case ext sel h1 of (sel', h2) \<Rightarrow>
                 (case new_cell (SelectorCell sel') h2 of (p, h3) \<Rightarrow> (out\<lparr>mcs_NamespaceSelector := p\<rparr>, h3)))
           | _ \<Rightarrow> (out, h1))))"

definition ClusterResourceQuota_DeepCopyInto :: "('x, 'x) copier \<Rightarrow> ('x, 'x mem_crq) copier" where
  "ClusterResourceQuota_DeepCopyInto ext inp h =
    (let out = inp; out = out\<lparr>mc_TypeMeta := mc_TypeMeta inp\<rparr> in
     case ext (mc_ObjectMeta inp) h of (om, h1) \<Rightarrow>
     case ClusterResourceQuotaSpec_DeepCopyInto ext (mc_Spec inp) h1 of (sp, h2) \<Rightarrow>
     case ClusterResourceQuotaStatus_DeepCopyInto ext (mc_Status inp) h2 of (st, h3) \<Rightarrow>
       (out\<lparr>mc_ObjectMeta := om, mc_Spec := sp, mc_Status := st\<rparr>, h3))"

definition ResourceQuota_DeepCopyInto :: "('x, 'x) copier \<Rightarrow> ('x, 'x mem_rq) copier" where
  "ResourceQuota_DeepCopyInto ext inp h =
    (let out = inp; out = out\<lparr>mr_TypeMeta := mr_TypeMeta inp\<rparr> in
     case ext (mr_ObjectMeta inp) h of (om, h1) \<Rightarrow>
     case ext (mr_Spec inp) h1 of (sp, h2) \<Rightarrow>
     case ext (mr_Status inp) h2 of (st, h3) \<Rightarrow>
       (out\<lparr>mr_ObjectMeta := om, mr_Spec := sp, mr_Status := st\<rparr>, h3))"

definition ClusterResourceQuotaList_DeepCopyInto :: "('x, 'x) copier \<Rightarrow> ('x, 'x mem_list) copier" where
  "ClusterResourceQuotaList_DeepCopyInto ext inp h =
    (let out = inp; out = out\<lparr>ml_TypeMeta := ml_TypeMeta inp\<rparr> in
     case ext (ml_ListMeta inp) h of (lm, h1) \<Rightarrow>
       let out = out\<lparr>ml_ListMeta := lm\<rparr> in
       (case ml_Items inp of
         None \<Rightarrow> (out, h1)
       | Some a \<Rightarrow>
           (case h1 ! a of
             CrqsCell items \<Rightarrow>
               (case copy_items (ClusterResourceQuota_DeepCopyInto ext) items h1 of (items', h2) \<Rightarrow>
                 (case new_cell (CrqsCell items') h2 of (p, h3) \<Rightarrow> (out\<lparr>ml_Items := p\<rparr>, h3)))
           | _ \<Rightarrow> (out, h1))))"

definition ResourceQuotaList_DeepCopyInto :: "('x, 'x) copier \<Rightarrow> ('x, 'x mem_list) copier" where
  "ResourceQuotaList_DeepCopyInto ext inp h =
    (let out = inp; out = out\<lparr>ml_TypeMeta := ml_TypeMeta inp\<rparr> in
     case ext (ml_ListMeta inp) h of (lm, h1) \<Rightarrow>
       let out = out\<lparr>ml_ListMeta := lm\<rparr> in
       (case ml_Items inp of
         None \<Rightarrow> (out, h1)
       | Some a \<Rightarrow>
           (case h1 ! a of
             RqsCell items \<Rightarrow>
               (case copy_items (ResourceQuota_DeepCopyInto ext) items h1 of (items', h2) \<Rightarrow>
                 (case new_cell (RqsCell items') h2 of (p, h3) \<Rightarrow> (out\<lparr>ml_Items := p\<rparr>, h3)))
           | _ \<Rightarrow> (out, h1))))"

text \<open>
  \<open>DeepCopy\<close> of a type: nil for a nil receiver, else a new struct filled by \<open>DeepCopyInto\<close>; and
  \<open>DeepCopyObject\<close>, which turns a nil pointer into a nil interface.
\<close>

definition DeepCopy :: "('x, 's) copier \<Rightarrow> ('x, 's option) copier" where
  "DeepCopy DeepCopyInto inp h =
    (case inp of
      None \<Rightarrow> (None, h)
    | Some x \<Rightarrow> (case DeepCopyInto x h of (out, h') \<Rightarrow> (Some out, h')))"

definition DeepCopyObject :: "('x, 's) copier \<Rightarrow> ('x, 's option) copier" where
  "DeepCopyObject DeepCopyInto inp h =
    (case DeepCopy DeepCopyInto inp h of
      (Some c, h') \<Rightarrow> (Some c, h')
    | (None, h') \<Rightarrow> (None, h'))"

text \<open>The two methods of each type.\<close>

definition ClusterResourceQuota_DeepCopy :: "('x, 'x) copier \<Rightarrow> ('x, 'x mem_crq option) copier" where
  "ClusterResourceQuota_DeepCopy ext inp h = DeepCopy (ClusterResourceQuota_DeepCopyInto ext) inp h"

definition ClusterResourceQuota_DeepCopyObject :: "('x, 'x) copier \<Rightarrow> ('x, 'x mem_crq option) copier" where
  "ClusterResourceQuota_DeepCopyObject ext inp h = DeepCopyObject (ClusterResourceQuota_DeepCopyInto ext) inp h"

definition ClusterResourceQuotaList_DeepCopy :: "('x, 'x) copier \<Rightarrow> ('x, 'x mem_list option) copier" where
  "ClusterResourceQuotaList_DeepCopy ext inp h = DeepCopy (ClusterResourceQuotaList_DeepCopyInto ext) inp h"

definition ClusterResourceQuotaList_DeepCopyObject :: "('x, 'x) copier \<Rightarrow> ('x, 'x mem_list option) copier" where
  "ClusterResourceQuotaList_DeepCopyObject ext inp h = DeepCopyObject (ClusterResourceQuotaList_DeepCopyInto ext) inp h"

definition ClusterResourceQuotaSpec_DeepCopy :: "('x, 'x) copier \<Rightarrow> ('x, 'x mem_crq_spec option) copier" where
  "ClusterResourceQuotaSpec_DeepCopy ext inp h = DeepCopy (ClusterResourceQuotaSpec_DeepCopyInto ext) inp h"

definition ClusterResourceQuotaStatus_DeepCopy :: "('x, 'x) copier \<Rightarrow> ('x, 'x mem_crq_status option) copier" where
  "ClusterResourceQuotaStatus_DeepCopy ext inp h = DeepCopy (ClusterResourceQuotaStatus_DeepCopyInto ext) inp h"

definition NamespaceResourceQuota_DeepCopy :: "('x, mem_namespace_quota option) copier" where
  "NamespaceResourceQuota_DeepCopy inp h = DeepCopy NamespaceResourceQuota_DeepCopyInto inp h"

definition ResourceQuota_DeepCopy :: "('x, 'x) copier \<Rightarrow> ('x, 'x mem_rq option) copier" where
  "ResourceQuota_DeepCopy ext inp h = DeepCopy (ResourceQuota_DeepCopyInto ext) inp h"

definition ResourceQuota_DeepCopyObject :: "('x, 'x) copier \<Rightarrow> ('x, 'x mem_rq option) copier" where
  "ResourceQuota_DeepCopyObject ext inp h = DeepCopyObject (ResourceQuota_DeepCopyInto ext) inp h"

definition ResourceQuotaList_DeepCopy :: "('x, 'x) copier \<Rightarrow> ('x, 'x mem_list option) copier" where
  "ResourceQuotaList_DeepCopy ext inp h = DeepCopy (ResourceQuotaList_DeepCopyInto ext) inp h"

definition ResourceQuotaList_DeepCopyObject :: "('x, 'x) copier \<Rightarrow> ('x, 'x mem_list option) copier" where
  "ResourceQuotaList_DeepCopyObject ext inp h = DeepCopyObject (ResourceQuotaList_DeepCopyInto ext) inp h"

subsection \<open>The contract of a copier\<close>

text \<open>
  \<open>ok h x\<close>: the pointers in \<open>x\<close> are valid; \<open>deep h x\<close>: what it stands for, all pointers
  followed; \<open>reach h x\<close>: the cells it can reach. A copy only allocates, stands for the same value
  and reaches new cells only; what an object stands for depends on the cells it reaches only.
\<close>

locale deep_copier =
  fixes cp :: "('x, 's) copier" and ok :: "'x memory \<Rightarrow> 's \<Rightarrow> bool"
    and deep :: "'x memory \<Rightarrow> 's \<Rightarrow> 'v" and reach :: "'x memory \<Rightarrow> 's \<Rightarrow> nat set"
  assumes copies: "ok h x \<Longrightarrow> cp x h = (x', h') \<Longrightarrow>
      (\<exists>new. h' = h @ new) \<and> ok h' x' \<and> deep h' x' = deep h x \<and> reach h' x' \<subseteq> {length h..<length h'}"
    and stable: "ok h x \<Longrightarrow> ok (h @ new) x \<and> deep (h @ new) x = deep h x \<and> reach (h @ new) x = reach h x"
    and reach_bounded: "ok h x \<Longrightarrow> reach h x \<subseteq> {..<length h}"
    and local: "ok h x \<Longrightarrow> a \<notin> reach h x \<Longrightarrow> deep (h[a := v]) x = deep h x"
begin

text \<open>The copy and the original can be written without the other noticing.\<close>

lemma independent:
  assumes "ok h x" and "cp x h = (x', h')"
  shows "deep h' x' = deep h x" and "deep h' x = deep h x"
    and "a \<in> reach h' x' \<Longrightarrow> deep (h'[a := v]) x = deep h x"
    and "a \<in> reach h x \<Longrightarrow> deep (h'[a := v]) x' = deep h x"
proof -
  obtain new where new: "h' = h @ new" and ok': "ok h' x'" and same: "deep h' x' = deep h x"
    and fresh: "reach h' x' \<subseteq> {length h..<length h'}"
    using copies [OF assms] by blast
  have old: "ok h' x" "deep h' x = deep h x" "reach h' x = reach h x"
    using stable [OF assms(1), of new] new by simp_all
  show "deep h' x' = deep h x" and "deep h' x = deep h x"
    by (fact same, fact old(2))
  show "deep (h'[a := v]) x = deep h x" if "a \<in> reach h' x'"
    using that fresh reach_bounded [OF assms(1)] local [OF old(1), of a v] old(2,3) by fastforce
  show "deep (h'[a := v]) x' = deep h x" if "a \<in> reach h x"
    using that fresh reach_bounded [OF assms(1)] local [OF ok', of a v] same by fastforce
qed

end

subsection \<open>Copiers from copiers\<close>

text \<open>A value without pointers; two fields, one after the other; the items of a slice.\<close>

definition copy_value :: "('x, 's) copier" where
  "copy_value x h = (x, h)"

lemma copy_value_ok: "deep_copier copy_value (\<lambda>h x. True) (\<lambda>h x. x) (\<lambda>h x. {})"
  by unfold_locales (auto simp: copy_value_def)

definition copy_pair :: "('x, 's) copier \<Rightarrow> ('x, 't) copier \<Rightarrow> ('x, 's \<times> 't) copier" where
  "copy_pair c d p h =
    (case c (fst p) h of (x', h1) \<Rightarrow> case d (snd p) h1 of (y', h2) \<Rightarrow> ((x', y'), h2))"

definition pair_ok :: "('m \<Rightarrow> 's \<Rightarrow> bool) \<Rightarrow> ('m \<Rightarrow> 't \<Rightarrow> bool) \<Rightarrow> 'm \<Rightarrow> 's \<times> 't \<Rightarrow> bool" where
  "pair_ok ok1 ok2 h p \<longleftrightarrow> ok1 h (fst p) \<and> ok2 h (snd p)"

definition pair_deep :: "('m \<Rightarrow> 's \<Rightarrow> 'v) \<Rightarrow> ('m \<Rightarrow> 't \<Rightarrow> 'u) \<Rightarrow> 'm \<Rightarrow> 's \<times> 't \<Rightarrow> 'v \<times> 'u" where
  "pair_deep deep1 deep2 h p = (deep1 h (fst p), deep2 h (snd p))"

definition pair_reach :: "('m \<Rightarrow> 's \<Rightarrow> nat set) \<Rightarrow> ('m \<Rightarrow> 't \<Rightarrow> nat set) \<Rightarrow> 'm \<Rightarrow> 's \<times> 't \<Rightarrow> nat set" where
  "pair_reach reach1 reach2 h p = reach1 h (fst p) \<union> reach2 h (snd p)"

lemmas pair_defs = pair_ok_def pair_deep_def pair_reach_def

lemma copy_pair_ok:
  assumes "deep_copier c ok1 deep1 reach1" and "deep_copier d ok2 deep2 reach2"
  shows "deep_copier (copy_pair c d) (pair_ok ok1 ok2) (pair_deep deep1 deep2) (pair_reach reach1 reach2)"
proof (unfold_locales, unfold pair_defs)
  fix h p p' h'
  assume ok: "ok1 h (fst p) \<and> ok2 h (snd p)" and run: "copy_pair c d p h = (p', h')"
  obtain x' h1 y' where c: "c (fst p) h = (x', h1)" and d: "d (snd p) h1 = (y', h')" and p': "p' = (x', y')"
    using run by (auto simp: copy_pair_def split: prod.splits)
  obtain n1 where n1: "h1 = h @ n1" and x': "ok1 h1 x'" "deep1 h1 x' = deep1 h (fst p)"
      "reach1 h1 x' \<subseteq> {length h..<length h1}"
    using deep_copier.copies [OF assms(1) _ c] ok by blast
  have y: "ok2 h1 (snd p)" "deep2 h1 (snd p) = deep2 h (snd p)"
    using deep_copier.stable [OF assms(2), of h "snd p" n1] ok n1 by simp_all
  obtain n2 where n2: "h' = h1 @ n2" and y': "ok2 h' y'" "deep2 h' y' = deep2 h1 (snd p)"
      "reach2 h' y' \<subseteq> {length h1..<length h'}"
    using deep_copier.copies [OF assms(2) y(1) d] by blast
  have "ok1 h' x'" "deep1 h' x' = deep1 h1 x'" "reach1 h' x' = reach1 h1 x'"
    using deep_copier.stable [OF assms(1) x'(1), of n2] n2 by simp_all
  then show "(\<exists>new. h' = h @ new) \<and> (ok1 h' (fst p') \<and> ok2 h' (snd p')) \<and>
      (deep1 h' (fst p'), deep2 h' (snd p')) = (deep1 h (fst p), deep2 h (snd p)) \<and>
      reach1 h' (fst p') \<union> reach2 h' (snd p') \<subseteq> {length h..<length h'}"
    using x' y y' n1 n2 by (fastforce simp: p')
next
  fix h p new
  assume "ok1 h (fst p) \<and> ok2 h (snd p)"
  then show "(ok1 (h @ new) (fst p) \<and> ok2 (h @ new) (snd p)) \<and>
      (deep1 (h @ new) (fst p), deep2 (h @ new) (snd p)) = (deep1 h (fst p), deep2 h (snd p)) \<and>
      reach1 (h @ new) (fst p) \<union> reach2 (h @ new) (snd p) = reach1 h (fst p) \<union> reach2 h (snd p)"
    using deep_copier.stable [OF assms(1), of h "fst p" new] deep_copier.stable [OF assms(2), of h "snd p" new] by simp
next
  fix h p
  assume "ok1 h (fst p) \<and> ok2 h (snd p)"
  then show "reach1 h (fst p) \<union> reach2 h (snd p) \<subseteq> {..<length h}"
    using deep_copier.reach_bounded [OF assms(1), of h "fst p"] deep_copier.reach_bounded [OF assms(2), of h "snd p"]
    by simp
next
  fix h p a v
  assume "ok1 h (fst p) \<and> ok2 h (snd p)" and "a \<notin> reach1 h (fst p) \<union> reach2 h (snd p)"
  then show "(deep1 (h[a := v]) (fst p), deep2 (h[a := v]) (snd p)) = (deep1 h (fst p), deep2 h (snd p))"
    using deep_copier.local [OF assms(1), of h "fst p" a v] deep_copier.local [OF assms(2), of h "snd p" a v] by simp
qed

lemma copy_items_ok:
  assumes "deep_copier c ok deep reach"
  shows "deep_copier (copy_items c) (\<lambda>h xs. \<forall>x \<in> set xs. ok h x) (\<lambda>h. map (deep h))
    (\<lambda>h xs. \<Union>x \<in> set xs. reach h x)"
proof unfold_locales
  fix h xs xs' h'
  assume "\<forall>x \<in> set xs. ok h x" and "copy_items c xs h = (xs', h')"
  then show "(\<exists>new. h' = h @ new) \<and> (\<forall>x \<in> set xs'. ok h' x) \<and> map (deep h') xs' = map (deep h) xs \<and>
      (\<Union>x \<in> set xs'. reach h' x) \<subseteq> {length h..<length h'}"
  proof (induction xs arbitrary: h xs')
    case (Cons x xs)
    obtain x' h1 ys where x: "c x h = (x', h1)" and rest: "copy_items c xs h1 = (ys, h')" and xs': "xs' = x' # ys"
      using Cons.prems(2) by (auto split: prod.splits)
    obtain n1 where n1: "h1 = h @ n1" and x': "ok h1 x'" "deep h1 x' = deep h x" "reach h1 x' \<subseteq> {length h..<length h1}"
      using deep_copier.copies [OF assms _ x] Cons.prems(1) by auto
    have keep: "ok h1 y \<and> deep h1 y = deep h y" if "y \<in> set xs" for y
      using deep_copier.stable [OF assms, of h y n1] Cons.prems(1) that n1 by simp
    obtain n2 where n2: "h' = h1 @ n2" and ys: "\<forall>y \<in> set ys. ok h' y" "map (deep h') ys = map (deep h1) xs"
        "(\<Union>y \<in> set ys. reach h' y) \<subseteq> {length h1..<length h'}"
      using Cons.IH [OF _ rest] keep by blast
    have "ok h' x'" "deep h' x' = deep h1 x'" "reach h' x' = reach h1 x'"
      using deep_copier.stable [OF assms x'(1), of n2] n2 by simp_all
    moreover have "map (deep h1) xs = map (deep h) xs"
      using keep by simp
    ultimately show ?case
      using x' ys n1 n2 by (fastforce simp: xs')
  qed simp
next
  fix h xs new
  assume "\<forall>x \<in> set xs. ok h x"
  then show "(\<forall>x \<in> set xs. ok (h @ new) x) \<and> map (deep (h @ new)) xs = map (deep h) xs \<and>
      (\<Union>x \<in> set xs. reach (h @ new) x) = (\<Union>x \<in> set xs. reach h x)"
    using deep_copier.stable [OF assms] by simp
next
  fix h xs
  assume "\<forall>x \<in> set xs. ok h x"
  then show "(\<Union>x \<in> set xs. reach h x) \<subseteq> {..<length h}"
    using deep_copier.reach_bounded [OF assms] by blast
next
  fix h xs a v
  assume "\<forall>x \<in> set xs. ok h x" and "a \<notin> (\<Union>x \<in> set xs. reach h x)"
  then show "map (deep (h[a := v])) xs = map (deep h) xs"
    using deep_copier.local [OF assms] by simp
qed

text \<open>A map: one assignment per entry into a new map.\<close>

definition copy_map :: "('x, resource_list) copier" where
  "copy_map used h = (fold (\<lambda>(key, val). mput key val) used [], h)"

lemma copy_map_ok: "deep_copier copy_map (\<lambda>h. mwf) (\<lambda>h. map_of) (\<lambda>h m. {})"
  by unfold_locales
    (auto simp: copy_map_def gm.get_fold_put map_of_rev_wf gm.wf_fold_put)

text \<open>Through a pointer to a cell that holds a \<open>'t\<close>: nil stays nil, else a new cell.\<close>

definition copy_pointer :: "('x cell \<Rightarrow> 't option) \<Rightarrow> ('t \<Rightarrow> 'x cell) \<Rightarrow> ('x, 't) copier \<Rightarrow> ('x, pointer) copier" where
  "copy_pointer get mk c p h =
    (case p of
      None \<Rightarrow> (None, h)
    | Some a \<Rightarrow>
        (case get (h ! a) of
          None \<Rightarrow> (Some a, h)
        | Some t \<Rightarrow> (case c t h of (t', h1) \<Rightarrow> new_cell (mk t') h1)))"

definition pointer_ok :: "('x cell \<Rightarrow> 't option) \<Rightarrow> ('x memory \<Rightarrow> 't \<Rightarrow> bool) \<Rightarrow> 'x memory \<Rightarrow> pointer \<Rightarrow> bool" where
  "pointer_ok get ok h p \<longleftrightarrow>
    (case p of None \<Rightarrow> True | Some a \<Rightarrow> a < length h \<and> (\<exists>t. get (h ! a) = Some t \<and> ok h t))"

definition pointer_deep :: "('x cell \<Rightarrow> 't option) \<Rightarrow> ('x memory \<Rightarrow> 't \<Rightarrow> 'v) \<Rightarrow> 'x memory \<Rightarrow> pointer \<Rightarrow> 'v option option" where
  "pointer_deep get deep h p = map_option (\<lambda>a. map_option (deep h) (get (h ! a))) p"

definition pointer_reach :: "('x cell \<Rightarrow> 't option) \<Rightarrow> ('x memory \<Rightarrow> 't \<Rightarrow> nat set) \<Rightarrow> 'x memory \<Rightarrow> pointer \<Rightarrow> nat set" where
  "pointer_reach get reach h p =
    (case p of None \<Rightarrow> {} | Some a \<Rightarrow> insert a (case get (h ! a) of None \<Rightarrow> {} | Some t \<Rightarrow> reach h t))"

lemma copy_pointer_ok:
  assumes "deep_copier c ok deep reach" and "\<And>t. get (mk t) = Some t"
  shows "deep_copier (copy_pointer get mk c) (pointer_ok get ok) (pointer_deep get deep) (pointer_reach get reach)"
proof unfold_locales
  fix h p p' h'
  assume ok: "pointer_ok get ok h p" and run: "copy_pointer get mk c p h = (p', h')"
  show "(\<exists>new. h' = h @ new) \<and> pointer_ok get ok h' p' \<and> pointer_deep get deep h' p' = pointer_deep get deep h p \<and>
      pointer_reach get reach h' p' \<subseteq> {length h..<length h'}"
  proof (cases p)
    case None
    with run show ?thesis
      by (auto simp: copy_pointer_def pointer_ok_def pointer_deep_def pointer_reach_def)
  next
    case (Some a)
    then obtain t where t: "get (h ! a) = Some t" "ok h t"
      using ok by (auto simp: pointer_ok_def)
    obtain t' h1 where copy: "c t h = (t', h1)" and h': "h' = h1 @ [mk t']" and p': "p' = Some (length h1)"
      using run t(1) Some by (auto simp: copy_pointer_def new_cell_def split: prod.splits)
    obtain n1 where n1: "h1 = h @ n1" and t': "ok h1 t'" "deep h1 t' = deep h t" "reach h1 t' \<subseteq> {length h..<length h1}"
      using deep_copier.copies [OF assms(1) t(2) copy] by blast
    have "ok h' t'" "deep h' t' = deep h1 t'" "reach h' t' = reach h1 t'"
      using deep_copier.stable [OF assms(1) t'(1), of "[mk t']"] h' by simp_all
    then show ?thesis
      using t t' n1 Some assms(2)
      by (auto simp: p' h' pointer_ok_def pointer_deep_def pointer_reach_def)
  qed
next
  fix h p new
  assume "pointer_ok get ok h p"
  then show "pointer_ok get ok (h @ new) p \<and> pointer_deep get deep (h @ new) p = pointer_deep get deep h p \<and>
      pointer_reach get reach (h @ new) p = pointer_reach get reach h p"
    using deep_copier.stable [OF assms(1)]
    by (auto simp: pointer_ok_def pointer_deep_def pointer_reach_def nth_append split: option.splits)
next
  fix h p
  assume "pointer_ok get ok h p"
  then show "pointer_reach get reach h p \<subseteq> {..<length h}"
    using deep_copier.reach_bounded [OF assms(1)]
    by (fastforce simp: pointer_ok_def pointer_reach_def split: option.splits)
next
  fix h p a v
  assume "pointer_ok get ok h p" and "a \<notin> pointer_reach get reach h p"
  then show "pointer_deep get deep (h[a := v]) p = pointer_deep get deep h p"
    using deep_copier.local [OF assms(1)]
    by (auto simp: pointer_ok_def pointer_deep_def pointer_reach_def split: option.splits)
qed

text \<open>A struct is copied as the tuple of its fields.\<close>

lemma copy_struct_ok:
  assumes "deep_copier c ok deep reach" and "\<And>p. to (un p) = p"
    and "\<And>s h. cp s h = map_prod un id (c (to s) h)"
  shows "deep_copier cp (\<lambda>h s. ok h (to s)) (\<lambda>h s. deep h (to s)) (\<lambda>h s. reach h (to s))"
proof unfold_locales
  fix h s s' h'
  assume ok: "ok h (to s)" and "cp s h = (s', h')"
  then obtain p where "c (to s) h = (p, h')" and "s' = un p"
    using assms(3) by (cases "c (to s) h") auto
  then show "(\<exists>new. h' = h @ new) \<and> ok h' (to s') \<and> deep h' (to s') = deep h (to s) \<and>
      reach h' (to s') \<subseteq> {length h..<length h'}"
    using deep_copier.copies [OF assms(1) ok] assms(2) by simp
qed (use deep_copier.stable [OF assms(1)] deep_copier.reach_bounded [OF assms(1)] deep_copier.local [OF assms(1)]
    in auto)

subsection \<open>The types\<close>

fun as_map :: "'x cell \<Rightarrow> resource_list option" where
  "as_map (MapCell m) = Some m" | "as_map _ = None"

fun as_namespaces :: "'x cell \<Rightarrow> mem_namespace_quota list option" where
  "as_namespaces (NamespacesCell xs) = Some xs" | "as_namespaces _ = None"

fun as_selector :: "'x cell \<Rightarrow> 'x option" where
  "as_selector (SelectorCell x) = Some x" | "as_selector _ = None"

fun as_crqs :: "'x cell \<Rightarrow> 'x mem_crq list option" where
  "as_crqs (CrqsCell xs) = Some xs" | "as_crqs _ = None"

fun as_rqs :: "'x cell \<Rightarrow> 'x mem_rq list option" where
  "as_rqs (RqsCell xs) = Some xs" | "as_rqs _ = None"

text \<open>
  Each type has its fields as a tuple, and what it means to be valid, what it stands for and
  what it reaches follow from the fields. \<open>eok\<close>, \<open>edeep\<close> and \<open>ereach\<close> are those of the structs of
  Kubernetes.
\<close>

abbreviation nrq_tuple :: "mem_namespace_quota \<Rightarrow> string \<times> pointer" where
  "nrq_tuple \<equiv> \<lambda>s. (mn_Name s, mn_Used s)"

definition nrq_ok :: "'x memory \<Rightarrow> mem_namespace_quota \<Rightarrow> bool" where
  "nrq_ok = (\<lambda>h s. pair_ok (\<lambda>h x. True) (pointer_ok as_map (\<lambda>h. mwf)) h (nrq_tuple s))"

definition nrq_deep :: "'x memory \<Rightarrow> mem_namespace_quota \<Rightarrow> string \<times> (string \<Rightarrow> quantity option) option option" where
  "nrq_deep = (\<lambda>h s. pair_deep (\<lambda>h x. x) (pointer_deep as_map (\<lambda>h. map_of)) h (nrq_tuple s))"

definition nrq_reach :: "'x memory \<Rightarrow> mem_namespace_quota \<Rightarrow> nat set" where
  "nrq_reach = (\<lambda>h s. pair_reach (\<lambda>h x. {}) (pointer_reach as_map (\<lambda>h m. {})) h (nrq_tuple s))"

interpretation nrq: deep_copier NamespaceResourceQuota_DeepCopyInto nrq_ok nrq_deep nrq_reach
  unfolding nrq_ok_def nrq_deep_def nrq_reach_def
proof (rule copy_struct_ok [OF copy_pair_ok [OF copy_value_ok copy_pointer_ok [OF copy_map_ok]],
      where un = "\<lambda>p. \<lparr>mn_Name = fst p, mn_Used = snd p\<rparr>"])
  show "NamespaceResourceQuota_DeepCopyInto s h = map_prod (\<lambda>p. \<lparr>mn_Name = fst p, mn_Used = snd p\<rparr>) id
      (copy_pair copy_value (copy_pointer as_map MapCell copy_map) (nrq_tuple s) h)" for s and h :: "'x memory"
    by (cases "mn_Used s"; cases "h ! the (mn_Used s)")
      (auto simp: NamespaceResourceQuota_DeepCopyInto_def copy_pair_def copy_value_def copy_pointer_def
        copy_map_def new_cell_def Let_def)
qed simp_all

text \<open>\<open>ClusterResourceQuotaSpec\<close>.\<close>

abbreviation spec_tuple :: "'x mem_crq_spec \<Rightarrow> 'x \<times> pointer" where
  "spec_tuple \<equiv> \<lambda>s. (mcs_ResourceQuotaSpec s, mcs_NamespaceSelector s)"

definition spec_ok :: "('x memory \<Rightarrow> 'x \<Rightarrow> bool) \<Rightarrow> 'x memory \<Rightarrow> 'x mem_crq_spec \<Rightarrow> bool" where
  "spec_ok eok = (\<lambda>h s. pair_ok eok (pointer_ok as_selector eok) h (spec_tuple s))"

definition spec_deep where
  "spec_deep edeep = (\<lambda>h (s :: 'x mem_crq_spec). pair_deep edeep (pointer_deep as_selector edeep) h (spec_tuple s))"

definition spec_reach :: "('x memory \<Rightarrow> 'x \<Rightarrow> nat set) \<Rightarrow> 'x memory \<Rightarrow> 'x mem_crq_spec \<Rightarrow> nat set" where
  "spec_reach ereach = (\<lambda>h s. pair_reach ereach (pointer_reach as_selector ereach) h (spec_tuple s))"

lemma spec_copier:
  assumes "deep_copier ext eok edeep ereach"
  shows "deep_copier (ClusterResourceQuotaSpec_DeepCopyInto ext) (spec_ok eok) (spec_deep edeep) (spec_reach ereach)"
  unfolding spec_ok_def spec_deep_def spec_reach_def
proof (rule copy_struct_ok [OF copy_pair_ok [OF assms copy_pointer_ok [OF assms]],
      where un = "\<lambda>p. \<lparr>mcs_ResourceQuotaSpec = fst p, mcs_NamespaceSelector = snd p\<rparr>"])
  show "ClusterResourceQuotaSpec_DeepCopyInto ext s h =
      map_prod (\<lambda>p. \<lparr>mcs_ResourceQuotaSpec = fst p, mcs_NamespaceSelector = snd p\<rparr>) id
        (copy_pair ext (copy_pointer as_selector SelectorCell ext) (spec_tuple s) h)" for s h
    by (cases "ext (mcs_ResourceQuotaSpec s) h"; cases "mcs_NamespaceSelector s";
        cases "snd (ext (mcs_ResourceQuotaSpec s) h) ! the (mcs_NamespaceSelector s)")
      (auto simp: ClusterResourceQuotaSpec_DeepCopyInto_def copy_pair_def copy_pointer_def new_cell_def Let_def
        split: prod.split)
qed simp_all

text \<open>\<open>ClusterResourceQuotaStatus\<close>.\<close>

abbreviation status_tuple :: "'x mem_crq_status \<Rightarrow> 'x \<times> pointer" where
  "status_tuple \<equiv> \<lambda>s. (mct_ResourceQuotaStatus s, mct_Namespaces s)"

definition status_ok :: "('x memory \<Rightarrow> 'x \<Rightarrow> bool) \<Rightarrow> 'x memory \<Rightarrow> 'x mem_crq_status \<Rightarrow> bool" where
  "status_ok eok = (\<lambda>h s. pair_ok eok (pointer_ok as_namespaces (\<lambda>h xs. \<forall>x \<in> set xs. nrq_ok h x)) h (status_tuple s))"

definition status_deep where
  "status_deep edeep = (\<lambda>h (s :: 'x mem_crq_status). pair_deep edeep (pointer_deep as_namespaces (\<lambda>h. map (nrq_deep h))) h (status_tuple s))"

definition status_reach :: "('x memory \<Rightarrow> 'x \<Rightarrow> nat set) \<Rightarrow> 'x memory \<Rightarrow> 'x mem_crq_status \<Rightarrow> nat set" where
  "status_reach ereach = (\<lambda>h s. pair_reach ereach (pointer_reach as_namespaces (\<lambda>h xs. \<Union>x \<in> set xs. nrq_reach h x)) h (status_tuple s))"

lemma status_copier:
  assumes "deep_copier ext eok edeep ereach"
  shows "deep_copier (ClusterResourceQuotaStatus_DeepCopyInto ext) (status_ok eok) (status_deep edeep) (status_reach ereach)"
  unfolding status_ok_def status_deep_def status_reach_def
proof (rule copy_struct_ok [OF copy_pair_ok [OF assms copy_pointer_ok [OF copy_items_ok [OF nrq.deep_copier_axioms]]],
      where un = "\<lambda>p. \<lparr>mct_ResourceQuotaStatus = fst p, mct_Namespaces = snd p\<rparr>"])
  show "ClusterResourceQuotaStatus_DeepCopyInto ext s h =
      map_prod (\<lambda>p. \<lparr>mct_ResourceQuotaStatus = fst p, mct_Namespaces = snd p\<rparr>) id
        (copy_pair ext (copy_pointer as_namespaces NamespacesCell (copy_items NamespaceResourceQuota_DeepCopyInto))
          (status_tuple s) h)" for s h
    by (cases "ext (mct_ResourceQuotaStatus s) h"; cases "mct_Namespaces s";
        cases "snd (ext (mct_ResourceQuotaStatus s) h) ! the (mct_Namespaces s)")
      (auto simp: ClusterResourceQuotaStatus_DeepCopyInto_def copy_pair_def copy_pointer_def new_cell_def Let_def
        split: prod.split)
qed simp_all

text \<open>\<open>ClusterResourceQuota\<close> and \<open>ResourceQuota\<close>.\<close>

abbreviation crq_tuple :: "'x mem_crq \<Rightarrow> type_meta \<times> 'x \<times> 'x mem_crq_spec \<times> 'x mem_crq_status" where
  "crq_tuple \<equiv> \<lambda>s. (mc_TypeMeta s, mc_ObjectMeta s, mc_Spec s, mc_Status s)"

definition crq_ok :: "('x memory \<Rightarrow> 'x \<Rightarrow> bool) \<Rightarrow> 'x memory \<Rightarrow> 'x mem_crq \<Rightarrow> bool" where
  "crq_ok eok = (\<lambda>h s. pair_ok (\<lambda>h x. True) (pair_ok eok (pair_ok (spec_ok eok) (status_ok eok))) h (crq_tuple s))"

definition crq_deep where
  "crq_deep edeep = (\<lambda>h (s :: 'x mem_crq). pair_deep (\<lambda>h x. x) (pair_deep edeep (pair_deep (spec_deep edeep) (status_deep edeep))) h (crq_tuple s))"

definition crq_reach :: "('x memory \<Rightarrow> 'x \<Rightarrow> nat set) \<Rightarrow> 'x memory \<Rightarrow> 'x mem_crq \<Rightarrow> nat set" where
  "crq_reach ereach = (\<lambda>h s. pair_reach (\<lambda>h x. {}) (pair_reach ereach (pair_reach (spec_reach ereach) (status_reach ereach))) h (crq_tuple s))"

lemma crq_copier:
  assumes "deep_copier ext eok edeep ereach"
  shows "deep_copier (ClusterResourceQuota_DeepCopyInto ext) (crq_ok eok) (crq_deep edeep) (crq_reach ereach)"
  unfolding crq_ok_def crq_deep_def crq_reach_def
proof (rule copy_struct_ok [OF copy_pair_ok [OF copy_value_ok copy_pair_ok [OF assms
        copy_pair_ok [OF spec_copier [OF assms] status_copier [OF assms]]]],
      where un = "\<lambda>(t, m, sp, st). \<lparr>mc_TypeMeta = t, mc_ObjectMeta = m, mc_Spec = sp, mc_Status = st\<rparr>"])
  show "ClusterResourceQuota_DeepCopyInto ext s h =
      map_prod (\<lambda>(t, m, sp, st). \<lparr>mc_TypeMeta = t, mc_ObjectMeta = m, mc_Spec = sp, mc_Status = st\<rparr>) id
        (copy_pair copy_value (copy_pair ext (copy_pair (ClusterResourceQuotaSpec_DeepCopyInto ext)
          (ClusterResourceQuotaStatus_DeepCopyInto ext))) (crq_tuple s) h)" for s h
    by (auto simp: ClusterResourceQuota_DeepCopyInto_def copy_pair_def copy_value_def Let_def split: prod.split)
qed auto

abbreviation rq_tuple :: "'x mem_rq \<Rightarrow> type_meta \<times> 'x \<times> 'x \<times> 'x" where
  "rq_tuple \<equiv> \<lambda>s. (mr_TypeMeta s, mr_ObjectMeta s, mr_Spec s, mr_Status s)"

definition rq_ok :: "('x memory \<Rightarrow> 'x \<Rightarrow> bool) \<Rightarrow> 'x memory \<Rightarrow> 'x mem_rq \<Rightarrow> bool" where
  "rq_ok eok = (\<lambda>h s. pair_ok (\<lambda>h x. True) (pair_ok eok (pair_ok eok eok)) h (rq_tuple s))"

definition rq_deep where
  "rq_deep edeep = (\<lambda>h (s :: 'x mem_rq). pair_deep (\<lambda>h x. x) (pair_deep edeep (pair_deep edeep edeep)) h (rq_tuple s))"

definition rq_reach :: "('x memory \<Rightarrow> 'x \<Rightarrow> nat set) \<Rightarrow> 'x memory \<Rightarrow> 'x mem_rq \<Rightarrow> nat set" where
  "rq_reach ereach = (\<lambda>h s. pair_reach (\<lambda>h x. {}) (pair_reach ereach (pair_reach ereach ereach)) h (rq_tuple s))"

lemma rq_copier:
  assumes "deep_copier ext eok edeep ereach"
  shows "deep_copier (ResourceQuota_DeepCopyInto ext) (rq_ok eok) (rq_deep edeep) (rq_reach ereach)"
  unfolding rq_ok_def rq_deep_def rq_reach_def
proof (rule copy_struct_ok [OF copy_pair_ok [OF copy_value_ok copy_pair_ok [OF assms copy_pair_ok [OF assms assms]]],
      where un = "\<lambda>(t, m, sp, st). \<lparr>mr_TypeMeta = t, mr_ObjectMeta = m, mr_Spec = sp, mr_Status = st\<rparr>"])
  show "ResourceQuota_DeepCopyInto ext s h =
      map_prod (\<lambda>(t, m, sp, st). \<lparr>mr_TypeMeta = t, mr_ObjectMeta = m, mr_Spec = sp, mr_Status = st\<rparr>) id
        (copy_pair copy_value (copy_pair ext (copy_pair ext ext)) (rq_tuple s) h)" for s h
    by (auto simp: ResourceQuota_DeepCopyInto_def copy_pair_def copy_value_def Let_def split: prod.split)
qed auto

text \<open>The lists.\<close>

abbreviation crqs_tuple :: "'x mem_list \<Rightarrow> type_meta \<times> 'x \<times> pointer" where
  "crqs_tuple \<equiv> \<lambda>s. (ml_TypeMeta s, ml_ListMeta s, ml_Items s)"

definition crqs_ok :: "('x memory \<Rightarrow> 'x \<Rightarrow> bool) \<Rightarrow> 'x memory \<Rightarrow> 'x mem_list \<Rightarrow> bool" where
  "crqs_ok eok = (\<lambda>h s. pair_ok (\<lambda>h x. True) (pair_ok eok (pointer_ok as_crqs (\<lambda>h xs. \<forall>x \<in> set xs. crq_ok eok h x))) h (crqs_tuple s))"

definition crqs_deep where
  "crqs_deep edeep = (\<lambda>h (s :: 'x mem_list). pair_deep (\<lambda>h x. x) (pair_deep edeep (pointer_deep as_crqs (\<lambda>h. map (crq_deep edeep h)))) h (crqs_tuple s))"

definition crqs_reach :: "('x memory \<Rightarrow> 'x \<Rightarrow> nat set) \<Rightarrow> 'x memory \<Rightarrow> 'x mem_list \<Rightarrow> nat set" where
  "crqs_reach ereach = (\<lambda>h s. pair_reach (\<lambda>h x. {}) (pair_reach ereach (pointer_reach as_crqs (\<lambda>h xs. \<Union>x \<in> set xs. crq_reach ereach h x))) h (crqs_tuple s))"

lemma crqs_copier:
  assumes "deep_copier ext eok edeep ereach"
  shows "deep_copier (ClusterResourceQuotaList_DeepCopyInto ext) (crqs_ok eok) (crqs_deep edeep) (crqs_reach ereach)"
  unfolding crqs_ok_def crqs_deep_def crqs_reach_def
proof (rule copy_struct_ok [OF copy_pair_ok [OF copy_value_ok copy_pair_ok [OF assms
        copy_pointer_ok [OF copy_items_ok [OF crq_copier [OF assms]]]]],
      where un = "\<lambda>(t, m, p). \<lparr>ml_TypeMeta = t, ml_ListMeta = m, ml_Items = p\<rparr>"])
  show "ClusterResourceQuotaList_DeepCopyInto ext s h =
      map_prod (\<lambda>(t, m, p). \<lparr>ml_TypeMeta = t, ml_ListMeta = m, ml_Items = p\<rparr>) id
        (copy_pair copy_value (copy_pair ext (copy_pointer as_crqs CrqsCell
          (copy_items (ClusterResourceQuota_DeepCopyInto ext)))) (crqs_tuple s) h)" for s h
    by (cases "ext (ml_ListMeta s) h"; cases "ml_Items s"; cases "snd (ext (ml_ListMeta s) h) ! the (ml_Items s)")
      (auto simp: ClusterResourceQuotaList_DeepCopyInto_def copy_pair_def copy_value_def copy_pointer_def new_cell_def Let_def
        split: prod.split)
qed auto

abbreviation rqs_tuple :: "'x mem_list \<Rightarrow> type_meta \<times> 'x \<times> pointer" where
  "rqs_tuple \<equiv> \<lambda>s. (ml_TypeMeta s, ml_ListMeta s, ml_Items s)"

definition rqs_ok :: "('x memory \<Rightarrow> 'x \<Rightarrow> bool) \<Rightarrow> 'x memory \<Rightarrow> 'x mem_list \<Rightarrow> bool" where
  "rqs_ok eok = (\<lambda>h s. pair_ok (\<lambda>h x. True) (pair_ok eok (pointer_ok as_rqs (\<lambda>h xs. \<forall>x \<in> set xs. rq_ok eok h x))) h (rqs_tuple s))"

definition rqs_deep where
  "rqs_deep edeep = (\<lambda>h (s :: 'x mem_list). pair_deep (\<lambda>h x. x) (pair_deep edeep (pointer_deep as_rqs (\<lambda>h. map (rq_deep edeep h)))) h (rqs_tuple s))"

definition rqs_reach :: "('x memory \<Rightarrow> 'x \<Rightarrow> nat set) \<Rightarrow> 'x memory \<Rightarrow> 'x mem_list \<Rightarrow> nat set" where
  "rqs_reach ereach = (\<lambda>h s. pair_reach (\<lambda>h x. {}) (pair_reach ereach (pointer_reach as_rqs (\<lambda>h xs. \<Union>x \<in> set xs. rq_reach ereach h x))) h (rqs_tuple s))"

lemma rqs_copier:
  assumes "deep_copier ext eok edeep ereach"
  shows "deep_copier (ResourceQuotaList_DeepCopyInto ext) (rqs_ok eok) (rqs_deep edeep) (rqs_reach ereach)"
  unfolding rqs_ok_def rqs_deep_def rqs_reach_def
proof (rule copy_struct_ok [OF copy_pair_ok [OF copy_value_ok copy_pair_ok [OF assms
        copy_pointer_ok [OF copy_items_ok [OF rq_copier [OF assms]]]]],
      where un = "\<lambda>(t, m, p). \<lparr>ml_TypeMeta = t, ml_ListMeta = m, ml_Items = p\<rparr>"])
  show "ResourceQuotaList_DeepCopyInto ext s h =
      map_prod (\<lambda>(t, m, p). \<lparr>ml_TypeMeta = t, ml_ListMeta = m, ml_Items = p\<rparr>) id
        (copy_pair copy_value (copy_pair ext (copy_pointer as_rqs RqsCell
          (copy_items (ResourceQuota_DeepCopyInto ext)))) (rqs_tuple s) h)" for s h
    by (cases "ext (ml_ListMeta s) h"; cases "ml_Items s"; cases "snd (ext (ml_ListMeta s) h) ! the (ml_Items s)")
      (auto simp: ResourceQuotaList_DeepCopyInto_def copy_pair_def copy_value_def copy_pointer_def new_cell_def Let_def
        split: prod.split)
qed auto

subsection \<open>Properties\<close>

text \<open>
  C26. A deep copy of a list of ClusterResourceQuotas - through \<open>DeepCopyObject\<close>, with all the items,
  specs, selectors, statuses, namespace entries and usage maps in it - stands for the same value, and
  the two share nothing: whatever is written to any cell the copy can reach, the original still stands
  for what it did, and the other way round. The structs of Kubernetes are only assumed to be
  copied that way themselves.
\<close>
theorem deep_copy_is_independent:
  assumes "deep_copier ext eok edeep ereach" and "crqs_ok eok h l"
    and "ClusterResourceQuotaList_DeepCopyObject ext (Some l) h = (r, h')"
  shows "\<exists>l'. r = Some l' \<and> crqs_deep edeep h' l' = crqs_deep edeep h l \<and>
    crqs_deep edeep h' l = crqs_deep edeep h l \<and>
    (\<forall>a v. a \<in> crqs_reach ereach h' l' \<longrightarrow> crqs_deep edeep (h'[a := v]) l = crqs_deep edeep h l) \<and>
    (\<forall>a v. a \<in> crqs_reach ereach h l \<longrightarrow> crqs_deep edeep (h'[a := v]) l' = crqs_deep edeep h l)"
proof -
  obtain l' where "ClusterResourceQuotaList_DeepCopyInto ext l h = (l', h')" and "r = Some l'"
    using assms(3) by (auto simp: ClusterResourceQuotaList_DeepCopyObject_def DeepCopyObject_def DeepCopy_def
        split: prod.splits)
  then show ?thesis
    using deep_copier.independent [OF crqs_copier [OF assms(1)] assms(2)] by blast
qed

definition copy_memory :: "string memory" where
  "copy_memory = [MapCell [(''cpu'', Quantity 1)],
     NamespacesCell [\<lparr>mn_Name = ''ns1'', mn_Used = Some 0\<rparr>], SelectorCell ''all'',
     CrqsCell [\<lparr>mc_TypeMeta = empty_type_meta, mc_ObjectMeta = ''team'',
       mc_Spec = \<lparr>mcs_ResourceQuotaSpec = ''spec'', mcs_NamespaceSelector = Some 2\<rparr>,
       mc_Status = \<lparr>mct_ResourceQuotaStatus = ''status'', mct_Namespaces = Some 1\<rparr>\<rparr>]]"

definition copy_list_object :: "string mem_list" where
  "copy_list_object = \<lparr>ml_TypeMeta = empty_type_meta, ml_ListMeta = ''list'', ml_Items = Some 3\<rparr>"

definition copied :: "string mem_list option \<times> string memory" where
  "copied = ClusterResourceQuotaList_DeepCopyObject copy_value (Some copy_list_object) copy_memory"

text \<open>Overwriting the usage map of the copy, at address 5, leaves the original as it was.\<close>

theorem deep_copy_is_independent_witness:
  "crqs_deep (\<lambda>h x. x) ((snd copied)[5 := MapCell []]) copy_list_object =
   crqs_deep (\<lambda>h x. x) copy_memory copy_list_object"
proof -
  have ok: "crqs_ok (\<lambda>h x. True) copy_memory copy_list_object"
    by (simp add: crqs_ok_def crq_ok_def spec_ok_def status_ok_def nrq_ok_def pair_ok_def pointer_ok_def
        copy_memory_def copy_list_object_def mwf_def)
  have run: "ClusterResourceQuotaList_DeepCopyObject copy_value (Some copy_list_object) copy_memory =
      (fst copied, snd copied)"
    by (simp add: copied_def)
  have copy: "fst copied = Some (copy_list_object\<lparr>ml_Items := Some 7\<rparr>)"
    unfolding copied_def by code_simp
  have "5 \<in> crqs_reach (\<lambda>h x. {}) (snd copied) (copy_list_object\<lparr>ml_Items := Some 7\<rparr>)"
    by (simp add: copied_def ClusterResourceQuotaList_DeepCopyObject_def DeepCopyObject_def DeepCopy_def ClusterResourceQuotaList_DeepCopyInto_def
        ClusterResourceQuota_DeepCopyInto_def ClusterResourceQuotaSpec_DeepCopyInto_def
        ClusterResourceQuotaStatus_DeepCopyInto_def NamespaceResourceQuota_DeepCopyInto_def copy_value_def
        copy_memory_def copy_list_object_def new_cell_def Let_def crqs_reach_def crq_reach_def status_reach_def
        spec_reach_def nrq_reach_def pair_reach_def pointer_reach_def)
  then show ?thesis
    using deep_copy_is_independent [OF copy_value_ok ok run] copy by auto
qed

end
