(* ===== verification/Ledger.thy ===== *)
theory Ledger
  imports Interleaving
begin

section \<open>The concurrent webhook as an atomic ledger\<close>

text \<open>
  What the cache, the webhook and \<open>Sync\<close> promise together, without pointers, locks, retries and
  resource lists: a ledger that has the usage of every namespace of every ClusterResourceQuota. Its
  steps are atomic. One charges a namespace, and only if the total then fits the hard limits;
  one replaces the whole ledger by a listing. The theory shows that every interleaving of
  requests, \<open>Sync\<close> and changes of the world is a run of this ledger.
\<close>

subsection \<open>The sum over the namespaces of an entry\<close>

lemma quotas_total_dom:
  "mwf qs \<Longrightarrow> quotas_total qs k = (\<Sum>ns \<in> dom (map_of qs). share qs ns k)"
proof (induction qs)
  case Nil
  then show ?case
    by (simp add: quotas_total_def)
next
  case (Cons e qs)
  obtain ns u where e: "e = (ns, u)"
    by fastforce
  have fresh: "ns \<notin> dom (map_of qs)" and wf: "mwf qs"
    using Cons.prems by (auto simp: e mwf_Cons dom_map_of_conv_image_fst)
  have "share (e # qs) m k = share qs m k" if "m \<in> dom (map_of qs)" for m
    using that fresh by (auto simp: e share_def)
  then have "(\<Sum>m \<in> dom (map_of qs). share (e # qs) m k) = quotas_total qs k"
    using Cons.IH [OF wf] by simp
  then have "(\<Sum>m \<in> insert ns (dom (map_of qs)). share (e # qs) m k) =
      share (e # qs) ns k + quotas_total qs k"
    using fresh by (simp add: finite_dom_map_of)
  moreover have "dom (map_of (e # qs)) = insert ns (dom (map_of qs))"
    by (auto simp: e)
  moreover have "share (e # qs) ns k + quotas_total qs k = quotas_total (e # qs) k"
    by (simp add: e quotas_total_def share_def)
  ultimately show ?case
    by (simp only:)
qed

lemma total_after_dom:
  assumes "mwf qs"
  shows "total_after qs rq k =
    rval (rq_Status_Used rq) k + (\<Sum>ns \<in> dom (map_of qs) - {rq_Namespace rq}. share qs ns k)"
proof -
  have "(\<Sum>ns \<in> dom (map_of qs). share qs ns k) =
      share qs (rq_Namespace rq) k + (\<Sum>ns \<in> dom (map_of qs) - {rq_Namespace rq}. share qs ns k)"
  proof (cases "rq_Namespace rq \<in> dom (map_of qs)")
    case True
    then show ?thesis
      by (simp add: sum.remove finite_dom_map_of)
  next
    case False
    then have "share qs (rq_Namespace rq) k = 0"
      by (auto simp: share_def split: option.split)
    then show ?thesis
      using False by simp
  qed
  then show ?thesis
    using assms by (simp add: total_after_def quotas_total_dom)
qed

subsection \<open>The ledger\<close>

text \<open>From a ClusterResourceQuota and a namespace to the usage of each resource.\<close>

type_synonym ledger = "string \<Rightarrow> string \<Rightarrow> (string \<Rightarrow> quantity) option"

definition ledger_total :: "ledger \<Rightarrow> string \<Rightarrow> string \<Rightarrow> quantity" where
  "ledger_total l n k = (\<Sum>ns \<in> dom (l n). the (l n ns) k)"

definition charge :: "string \<Rightarrow> string \<Rightarrow> (string \<Rightarrow> quantity) \<Rightarrow> ledger \<Rightarrow> ledger" where
  "charge n ns u l = l(n := (l n)(ns \<mapsto> u))"

definition ledger_of_listing :: "resource_quota list \<Rightarrow> ledger" where
  "ledger_of_listing qs n ns =
    (if n = [] then None
     else map_option (\<lambda>rq. rval (rq_Status_Used rq))
       (find (\<lambda>rq. managed_by (rq_Labels rq) = n \<and> rq_Namespace rq = ns) (rev qs)))"

inductive ledger_step :: "(string \<Rightarrow> resource_list) \<Rightarrow> ledger \<Rightarrow> ledger \<Rightarrow> bool" for H where
  idle: "ledger_step H l l"
| charged: "(\<And>k h. map_of (H n) k = Some h \<Longrightarrow> ledger_total (charge n ns u l) n k \<le> h) \<Longrightarrow>
    ledger_step H l (charge n ns u l)"
| reset: "ledger_step H l (ledger_of_listing qs)"

inductive_cases ledger_stepE: "ledger_step H l l'"

text \<open>What the cache stands for.\<close>

definition usage_values :: "quotas \<Rightarrow> string \<Rightarrow> (string \<Rightarrow> quantity) option" where
  "usage_values qs ns = map_option (\<lambda>u. rval (rui_Used u)) (map_of qs ns)"

definition ledger_of :: "resource_quota_cache \<Rightarrow> ledger" where
  "ledger_of c n = usage_values (contents (view c n))"

lemma usage_values_mput:
  "usage_values (mput ns u qs) = (usage_values qs)(ns \<mapsto> rval (rui_Used u))"
  by (simp add: usage_values_def gomap_simps fun_eq_iff)

lemma usage_values_total:
  "mwf qs \<Longrightarrow> (\<Sum>ns \<in> dom (usage_values qs). the (usage_values qs ns) k) = quotas_total qs k"
  by (auto simp: quotas_total_dom usage_values_def share_def dom_def intro!: sum.cong split: option.split)

lemma ledger_total_of:
  "cache_ok c \<Longrightarrow> ledger_total (ledger_of c) n k = quotas_total (contents (view c n)) k"
  by (simp add: ledger_total_def ledger_of_def usage_values_total cache.contents_wf)

lemma ledger_of_upd: "view c' = (view c)(n \<mapsto> qs) \<Longrightarrow> ledger_of c' = (ledger_of c)(n := usage_values qs)"
  by (simp add: ledger_of_def fun_eq_iff)

lemma ledger_of_same: "view c' = view c \<Longrightarrow> ledger_of c' = ledger_of c"
  by (simp add: ledger_of_def fun_eq_iff)

lemma ledger_of_usage: "ledger_of c n = (\<lambda>ns. case usage c n of None \<Rightarrow> None | Some m \<Rightarrow> map_option (\<lambda>u. rval (rui_Used u)) (m ns))"
  by (simp add: ledger_of_def usage_def usage_values_def contents_def fun_eq_iff split: option.split)

lemma ledger_of_listed:
  "(\<lambda>ns. case listed t qs n of None \<Rightarrow> None | Some m \<Rightarrow> map_option (\<lambda>u. rval (rui_Used u)) (m ns)) = ledger_of_listing qs n"
proof -
  have "find (\<lambda>rq. managed_by (rq_Labels rq) = n \<and> rq_Namespace rq = ns) (rev qs) = None"
    if "n \<notin> (\<lambda>rq. managed_by (rq_Labels rq)) ` set qs" for ns
    using that by (auto simp: find_None_iff)
  then show ?thesis
    by (auto simp: fun_eq_iff listed_def ledger_of_listing_def usage_info_def option.map_comp comp_def)
qed

lemma ledger_of_Sync:
  assumes "cache_ok c" and "Sync now qs c w = (c', w')"
  shows "ledger_of c' = ledger_of_listing qs"
proof
  fix n
  show "ledger_of c' n = ledger_of_listing qs n"
    using ledger_of_listed [of "fst (now w)" qs n] by (simp add: ledger_of_usage Sync_effect(2) [OF assms])
qed

text \<open>
  Storing an entry through a pointer that belongs to \<open>n\<close> or to nobody: an orphan changes nothing, otherwise
  the namespace is charged.
\<close>

lemma ledger_of_store:
  assumes "cache_ok c" and "pointer_ok c (Some (a, n))"
    and "\<forall>k h. map_of (H n) k = Some h \<longrightarrow> quotas_total (mput ns entry (read_quotas a c)) k \<le> h"
  shows "ledger_of (write_quotas a (mput ns entry (read_quotas a c)) c) = ledger_of c \<or>
    ledger_of (write_quotas a (mput ns entry (read_quotas a c)) c) =
      charge n ns (rval (rui_Used entry)) (ledger_of c) \<and>
    (\<forall>k h. map_of (H n) k = Some h \<longrightarrow>
      ledger_total (charge n ns (rval (rui_Used entry)) (ledger_of c)) n k \<le> h)"
proof (cases "map_of (rqc_quotacache c) n = Some a")
  case False
  then have "a \<notin> ran (map_of (rqc_quotacache c))"
    using assms(2) by (auto simp: ran_def pointer_ok_def)
  then show ?thesis
    by (simp add: ledger_of_same [OF view_write_orphan])
next
  case True
  let ?qs = "mput ns entry (read_quotas a c)"
  note view = view_write [OF assms(1) True, of ?qs]
  have charged: "ledger_of (write_quotas a ?qs c) = charge n ns (rval (rui_Used entry)) (ledger_of c)"
    unfolding ledger_of_upd [OF view] usage_values_mput charge_def
    by (simp add: ledger_of_def view_lookup [OF True])
  have "cache_ok (write_quotas a ?qs c)"
    using cache_ok_write [OF assms(1) gm_wf(1) [OF cache_okD(2) [OF assms(1) True]]] .
  then have "ledger_total (ledger_of (write_quotas a ?qs c)) n k = quotas_total ?qs k" for k
    by (simp add: ledger_total_of view)
  then show ?thesis
    using assms(3) charged by simp
qed

subsection \<open>Forward simulation\<close>

text \<open>
  An implementation whose every step, from a state with the invariant, is a step of the
  specification: then so is every run, and what the specification never leaves, the implementation
  never leaves.
\<close>

locale forward_simulation =
  fixes cstep :: "'c \<Rightarrow> 'c \<Rightarrow> bool" and astep :: "'a \<Rightarrow> 'a \<Rightarrow> bool"
    and abs :: "'c \<Rightarrow> 'a" and inv :: "'c \<Rightarrow> bool"
  assumes inv_step: "inv s \<Longrightarrow> cstep s s' \<Longrightarrow> inv s'"
    and sim_step: "inv s \<Longrightarrow> cstep s s' \<Longrightarrow> astep (abs s) (abs s')"
begin

lemma run: "cstep\<^sup>*\<^sup>* s s' \<Longrightarrow> inv s \<Longrightarrow> inv s' \<and> astep\<^sup>*\<^sup>* (abs s) (abs s')"
proof (induction rule: rtranclp_induct)
  case (step y z)
  then show ?case
    using inv_step sim_step by (blast intro: rtranclp.rtrancl_into_rtrancl)
qed simp

lemma transfer:
  assumes "cstep\<^sup>*\<^sup>* s s'" and "inv s" and "P (abs s)"
    and "\<And>a a'. P a \<Longrightarrow> astep a a' \<Longrightarrow> P a'"
  shows "P (abs s')"
proof -
  have "astep\<^sup>*\<^sup>* (abs s) (abs s')"
    using run [OF assms(1,2)] by simp
  then show ?thesis
    using assms(3,4) by (induction rule: rtranclp_induct) blast+
qed

end

subsection \<open>The simulation\<close>

context limited_env
begin

lemma store_ledger:
  assumes "calm_ok L s" and "sys_threads s i = Storing a rq n skip entry"
  shows "ledger_step L (ledger_of (sys_cache s))
    (ledger_of (write_quotas a (mput (rq_Namespace rq) entry (read_quotas a (sys_cache s))) (sys_cache s)))"
proof -
  note ok = system_okD [OF calm_okD(1) [OF assms(1)]]
  have "pointer_ok (sys_cache s) (Some (a, n))"
    using ok(2) [of i] by (simp add: assms(2))
  moreover have "\<forall>k h. map_of (L n) k = Some h \<longrightarrow>
      quotas_total (mput (rq_Namespace rq) entry (read_quotas a (sys_cache s))) k \<le> h"
    using calm_okD(2) [OF assms(1), of i] by (simp add: assms(2) pending_ok_def)
  ultimately show ?thesis
    using ledger_of_store [OF ok(1)] ledger_step.idle ledger_step.charged by metis
qed

lemma thread_step_ledger:
  assumes "calm_ok L s"
  shows "ledger_step L (ledger_of (sys_cache s)) (ledger_of (sys_cache (thread_step A i s)))"
proof (cases rule: thread_step_cases [of A i s])
  case (get rq n skip a c)
  have "view c = (view (sys_cache s))(n \<mapsto> contents (view (sys_cache s) n))"
    using cache.goc_view [OF system_okD(1) [OF calm_okD(1) [OF assms]] get(2)] .
  then have "ledger_of c = ledger_of (sys_cache s)"
    by (simp add: ledger_of_upd ledger_of_def fun_eq_iff)
  then show ?thesis
    unfolding get(3) by (simp add: set_thread_def ledger_step.idle)
next
  case (store a rq n skip entry)
  then show ?thesis
    using store_ledger [OF assms store(1)] by (simp add: set_thread_def)
qed (simp_all add: set_thread_def ledger_step.idle del: thread_step.simps)

lemma calm_step_ledger:
  assumes "calm_ok L s" and "calm_step A s s'"
  shows "ledger_step L (ledger_of (sys_cache s)) (ledger_of (sys_cache s'))"
  using assms(2)
proof cases
  case calm_request
  from this(1) show ?thesis
    by cases (use thread_step_ledger [OF assms(1)] in \<open>simp_all add: ledger_step.idle\<close>)
next
  case (calm_sync qs c w)
  then show ?thesis
    using ledger_of_Sync [OF system_okD(1) [OF calm_okD(1) [OF assms(1)]] calm_sync(3)] by (simp add: ledger_step.reset)
qed

end

sublocale limited_env \<subseteq> simulation: forward_simulation "calm_step A" "ledger_step L"
  "\<lambda>s. ledger_of (sys_cache s)" "calm_ok L"
  by unfold_locales (blast intro: calm_step_ok calm_step_ledger)+

context limited_env
begin

lemma system_refines_ledger:
  "(calm_step A)\<^sup>*\<^sup>* s s' \<Longrightarrow> calm_ok L s \<Longrightarrow>
   (ledger_step L)\<^sup>*\<^sup>* (ledger_of (sys_cache s)) (ledger_of (sys_cache s'))"
  using simulation.run by blast

end

subsection \<open>Properties\<close>

lemma limited_env_fixed: "limited_env fixed_status mem_stored (\<lambda>_. [(''cpu'', Quantity 10)])"
proof (intro limited_env.intro status_env_fixed limited_env_axioms.intro)
  show "map_of (crq_Status_Hard crq) k = Some h"
    if "fst (Get_crq (sa_Client fixed_status) n w) = Inr crq" and "map_of [(''cpu'', Quantity 10)] k = Some h"
    for n w crq k h
    using that by (auto simp: fixed_status_def fixed_client_def split: sum.splits)
  show "0 \<le> h" if "map_of [(''cpu'', Quantity 10)] k = Some h" for k h
    using that by (auto simp: less_eq_quantity_def split: if_splits)
qed

interpretation fixed_ledger: limited_env fixed_status mem_stored "\<lambda>_. [(''cpu'', Quantity 10)]"
  by (rule limited_env_fixed)

text \<open>
  C9. Nothing dangles. Whatever requests, with or without exemption, \<open>Sync\<close> runs and changes of the
  world interleave: the cache stays well formed - no two names share an object, no map has two
  entries for a key - every pointer a request still holds is valid and belongs to its
  ClusterResourceQuota or to nobody, so that a late store cannot hit another ClusterResourceQuota's
  usage, and two requests are never between check and store on the same object.
\<close>
theorem pointers_never_cross:
  assumes "system_ok s" and "(system_step A)\<^sup>*\<^sup>* s s'"
  shows "cache_ok (sys_cache s') \<and>
    (\<forall>i a n p. object_of (sys_threads s' i) = Some (a, n) \<longrightarrow>
      a < length (rqc_heap (sys_cache s')) \<and>
      (map_of (rqc_quotacache (sys_cache s')) p = Some a \<longrightarrow> p = n)) \<and>
    (\<forall>i j a. storing_at (sys_threads s' i) = Some a \<longrightarrow> storing_at (sys_threads s' j) = Some a \<longrightarrow> i = j)"
proof -
  have "system_ok s'"
    using assms(2,1) by (induction rule: rtranclp_induct) (auto intro: system_step_ok)
  from system_okD [OF this] show ?thesis
    unfolding pointer_ok_def locks_ok_def by blast
qed

text \<open>The first request holds the object of \<open>team\<close> when a listing without \<open>team\<close> arrives.\<close>

definition sync_of :: "resource_quota list \<Rightarrow> (mem_world, ref_error) system \<Rightarrow> (mem_world, ref_error) system" where
  "sync_of qs s =
    (case Sync (time_Now (sa_Client fixed_status)) qs (sys_cache s) (sys_world s) of
      (c, w) \<Rightarrow> s\<lparr>sys_cache := c, sys_world := w\<rparr>)"

definition held_over_sync :: "(mem_world, ref_error) system" where
  "held_over_sync = sync_of [demo_quota ''other'' ''ns9'' 1] (thread_step fixed_status 0 two_requests)"

lemma sync_of_step: "system_step fixed_status s (sync_of qs s)"
  by (auto simp: sync_of_def intro: system_step.sync split: prod.split)

lemma sync_of_calm_step: "sys_locked s = [] \<Longrightarrow> calm_step fixed_status s (sync_of qs s)"
  by (auto simp: sync_of_def intro: calm_step.calm_sync split: prod.split)

lemma held_over_sync_run: "(calm_step fixed_status)\<^sup>*\<^sup>* two_requests held_over_sync"
proof -
  have "calm_step fixed_status two_requests (thread_step fixed_status 0 two_requests)"
    by (intro calm_step.calm_request request_step.thread)
  moreover have "sys_locked (thread_step fixed_status 0 two_requests) = []"
    by (simp add: two_requests_def two_threads_def set_thread_def split: prod.split)
  ultimately show ?thesis
    unfolding held_over_sync_def using sync_of_calm_step
    by (blast intro: rtranclp.rtrancl_into_rtrancl rtranclp.rtrancl_refl)
qed

lemma held_over_sync_thread: "object_of (sys_threads held_over_sync 0) = Some (0, ''team'')"
  by (simp add: held_over_sync_def sync_of_def two_requests_def two_threads_def set_thread_def GetOrCreate_def
      demo_cache_def split: prod.split)

theorem pointers_never_cross_witness:
  "cache_ok (sys_cache held_over_sync) \<and> 0 < length (rqc_heap (sys_cache held_over_sync))"
proof -
  have "(system_step fixed_status)\<^sup>*\<^sup>* two_requests held_over_sync"
    using held_over_sync_run mono_rtranclp [of "calm_step fixed_status" "system_step fixed_status"] calm_step_system
    by blast
  from pointers_never_cross [OF two_requests_ok this] held_over_sync_thread show ?thesis
    by blast
qed

text \<open>
  The concurrent system refines the ledger, as long as \<open>Sync\<close> does not run while a request is between
  its check and its store (nothing in the code prevents that). Take hard limits that are not
  negative and requests of users who are not exempt. However the steps of the requests, their retries,
  \<open>Sync\<close> and the world interleave, what the cache stands for goes through a run of the ledger: nothing
  happens, or the usage of one namespace is replaced at once and the total, over all namespaces, then
  fits every hard limit of its ClusterResourceQuota, or the whole ledger becomes a listing. A request
  that lost its object to \<open>Sync\<close> does nothing.
\<close>
lemma concurrent_system_refines_ledger:
  assumes "status_env A stored"
    and "\<forall>n w crq. fst (Get_crq (sa_Client A) n w) = Inr crq \<longrightarrow> crq_Status_Hard crq = H n"
    and "\<forall>n k h. map_of (H n) k = Some h \<longrightarrow> 0 \<le> h"
    and "calm_ok H s" and "(calm_step A)\<^sup>*\<^sup>* s s'"
  shows "(ledger_step H)\<^sup>*\<^sup>* (ledger_of (sys_cache s)) (ledger_of (sys_cache s'))"
proof -
  have "limited_env A stored H"
    using assms(1-3) by (simp add: limited_env_def limited_env_axioms_def)
  then show ?thesis
    using limited_env.system_refines_ledger assms(4,5) by blast
qed

lemma concurrent_system_refines_ledger_witness:
  "(ledger_step (\<lambda>_. [(''cpu'', Quantity 10)]))\<^sup>*\<^sup>* (ledger_of demo_cache) (ledger_of (sys_cache held_over_sync))"
proof -
  have "(ledger_step (\<lambda>_. [(''cpu'', Quantity 10)]))\<^sup>*\<^sup>* (ledger_of (sys_cache two_requests))
      (ledger_of (sys_cache held_over_sync))"
  proof (rule concurrent_system_refines_ledger [OF status_env_fixed _ _ two_requests_calm held_over_sync_run])
    show "\<forall>n w crq. fst (Get_crq (sa_Client fixed_status) n w) = Inr crq \<longrightarrow>
        crq_Status_Hard crq = [(''cpu'', Quantity 10)]"
      by (auto simp: fixed_status_def fixed_client_def split: sum.splits)
    show "\<forall>n k h. map_of [(''cpu'', Quantity 10)] k = Some h \<longrightarrow> 0 \<le> h"
      using limited_env.limits_pos [OF limited_env_fixed] by blast
  qed
  then show ?thesis
    by (simp add: two_requests_def)
qed

text \<open>
  C16. \<open>Sync\<close> between check and store defeats the check. The request stores its entry into whatever the
  listing has made of the entry, so the cached total becomes that of the listing with this namespace's
  usage replaced; the comparison with the hard limits was made against the usage before the listing
  and says nothing about it.
\<close>
theorem sync_between_check_and_store:
  assumes "system_ok s" and "sys_threads s i = Storing a rq n skip entry"
    and "Sync now qs (sys_cache s) w = (c, w')" and "listed (fst (now w)) qs n = Some m"
    and "map_of (rqc_quotacache c) n = Some a" and "rui_Used entry = rq_Status_Used rq"
  shows "ledger_of (sys_cache (thread_step A i (s\<lparr>sys_cache := c, sys_world := w'\<rparr>))) =
      charge n (rq_Namespace rq) (rval (rq_Status_Used rq)) (ledger_of_listing qs) \<and>
    ledger_total (ledger_of (sys_cache (thread_step A i (s\<lparr>sys_cache := c, sys_world := w'\<rparr>)))) n k =
      rval (rq_Status_Used rq) k + (\<Sum>ns \<in> dom m - {rq_Namespace rq}. rval (rui_Used (the (m ns))) k)"
proof -
  let ?qs = "mput (rq_Namespace rq) entry (read_quotas a c)"
  have ok: "cache_ok c"
    using Sync_effect(1) [OF system_okD(1) [OF assms(1)] assms(3)] .
  have cache: "sys_cache (thread_step A i (s\<lparr>sys_cache := c, sys_world := w'\<rparr>)) = write_quotas a ?qs c"
    using assms(2) by (simp add: set_thread_def)
  note view = view_write [OF ok assms(5), of ?qs]
  have old: "ledger_of c = ledger_of_listing qs"
    using ledger_of_Sync [OF system_okD(1) [OF assms(1)] assms(3)] .
  have charged: "ledger_of (write_quotas a ?qs c) =
      charge n (rq_Namespace rq) (rval (rq_Status_Used rq)) (ledger_of_listing qs)"
    unfolding ledger_of_upd [OF view] usage_values_mput assms(6) charge_def old [symmetric]
    by (simp add: ledger_of_def view_lookup [OF assms(5)])
  have wf: "mwf (read_quotas a c)"
    using cache_okD(2) [OF ok assms(5)] .
  have "usage c n = Some m"
    using Sync_effect(2) [OF system_okD(1) [OF assms(1)] assms(3)] assms(4) by simp
  then have m: "map_of (read_quotas a c) = m"
    by (simp add: usage_def view_lookup [OF assms(5)])
  have "cache_ok (write_quotas a ?qs c)"
    using cache_ok_write [OF ok gm_wf(1) [OF wf]] .
  then have "ledger_total (ledger_of (write_quotas a ?qs c)) n k = quotas_total ?qs k"
    by (simp add: ledger_total_of view)
  also have "\<dots> = rval (rq_Status_Used rq) k + (\<Sum>ns \<in> dom m - {rq_Namespace rq}. rval (rui_Used (the (m ns))) k)"
    unfolding total_after_mput [OF wf assms(6)] total_after_dom [OF wf] m
    by (auto simp: share_def m intro!: sum.cong split: option.split)
  finally show ?thesis
    unfolding cache using charged by simp
qed

text \<open>
  2 for \<open>ns2\<close> fit beside the 7 of \<open>ns1\<close>, as the limit is 10. Before they are stored a listing says that
  \<open>ns1\<close> uses 9; then 11 are stored.
\<close>

definition storing_system :: "(mem_world, ref_error) system" where
  "storing_system = thread_step fixed_status 0 (thread_step fixed_status 0 two_requests)"

definition overtaken :: "(mem_world, ref_error) system" where
  "overtaken = thread_step fixed_status 0 (sync_of [demo_quota ''team'' ''ns1'' 9] storing_system)"

lemma storing_system_thread:
  "sys_threads storing_system 0 = Storing 0 (demo_quota ''team'' ''ns2'' 2) ''team'' False
     \<lparr>rui_Hard = [], rui_Used = [(''cpu'', Quantity 2)], rui_LastUpdate = 500\<rparr>"
  unfolding storing_system_def by code_simp

theorem sync_between_check_and_store_witness:
  "ledger_total (ledger_of (sys_cache overtaken)) ''team'' ''cpu'' = Quantity 11 \<and> Quantity 10 < Quantity 11"
proof -
  let ?now = "time_Now (sa_Client fixed_status)" and ?qs = "[demo_quota ''team'' ''ns1'' 9]"
  define m where "m = (\<lambda>ns. if ns = ''ns1''
      then Some (usage_info (fst (?now (sys_world storing_system))) (demo_quota ''team'' ''ns1'' 9)) else None)"
  define cw where "cw = Sync ?now ?qs (sys_cache storing_system) (sys_world storing_system)"
  have ok: "system_ok storing_system"
    unfolding storing_system_def by (intro thread_step_ok two_requests_ok)
  have sync: "Sync ?now ?qs (sys_cache storing_system) (sys_world storing_system) = (fst cw, snd cw)"
    by (simp add: cw_def)
  have listed: "listed (fst (?now (sys_world storing_system))) ?qs ''team'' = Some m"
    by (auto simp: listed_def m_def demo_quota_def mstr_def fun_eq_iff)
  have here: "map_of (rqc_quotacache (fst cw)) ''team'' = Some 0"
    unfolding cw_def storing_system_def by code_simp
  have used: "rui_Used \<lparr>rui_Hard = [], rui_Used = [(''cpu'', Quantity 2)], rui_LastUpdate = 500\<rparr> =
      rq_Status_Used (demo_quota ''team'' ''ns2'' 2)"
    by (simp add: demo_quota_def)
  have over: "overtaken = thread_step fixed_status 0 (storing_system\<lparr>sys_cache := fst cw, sys_world := snd cw\<rparr>)"
    by (simp only: overtaken_def sync_of_def sync prod.case)
  have dom: "dom m - {''ns2''} = {''ns1''}"
    by (auto simp: m_def split: if_splits)
  have "ledger_total (ledger_of (sys_cache overtaken)) ''team'' ''cpu'' =
      rval (rq_Status_Used (demo_quota ''team'' ''ns2'' 2)) ''cpu'' +
      (\<Sum>ns \<in> dom m - {rq_Namespace (demo_quota ''team'' ''ns2'' 2)}. rval (rui_Used (the (m ns))) ''cpu'')"
    unfolding over
    using sync_between_check_and_store [OF ok storing_system_thread sync listed here used] by blast
  also have "\<dots> = Quantity 11"
    using dom by (simp add: demo_quota_def m_def usage_info_def plus_quantity_def)
  finally show ?thesis
    by (simp add: less_quantity_def)
qed

end
