(* ===== verification/Cluster.thy ===== *)
theory Cluster
  imports Ledger
begin

section \<open>The ResourceQuotas of the cluster behind the webhooks\<close>

text \<open>
  The operator in its surroundings: the ResourceQuotas the API server stores, the cache of the status
  webhook, and the world the clients of both webhooks see. An operation is a request to the API
  server, a round of \<open>Sync\<close>, or a change of the world. Of the API server this uses what it does with
  a custom resource that has the status subresource: a status write replaces the status and nothing
  else, after the webhook for \<open>resourcequotas/status\<close> has admitted the object it is about to store;
  another update keeps the status, after the remove webhook has admitted it; an object is created without a status; a
  write to an object that does not exist fails. A status write that the webhook has admitted need not be
  stored in the end: it may be a dry run (the webhooks are deployed with \<open>sideEffects: None\<close>, so they are
  called for those too), or fail later, on a conflict or at another webhook. \<open>WriteStatus\<close> says whether the
  server persists the write. Updates and deletions that are admitted and not persisted change only the world, which \<open>ChangeWorld\<close>
  covers. A creation calls none of the two webhooks, which \<open>deploy\<close> registers for \<open>UPDATE\<close> and \<open>DELETE\<close> only;
  all writes are taken to reach them (failure policy \<open>Fail\<close>, no namespace left out). The operations are atomic here: the
  theory \<open>Ledger\<close> is about requests that interleave.
\<close>

record 'w cluster =
  cl_cache :: resource_quota_cache
  cl_world :: 'w
  cl_quotas :: "(string \<times> string, resource_quota) gomap"

datatype 'w cluster_op =
  WriteStatus bool user_info resource_quota
| CreateQuota resource_quota
| UpdateQuota user_info resource_quota
| DeleteQuota user_info "string \<times> string"
| SyncCache "resource_quota list"
| ChangeWorld 'w

definition status_write :: "(resource_quota \<Rightarrow> 'raw) \<Rightarrow> user_info \<Rightarrow> resource_quota \<Rightarrow> resource_quota \<Rightarrow>
    'raw adm_request" where
  "status_write enc u old new = (update_request enc u old new)\<lparr>ar_SubResource := ''status''\<rparr>"

fun cluster_do :: "('raw, 'w, 'e) status_admission \<Rightarrow> ('raw, 'w, 'e) remove_admission \<Rightarrow>
    (resource_quota \<Rightarrow> 'raw) \<Rightarrow> 'w cluster_op \<Rightarrow> 'w cluster \<Rightarrow> 'w cluster" where
  "cluster_do A R enc (WriteStatus persists u q) s =
    (case map_of (cl_quotas s) (quota_key q) of
      None \<Rightarrow> s
    | Some old \<Rightarrow>
        let new = old\<lparr>rq_Status := rq_Status q\<rparr> in
        (case Status_Handle A (status_write enc u old new) (cl_cache s, cl_world s) of
          (resp, c, w) \<Rightarrow> s\<lparr>cl_cache := c, cl_world := w,
            cl_quotas := if is_allowed resp \<and> persists then mput (quota_key q) new (cl_quotas s) else cl_quotas s\<rparr>))"
| "cluster_do A R enc (CreateQuota q) s =
    (case map_of (cl_quotas s) (quota_key q) of
      None \<Rightarrow> s\<lparr>cl_quotas := mput (quota_key q) (q\<lparr>rq_Status := empty_rq_status\<rparr>) (cl_quotas s)\<rparr>
    | Some old \<Rightarrow> s)"
| "cluster_do A R enc (UpdateQuota u q) s =
    (case map_of (cl_quotas s) (quota_key q) of
      None \<Rightarrow> s
    | Some old \<Rightarrow>
        let new = q\<lparr>rq_Status := rq_Status old\<rparr> in
        (case Remove_Handle R (update_request enc u old new) (cl_world s) of
          (resp, w) \<Rightarrow> s\<lparr>cl_world := w,
            cl_quotas := if is_allowed resp then mput (quota_key q) new (cl_quotas s) else cl_quotas s\<rparr>))"
| "cluster_do A R enc (DeleteQuota u key) s =
    (case map_of (cl_quotas s) key of
      None \<Rightarrow> s
    | Some old \<Rightarrow>
        (case Remove_Handle R (delete_request enc u old) (cl_world s) of
          (resp, w) \<Rightarrow> s\<lparr>cl_world := w,
            cl_quotas := if is_allowed resp then mdel key (cl_quotas s) else cl_quotas s\<rparr>))"
| "cluster_do A R enc (SyncCache qs) s =
    (case Sync (time_Now (sa_Client A)) qs (cl_cache s) (cl_world s) of
      (c, w) \<Rightarrow> s\<lparr>cl_cache := c, cl_world := w\<rparr>)"
| "cluster_do A R enc (ChangeWorld w) s = s\<lparr>cl_world := w\<rparr>"

subsection \<open>What is recorded\<close>

text \<open>
  The sum of the usages in the statuses of all stored ResourceQuotas of one ClusterResourceQuota:
  what \<open>Reconcile\<close> adds up, and what the limit is meant to bound.
\<close>

definition quotas_of :: "string \<Rightarrow> (string \<times> string, resource_quota) gomap \<Rightarrow> resource_quota list" where
  "quotas_of n m = filter (\<lambda>q. managed_by (rq_Labels q) = n) (map snd m)"

definition recorded_total :: "(string \<times> string, resource_quota) gomap \<Rightarrow> string \<Rightarrow> string \<Rightarrow> quantity" where
  "recorded_total m n k = sum_list (map (\<lambda>q. rval (rq_Status_Used q) k) (quotas_of n m))"

definition recorded_within :: "resource_list \<Rightarrow> string \<Rightarrow> 'w cluster \<Rightarrow> bool" where
  "recorded_within H n s \<longleftrightarrow>
     (\<forall>k h. map_of H k = Some h \<longrightarrow> recorded_total (cl_quotas s) n k \<le> h)"

text \<open>
  The conditions on an operation: usages are not negative, the user of a status write is not exempt, a status write that is not
  persisted is not below what is recorded, a ResourceQuota that is attached to the ClusterResourceQuota by an update has no usage yet, a listing is up to date,
  and afterwards no namespace has two ResourceQuotas of the ClusterResourceQuota.
\<close>

definition not_negative :: "resource_list \<Rightarrow> bool" where
  "not_negative rl \<longleftrightarrow> list_all (\<lambda>e. 0 \<le> snd e) rl"

definition not_below :: "resource_list \<Rightarrow> resource_list \<Rightarrow> bool" where
  "not_below rl rl' \<longleftrightarrow> list_all (\<lambda>k. rval rl k \<le> rval rl' k) (map fst rl @ map fst rl')"

definition one_per_namespace :: "string \<Rightarrow> (string \<times> string, resource_quota) gomap \<Rightarrow> bool" where
  "one_per_namespace n m \<longleftrightarrow> distinct (map om_Namespace (map rq_ObjectMeta (quotas_of n m)))"

fun orderly_op :: "string \<Rightarrow> 'w cluster_op \<Rightarrow> 'w cluster \<Rightarrow> bool" where
  "orderly_op n (WriteStatus persists u q) s \<longleftrightarrow>
     not_negative (rq_Status_Used q) \<and> \<not> isResourceQuotaAdmissionControllerServiceAccount (Some u) \<and>
     (persists \<or>
       (case map_of (cl_quotas s) (quota_key q) of
         None \<Rightarrow> True
       | Some old \<Rightarrow> not_below (rq_Status_Used old) (rq_Status_Used q)))"
| "orderly_op n (CreateQuota q) s \<longleftrightarrow> True"
| "orderly_op n (UpdateQuota u q) s \<longleftrightarrow>
     (case map_of (cl_quotas s) (quota_key q) of
       None \<Rightarrow> True
     | Some old \<Rightarrow> managed_by (rq_Labels q) = n \<longrightarrow> managed_by (rq_Labels old) = n \<or> rq_Status_Used old = [])"
| "orderly_op n (DeleteQuota u key) s \<longleftrightarrow> True"
| "orderly_op n (SyncCache qs) s \<longleftrightarrow> mset qs = mset (map snd (cl_quotas s))"
| "orderly_op n (ChangeWorld w) s \<longleftrightarrow> True"

inductive orderly_step :: "('raw, 'w, 'e) status_admission \<Rightarrow> ('raw, 'w, 'e) remove_admission \<Rightarrow>
    (resource_quota \<Rightarrow> 'raw) \<Rightarrow> string \<Rightarrow> 'w cluster \<Rightarrow> 'w cluster \<Rightarrow> bool" for A R enc n where
  orderly: "orderly_op n op s \<Longrightarrow> one_per_namespace n (cl_quotas (cluster_do A R enc op s)) \<Longrightarrow>
    orderly_step A R enc n s (cluster_do A R enc op s)"

text \<open>
  The invariant. The cached total is within the limits, and the cached share of a namespace is at least
  what is recorded there: it can be more after a ResourceQuota is deleted, until the next \<open>Sync\<close>.
\<close>

definition covered :: "string \<Rightarrow> 'w cluster \<Rightarrow> bool" where
  "covered n s \<longleftrightarrow> (\<forall>q \<in> set (quotas_of n (cl_quotas s)). \<forall>k.
     rval (rq_Status_Used q) k \<le> share (contents (view (cl_cache s) n)) (rq_Namespace q) k)"

definition stored_ok :: "(string \<times> string, resource_quota) gomap \<Rightarrow> bool" where
  "stored_ok m \<longleftrightarrow> mwf m \<and> (\<forall>e \<in> set m. fst e = quota_key (snd e) \<and> not_negative (rq_Status_Used (snd e)))"

definition cluster_inv :: "resource_list \<Rightarrow> string \<Rightarrow> 'w cluster \<Rightarrow> bool" where
  "cluster_inv H n s \<longleftrightarrow> total_within H n (cl_cache s) \<and>
     (\<forall>ns k. 0 \<le> share (contents (view (cl_cache s) n)) ns k) \<and>
     stored_ok (cl_quotas s) \<and> one_per_namespace n (cl_quotas s) \<and> covered n s"

lemma cluster_invD:
  assumes "cluster_inv H n s"
  shows "total_within H n (cl_cache s)" and "0 \<le> share (contents (view (cl_cache s) n)) ns k"
    and "stored_ok (cl_quotas s)" and "one_per_namespace n (cl_quotas s)" and "covered n s"
    and "cache_ok (cl_cache s)"
  using assms by (simp_all add: cluster_inv_def total_within_def)

lemma not_negative_rval: "not_negative rl \<Longrightarrow> 0 \<le> rval rl k"
  by (induction rl) (auto simp: not_negative_def rval_def)

lemma not_below_rval: "not_below rl rl' \<Longrightarrow> rval rl k \<le> rval rl' k"
proof (cases "k \<in> fst ` set rl \<union> fst ` set rl'")
  case False
  then show ?thesis
    using map_of_eq_None_iff [of rl k] map_of_eq_None_iff [of rl' k] by (simp add: rval_def)
qed (auto simp: not_below_def list_all_iff)

subsection \<open>The stored objects\<close>

lemma quotas_of_iff:
  "stored_ok m \<Longrightarrow> q \<in> set (quotas_of n m) \<longleftrightarrow> managed_by (rq_Labels q) = n \<and> map_of m (quota_key q) = Some q"
proof -
  assume ok: "stored_ok m"
  have "q \<in> snd ` set m \<longleftrightarrow> (quota_key q, q) \<in> set m"
    using ok by (force simp: stored_ok_def)
  then show ?thesis
    using ok by (auto simp: quotas_of_def stored_ok_def mwf_get_iff)
qed

lemma stored_ok_get:
  assumes "stored_ok m" and "map_of m key = Some q"
  shows "quota_key q = key" and "not_negative (rq_Status_Used q)"
  using assms map_of_SomeD [OF assms(2)] by (auto simp: stored_ok_def)

lemma stored_ok_put:
  assumes "stored_ok m" and "quota_key q = key" and "not_negative (rq_Status_Used q)"
  shows "stored_ok (mput key q m)"
  using assms set_mput [of key q m] by (auto simp: stored_ok_def gm_wf)

lemma stored_ok_del: "stored_ok m \<Longrightarrow> stored_ok (mdel key m)"
  by (auto simp: stored_ok_def gm_wf set_mdel)

lemma one_per_namespaceD:
  assumes "one_per_namespace n m" and "q \<in> set (quotas_of n m)" and "q' \<in> set (quotas_of n m)"
    and "rq_Namespace q = rq_Namespace q'"
  shows "q = q'"
  using assms by (auto simp: one_per_namespace_def distinct_map comp_def dest: inj_onD)

lemma quotas_total_share:
  assumes "mwf qs" and "finite N" and "dom (map_of qs) \<subseteq> N"
  shows "quotas_total qs k = (\<Sum>ns \<in> N. share qs ns k)"
proof -
  have "(\<Sum>ns \<in> N. share qs ns k) = (\<Sum>ns \<in> dom (map_of qs). share qs ns k)"
    using assms(2,3) by (intro sum.mono_neutral_right) (auto simp: share_def split: option.split)
  then show ?thesis
    using assms(1) by (simp add: quotas_total_dom)
qed

text \<open>With one ResourceQuota per namespace the recorded total is a sum over the namespaces.\<close>

lemma recorded_total_sum:
  assumes "one_per_namespace n m" and "\<And>q. q \<in> set (quotas_of n m) \<Longrightarrow> f (rq_Namespace q) = rval (rq_Status_Used q) k"
  shows "recorded_total m n k = sum f (rq_Namespace ` set (quotas_of n m))"
proof -
  have "distinct (quotas_of n m)" and inj: "inj_on rq_Namespace (set (quotas_of n m))"
    using assms(1) by (auto simp: one_per_namespace_def distinct_map comp_def intro: comp_inj_on)
  then have "recorded_total m n k = (\<Sum>q \<in> set (quotas_of n m). rval (rq_Status_Used q) k)"
    by (simp add: recorded_total_def sum_list_distinct_conv_sum_set)
  also have "\<dots> = (\<Sum>q \<in> set (quotas_of n m). f (rq_Namespace q))"
    using assms(2) by (intro sum.cong) simp_all
  also have "\<dots> = sum f (rq_Namespace ` set (quotas_of n m))"
    using inj by (simp add: sum.reindex)
  finally show ?thesis .
qed

text \<open>The invariant bounds what is recorded.\<close>

lemma recorded_le_cached:
  assumes "cluster_inv H n s"
  shows "recorded_total (cl_quotas s) n k \<le> quotas_total (contents (view (cl_cache s) n)) k"
proof -
  let ?qs = "contents (view (cl_cache s) n)" and ?Q = "quotas_of n (cl_quotas s)"
  define used where "used ns = (case find (\<lambda>q. rq_Namespace q = ns) ?Q of
    None \<Rightarrow> 0 | Some q \<Rightarrow> rval (rq_Status_Used q) k)" for ns
  have used: "used (rq_Namespace q) = rval (rq_Status_Used q) k" if "q \<in> set ?Q" for q
  proof -
    obtain q' where "find (\<lambda>p. rq_Namespace p = rq_Namespace q) ?Q = Some q'"
      using \<open>q \<in> set ?Q\<close> by (cases "find (\<lambda>p. rq_Namespace p = rq_Namespace q) ?Q") (auto simp: find_None_iff)
    moreover from this have "q' \<in> set ?Q" and "rq_Namespace q' = rq_Namespace q"
      by (auto simp: find_Some_iff)
    then have "q' = q"
      using one_per_namespaceD cluster_invD(4) [OF assms] that by blast
    ultimately show ?thesis
      by (simp add: used_def)
  qed
  let ?N = "rq_Namespace ` set ?Q" and ?D = "dom (map_of ?qs)"
  have "recorded_total (cl_quotas s) n k = sum used ?N"
    using recorded_total_sum [OF cluster_invD(4) [OF assms], of used] used by simp
  also have "\<dots> \<le> (\<Sum>ns \<in> ?N. share ?qs ns k)"
    using cluster_invD(5) [OF assms] used by (intro sum_mono) (auto simp: covered_def)
  also have "\<dots> \<le> (\<Sum>ns \<in> ?N \<union> ?D. share ?qs ns k)"
    using cluster_invD(2) [OF assms] by (intro sum_mono2) (auto simp: finite_dom_map_of)
  also have "\<dots> = quotas_total ?qs k"
    using cache.contents_wf [OF cluster_invD(6) [OF assms]]
    by (intro quotas_total_share [symmetric]) (auto simp: finite_dom_map_of)
  finally show ?thesis .
qed

lemma cluster_inv_recorded: "cluster_inv H n s \<Longrightarrow> recorded_within H n s"
  using recorded_le_cached cluster_invD(1) unfolding recorded_within_def total_within_def
  by (meson order_trans)

subsection \<open>What one status write does to the cache\<close>

text \<open>
  Whatever happens on the way - conflicts, retries, a refusal, an error of the server - only the entry
  of the ClusterResourceQuota of the object changes, and only if the last run of the check accepts.
\<close>

definition not_limited :: "('raw, 'w, 'e) status_admission \<Rightarrow> string \<Rightarrow> bool" where
  "not_limited A n \<longleftrightarrow> n = [] \<or>
     (\<exists>w err. fst (Get_crq (sa_Client A) n w) = Inl err \<and> IsNotFound (sa_Errors A) err)"

definition charged_to :: "('raw, 'w, 'e) status_admission \<Rightarrow> bool \<Rightarrow> resource_quota \<Rightarrow> quotas \<Rightarrow> quotas \<Rightarrow> bool" where
  "charged_to A skip q qs qs' \<longleftrightarrow> (\<exists>w crq t.
     fst (Get_crq (sa_Client A) (managed_by (rq_Labels q)) w) = Inr crq \<and>
     (skip \<or> within qs q (crq_Status_Hard crq)) \<and> qs' = mput (rq_Namespace q) (recorded q t) qs)"

definition write_outcome :: "('raw, 'w, 'e) status_admission \<Rightarrow> bool \<Rightarrow> resource_quota \<Rightarrow> bool \<Rightarrow>
    resource_quota_cache \<Rightarrow> resource_quota_cache \<Rightarrow> bool" where
  "write_outcome A skip q admitted c c' \<longleftrightarrow>
    (let n = managed_by (rq_Labels q); qs = contents (view c n); qs' = contents (view c' n) in
     cache_ok c' \<and> (\<forall>p. p \<noteq> n \<longrightarrow> contents (view c' p) = contents (view c p)) \<and>
     (qs' = qs \<and> (admitted \<longrightarrow> not_limited A n) \<or> admitted \<and> charged_to A skip q qs qs'))"

definition same_usage :: "resource_quota_cache \<Rightarrow> resource_quota_cache \<Rightarrow> bool" where
  "same_usage c d \<longleftrightarrow> cache_ok d \<and> (\<forall>p. contents (view d p) = contents (view c p))"

lemma validate_failed:
  assumes "same_usage c d" and "validate A q n skip (d, w) = (Some e, d', w')"
  shows "same_usage c d'"
proof -
  have "cache_ok d"
    using assms(1) by (simp add: same_usage_def)
  then obtain qs' where "validate_locked A q n skip (contents (view d n)) w = (Some e, qs', w')"
    and "view d' = (view d)(n \<mapsto> qs')" and "cache_ok d'"
    using validate_eq [OF _ assms(2)] by metis
  then show ?thesis
    using assms(1) validate_locked_error by (fastforce simp: same_usage_def)
qed

context status_env
begin

lemma validate_outcome:
  assumes "same_usage c d" and "validate A q (managed_by (rq_Labels q)) skip (d, w) = (r, d', w')"
  shows "write_outcome A skip q (r = None) c d'"
proof (cases r)
  case (Some e)
  then show ?thesis
    using validate_failed [OF assms(1) assms(2) [unfolded Some]]
    by (simp add: write_outcome_def same_usage_def Let_def)
next
  case None
  let ?n = "managed_by (rq_Labels q)"
  have ok: "cache_ok d" and same: "contents (view d p) = contents (view c p)" for p
    using assms(1) by (simp_all add: same_usage_def)
  obtain qs' where body: "validate_locked A q ?n skip (contents (view c ?n)) w = (None, qs', w')"
    and view: "view d' = (view d)(?n \<mapsto> qs')" and ok': "cache_ok d'"
    using validate_eq [OF ok assms(2)] None same by metis
  have "qs' = contents (view c ?n) \<and> not_limited A ?n \<or> charged_to A skip q (contents (view c ?n)) qs'"
    using body
  proof (cases rule: locked_ok)
    case (missing err)
    then show ?thesis
      by (auto simp: not_limited_def intro!: exI [of _ w])
  next
    case (found crq w1 t)
    then show ?thesis
      unfolding charged_to_def by (intro disjI2 exI [of _ w] exI [of _ crq] exI [of _ t]) simp
  qed
  then show ?thesis
    using None view ok' same by (auto simp: write_outcome_def Let_def)
qed

lemma Handle_outcome:
  assumes "cache_ok c" and "Status_Handle A req (c, w) = (resp, c', w')" and "sa_Decode A req = Inr q"
  shows "write_outcome A (exempt req) q (is_allowed resp) c c'"
proof (cases "managed_by (rq_Labels q) = []")
  case True
  then show ?thesis
    using assms by (auto simp: Status_Handle_eq write_outcome_def not_limited_def)
next
  case False
  let ?fn = "validate A q (managed_by (rq_Labels q)) (exempt req)"
  have "\<exists>s0. same_usage c (fst s0) \<and> sa_RetryOnConflict A status_backoff ?fn (c, w) = ?fn s0"
  proof (rule last_run [OF backoff_steps, where I = "\<lambda>s. same_usage c (fst s)"])
    show "same_usage c (fst (c, w))"
      using assms(1) by (simp add: same_usage_def)
    show "same_usage c (fst (d', v''))" if "same_usage c (fst (d, v))" "?fn (d, v) = (Some e, d', v')" for d v e d' v' v''
      using validate_failed that by fastforce
  qed
  then obtain d v where d: "same_usage c d" and run: "sa_RetryOnConflict A status_backoff ?fn (c, w) = ?fn (d, v)"
    by auto
  obtain r d' v' where fn: "?fn (d, v) = (r, d', v')"
    by (metis prod_cases3)
  have "c' = d'" and "is_allowed resp \<longleftrightarrow> r = None"
    using assms(2,3) False run fn by (auto simp: Status_Handle_eq split: option.splits)
  then show ?thesis
    using validate_outcome [OF d fn] by simp
qed

end

subsection \<open>The operations keep the invariant\<close>

lemma share_mput: "share (mput ns u qs) m k = (if m = ns then rval (rui_Used u) k else share qs m k)"
  by (simp add: share_def gomap_simps)

lemma quotas_of_put:
  assumes "stored_ok (mput (quota_key q) q m)" and "stored_ok m" and "p \<in> set (quotas_of n (mput (quota_key q) q m))"
  shows "p = q \<or> p \<in> set (quotas_of n m) \<and> quota_key p \<noteq> quota_key q"
proof (cases "quota_key p = quota_key q")
  case True
  then show ?thesis
    using assms(3) unfolding quotas_of_iff [OF assms(1)] gm_lookup by simp
next
  case False
  then show ?thesis
    using assms(3) unfolding quotas_of_iff [OF assms(1)] quotas_of_iff [OF assms(2)] gm_lookup by simp
qed

lemma quotas_of_put_self:
  assumes "stored_ok (mput (quota_key q) q m)" and "managed_by (rq_Labels q) = n"
  shows "q \<in> set (quotas_of n (mput (quota_key q) q m))"
  using assms(2) unfolding quotas_of_iff [OF assms(1)] gm_lookup by simp

text \<open>A change of one stored object that does not raise what is recorded for it.\<close>

lemma cluster_inv_put:
  assumes "cluster_inv H n s" and "not_negative (rq_Status_Used q)"
    and "one_per_namespace n (mput (quota_key q) q (cl_quotas s))"
    and "\<And>k. managed_by (rq_Labels q) = n \<Longrightarrow>
      rval (rq_Status_Used q) k \<le> share (contents (view (cl_cache s) n)) (rq_Namespace q) k"
  shows "cluster_inv H n (s\<lparr>cl_world := w, cl_quotas := mput (quota_key q) q (cl_quotas s)\<rparr>)"
proof -
  note inv = cluster_invD [OF assms(1)]
  have stored: "stored_ok (mput (quota_key q) q (cl_quotas s))"
    using stored_ok_put [OF inv(3) refl assms(2)] .
  have "rval (rq_Status_Used p) k \<le> share (contents (view (cl_cache s) n)) (rq_Namespace p) k"
    if "p \<in> set (quotas_of n (mput (quota_key q) q (cl_quotas s)))" for p k
    using quotas_of_put [OF stored inv(3) that] that assms(4) inv(5) unfolding quotas_of_iff [OF stored]
    by (auto simp: covered_def)
  then show ?thesis
    using inv(1,2) stored assms(3) by (simp add: cluster_inv_def covered_def)
qed

lemma cluster_inv_world: "cluster_inv H n (s\<lparr>cl_world := w\<rparr>) = cluster_inv H n s"
  by (simp add: cluster_inv_def covered_def)

lemma create_keeps:
  assumes "cluster_inv H n s" and "one_per_namespace n (cl_quotas (cluster_do A R enc (CreateQuota q) s))"
  shows "cluster_inv H n (cluster_do A R enc (CreateQuota q) s)"
proof (cases "map_of (cl_quotas s) (quota_key q)")
  case None
  let ?q = "q\<lparr>rq_Status := empty_rq_status\<rparr>"
  have "cluster_inv H n (s\<lparr>cl_world := cl_world s, cl_quotas := mput (quota_key ?q) ?q (cl_quotas s)\<rparr>)"
    using assms None cluster_invD(2) [OF assms(1)]
    by (intro cluster_inv_put) (simp_all add: not_negative_def empty_rq_status_def)
  then show ?thesis
    using None by simp
qed (use assms in simp)

lemma update_keeps:
  assumes "cluster_inv H n s" and "orderly_op n (UpdateQuota u q) s"
    and "one_per_namespace n (cl_quotas (cluster_do A R enc (UpdateQuota u q) s))"
  shows "cluster_inv H n (cluster_do A R enc (UpdateQuota u q) s)"
proof (cases "map_of (cl_quotas s) (quota_key q)")
  case (Some old)
  note inv = cluster_invD [OF assms(1)]
  let ?q = "q\<lparr>rq_Status := rq_Status old\<rparr>"
  obtain resp w where run: "Remove_Handle R (update_request enc u old ?q) (cl_world s) = (resp, w)"
    by fastforce
  show ?thesis
  proof (cases "is_allowed resp")
    case True
    have old: "old \<in> set (quotas_of n (cl_quotas s))" if "managed_by (rq_Labels old) = n"
      using that Some stored_ok_get(1) [OF inv(3) Some] by (simp add: quotas_of_iff [OF inv(3)])
    have ns: "rq_Namespace q = rq_Namespace old"
      using stored_ok_get(1) [OF inv(3) Some] by (simp add: quota_key_def)
    have "cluster_inv H n (s\<lparr>cl_world := w, cl_quotas := mput (quota_key ?q) ?q (cl_quotas s)\<rparr>)"
    proof (intro cluster_inv_put [OF assms(1)])
      show "not_negative (rq_Status_Used ?q)"
        using stored_ok_get(2) [OF inv(3) Some] by simp
      show "one_per_namespace n (mput (quota_key ?q) ?q (cl_quotas s))"
        using assms(3) Some run True by simp
      show "rval (rq_Status_Used ?q) k \<le> share (contents (view (cl_cache s) n)) (rq_Namespace ?q) k"
        if "managed_by (rq_Labels ?q) = n" for k
        using assms(2) that Some old inv(2,5) by (auto simp: ns covered_def)
    qed
    then show ?thesis
      using Some run True by simp
  next
    case False
    then show ?thesis
      using assms(1) Some run by (simp add: cluster_inv_world)
  qed
qed (use assms in simp)

lemma delete_keeps:
  assumes "cluster_inv H n s" and "one_per_namespace n (cl_quotas (cluster_do A R enc (DeleteQuota u key) s))"
  shows "cluster_inv H n (cluster_do A R enc (DeleteQuota u key) s)"
proof (cases "map_of (cl_quotas s) key")
  case (Some old)
  note inv = cluster_invD [OF assms(1)]
  obtain resp w where run: "Remove_Handle R (delete_request enc u old) (cl_world s) = (resp, w)"
    by fastforce
  have "set (quotas_of n (mdel key (cl_quotas s))) \<subseteq> set (quotas_of n (cl_quotas s))"
    by (auto simp: quotas_of_def set_mdel)
  then show ?thesis
    using assms Some run inv stored_ok_del [OF inv(3)]
    by (auto simp: cluster_inv_def covered_def)
qed (use assms in simp)

text \<open>What \<open>Sync\<close> leaves of a namespace: the usage of the last listed ResourceQuota there.\<close>

lemma Sync_lookup:
  assumes "cache_ok c" and "Sync now qs c w = (c', w')" and "n \<noteq> []"
  shows "map_of (contents (view c' n)) ns = map_option (usage_info (fst (now w)))
    (find (\<lambda>q. managed_by (rq_Labels q) = n \<and> rq_Namespace q = ns) (rev qs))"
proof -
  have "usage c' n = listed (fst (now w)) qs n"
    using Sync_effect(2) [OF assms(1,2)] by simp
  then show ?thesis
    using assms(3) by (cases "view c' n") (auto simp: usage_def listed_def find_None_iff split: if_splits)
qed

lemma quotas_of_listing:
  "mset qs = mset (map snd m) \<Longrightarrow> q \<in> set (quotas_of n m) \<longleftrightarrow> q \<in> set qs \<and> managed_by (rq_Labels q) = n"
  using mset_eq_setD [of qs "map snd m"] by (auto simp: quotas_of_def)

text \<open>
  After \<open>Sync\<close> with the stored objects, in any order: with one ResourceQuota per namespace the cached share is what it
  records, and the cached total is the recorded one.
\<close>

lemma Sync_share:
  assumes "cache_ok c" and "Sync now qs c w = (c', w')" and "n \<noteq> []" and "mset qs = mset (map snd m)"
    and "one_per_namespace n m"
  shows "q \<in> set (quotas_of n m) \<Longrightarrow> share (contents (view c' n)) (rq_Namespace q) k = rval (rq_Status_Used q) k"
    and "ns \<notin> rq_Namespace ` set (quotas_of n m) \<Longrightarrow> map_of (contents (view c' n)) ns = None"
proof -
  let ?P = "\<lambda>ns q. managed_by (rq_Labels q) = n \<and> rq_Namespace q = ns"
  note mem = quotas_of_listing [OF assms(4)] and look = Sync_lookup [OF assms(1-3)]
  show "share (contents (view c' n)) (rq_Namespace q) k = rval (rq_Status_Used q) k" if q: "q \<in> set (quotas_of n m)"
  proof -
    obtain p where p: "find (?P (rq_Namespace q)) (rev qs) = Some p"
      using q by (cases "find (?P (rq_Namespace q)) (rev qs)") (auto simp: mem find_None_iff)
    then have "p \<in> set (quotas_of n m)" and "rq_Namespace p = rq_Namespace q"
      using nth_mem [of _ "rev qs"] by (auto simp: mem find_Some_iff)
    then have "p = q"
      using one_per_namespaceD [OF assms(5)] q by blast
    with p show ?thesis
      by (simp add: share_def look usage_info_def)
  qed
  show "map_of (contents (view c' n)) ns = None" if "ns \<notin> rq_Namespace ` set (quotas_of n m)"
    using that mem by (simp add: look find_None_iff) blast
qed

lemma Sync_total:
  assumes "cache_ok c" and "Sync now qs c w = (c', w')" and "n \<noteq> []" and "mset qs = mset (map snd m)"
    and "one_per_namespace n m"
  shows "quotas_total (contents (view c' n)) k = recorded_total m n k"
proof -
  let ?N = "rq_Namespace ` set (quotas_of n m)" and ?qs = "contents (view c' n)"
  note shares = Sync_share [OF assms]
  have "dom (map_of ?qs) \<subseteq> ?N"
    by (intro subsetI) (metis shares(2) domIff)
  then show ?thesis
    using quotas_total_share [OF cache.contents_wf [OF Sync_effect(1) [OF assms(1,2)]], of ?N]
      recorded_total_sum [OF assms(5), of "\<lambda>ns. share ?qs ns k"] shares(1) by simp
qed

text \<open>
  The ResourceQuotas of a listing, one per namespace, are those a status lists and the rest.
\<close>

lemma usage_sum_names:
  assumes "distinct (map nrq_Name us)" and "\<And>u. u \<in> set us \<Longrightarrow> f (nrq_Name u) = rval (nrq_Used u) k"
  shows "usage_sum us k = sum f (nrq_Name ` set us)"
  using assms
proof (induction us)
  case (Cons u us)
  have "usage_sum (u # us) k = rval (nrq_Used u) k + usage_sum us k"
    by (simp add: usage_sum_def)
  also have "\<dots> = f (nrq_Name u) + sum f (nrq_Name ` set us)"
    using Cons by simp
  also have "\<dots> = sum f (nrq_Name ` set (u # us))"
    using Cons.prems(1) by simp
  finally show ?case .
qed (simp add: usage_sum_def)

lemma split_listing:
  assumes "distinct (map rq_Namespace Q)" and "distinct (map nrq_Name us)"
    and "\<And>u. u \<in> set us \<Longrightarrow> \<exists>q \<in> set Q. rq_Namespace q = nrq_Name u \<and> rq_Status_Used q = nrq_Used u"
  shows "(\<Sum>q \<leftarrow> Q. rval (rq_Status_Used q) k) =
    usage_sum us k + (\<Sum>q \<leftarrow> filter (\<lambda>q. rq_Namespace q \<notin> nrq_Name ` set us) Q. rval (rq_Status_Used q) k)"
proof -
  let ?N = "nrq_Name ` set us" and ?used = "\<lambda>q. rval (rq_Status_Used q) k"
  define f where "f ns = ?used (the (find (\<lambda>q. rq_Namespace q = ns) Q))" for ns
  have f: "f (rq_Namespace q) = ?used q" if q: "q \<in> set Q" for q
  proof -
    obtain p where p: "find (\<lambda>p. rq_Namespace p = rq_Namespace q) Q = Some p"
      using q by (cases "find (\<lambda>p. rq_Namespace p = rq_Namespace q) Q") (auto simp: find_None_iff)
    then have "p \<in> set Q" and "rq_Namespace p = rq_Namespace q"
      by (auto simp: find_Some_iff)
    then have "p = q"
      using assms(1) q by (auto simp: distinct_map dest: inj_onD)
    with p show ?thesis
      by (simp add: f_def)
  qed
  have names: "?N \<subseteq> rq_Namespace ` set Q"
  proof
    fix ns assume "ns \<in> ?N"
    then obtain u where "u \<in> set us" and "ns = nrq_Name u"
      by blast
    then show "ns \<in> rq_Namespace ` set Q"
      using assms(3) [of u] by (metis image_eqI)
  qed
  have "f (nrq_Name u) = rval (nrq_Used u) k" if "u \<in> set us" for u
    using assms(3) [OF that] f by metis
  then have "usage_sum us k = sum f ?N"
    by (rule usage_sum_names [OF assms(2)])
  also have "?N = rq_Namespace ` set (filter (\<lambda>q. rq_Namespace q \<in> ?N) Q)"
    using names by (rule image_filtered)
  also have "sum f \<dots> = (\<Sum>q \<leftarrow> filter (\<lambda>q. rq_Namespace q \<in> ?N) Q. ?used q)"
  proof -
    let ?F = "filter (\<lambda>q. rq_Namespace q \<in> ?N) Q"
    have "distinct ?F" and inj: "inj_on rq_Namespace (set ?F)"
      using assms(1) by (auto simp: distinct_map intro: inj_on_subset)
    then show ?thesis
      using f by (simp add: sum.reindex sum_list_distinct_conv_sum_set)
  qed
  finally show ?thesis
    using sum_list_split [of ?used Q "\<lambda>q. rq_Namespace q \<in> ?N"] by simp
qed


locale limited_cluster = status_env A stored
  for A :: "('raw, 'w, 'e) status_admission" and stored :: "'w \<Rightarrow> string \<Rightarrow> cluster_resource_quota option" +
  fixes enc :: "resource_quota \<Rightarrow> 'raw" and n :: string and H :: resource_list
  assumes decode_enc: "ar_Object req = Some (enc q) \<Longrightarrow> sa_Decode A req = Inr q"
    and exists: "\<not> not_limited A n"
    and hard: "fst (Get_crq (sa_Client A) n w) = Inr crq \<Longrightarrow> crq_Status_Hard crq = H"
    and limits_pos: "map_of H k = Some h \<Longrightarrow> 0 \<le> h"
begin

lemma n_nonempty: "n \<noteq> []"
  using exists by (auto simp: not_limited_def)

text \<open>An accepted charge: the cached total fits, and the share of the namespace is the usage.\<close>

lemma charged_total:
  assumes "charged_to A False q qs qs'" and "managed_by (rq_Labels q) = n" and "mwf qs" and "map_of H k = Some h"
  shows "quotas_total qs' k \<le> h"
proof -
  obtain crq t w where "fst (Get_crq (sa_Client A) n w) = Inr crq" and "within qs q (crq_Status_Hard crq)"
    and "qs' = mput (rq_Namespace q) (recorded q t) qs"
    using assms(1,2) by (auto simp: charged_to_def)
  then have "within qs q H" and "quotas_total qs' k = total_after qs q k"
    using hard assms(3) by (auto simp: total_after_mput recorded_def)
  then show ?thesis
    using assms(4) limits_pos unnamed_total [of qs q k] unfolding within_def by metis
qed

lemma charged_share:
  assumes "charged_to A skip q qs qs'"
  shows "share qs' ns k = (if ns = rq_Namespace q then rval (rq_Status_Used q) k else share qs ns k)"
  using assms by (auto simp: charged_to_def share_mput recorded_def)

lemma write_keeps:
  assumes "cluster_inv H n s" and "orderly_op n (WriteStatus persists u q) s"
    and "one_per_namespace n (cl_quotas (cluster_do A R enc (WriteStatus persists u q) s))"
  shows "cluster_inv H n (cluster_do A R enc (WriteStatus persists u q) s)"
proof (cases "map_of (cl_quotas s) (quota_key q)")
  case None
  then show ?thesis
    using assms(1) by simp
next
  case (Some old)
  define new where "new = old\<lparr>rq_Status := rq_Status q\<rparr>"
  note inv = cluster_invD [OF assms(1)]
  let ?req = "status_write enc u old new" and ?qs = "contents (view (cl_cache s) n)"
  obtain resp c w where run: "Status_Handle A ?req (cl_cache s, cl_world s) = (resp, c, w)"
    by (metis prod_cases3)
  define m where "m = (if is_allowed resp \<and> persists then mput (quota_key new) new (cl_quotas s) else cl_quotas s)"
  have old_key: "quota_key old = quota_key q"
    using stored_ok_get(1) [OF inv(3) Some] .
  have after: "cluster_do A R enc (WriteStatus persists u q) s = s\<lparr>cl_cache := c, cl_world := w, cl_quotas := m\<rparr>"
    using Some run by (simp add: new_def m_def old_key)
  have one: "one_per_namespace n m"
    using assms(3) unfolding after by simp
  have "sa_Decode A ?req = Inr new" and "exempt ?req = False"
    using assms(2) by (simp_all add: decode_enc status_write_def update_request_def)
  then have out: "write_outcome A False new (is_allowed resp) (cl_cache s) c"
    using Handle_outcome [OF inv(6) run] by simp
  have pos: "not_negative (rq_Status_Used new)"
    using assms(2) by (simp add: new_def)
  have stored': "stored_ok (mput (quota_key new) new (cl_quotas s))"
    using stored_ok_put [OF inv(3) refl pos] .
  then have stored: "stored_ok m"
    using inv(3) by (simp add: m_def)
  have old: "p \<in> set (quotas_of n (cl_quotas s))" if "p \<in> set (quotas_of n m)" "p \<noteq> new \<or> \<not> is_allowed resp \<or> \<not> persists" for p
    using quotas_of_put [OF stored' inv(3)] that by (auto simp: m_def split: if_splits)
  have cov: "rval (rq_Status_Used p) k \<le> share ?qs (rq_Namespace p) k" if "p \<in> set (quotas_of n (cl_quotas s))" for p k
    using inv(5) that by (simp add: covered_def)
  show ?thesis
  proof (cases "managed_by (rq_Labels new) = n \<and> is_allowed resp")
    case True
    then have ch: "charged_to A False new ?qs (contents (view c n))"
      using out exists by (auto simp: write_outcome_def Let_def)
    have "managed_by (rq_Labels old) = n"
      using True by (simp add: new_def)
    then have mem: "(if persists then new else old) \<in> set (quotas_of n m)"
      using True quotas_of_put_self [OF stored'] Some old_key by (simp add: m_def quotas_of_iff [OF inv(3)])
    have here: "rq_Namespace old = rq_Namespace new"
      by (simp add: new_def)
    have low: "rval (rq_Status_Used old) k \<le> rval (rq_Status_Used new) k" if "\<not> persists" for k
      using assms(2) that Some not_below_rval by (simp add: new_def)
    have "rval (rq_Status_Used p) k \<le> share (contents (view c n)) (rq_Namespace p) k"
      if "p \<in> set (quotas_of n m)" for p k
    proof (cases "rq_Namespace p = rq_Namespace new")
      case True
      then have "p = (if persists then new else old)"
        using one_per_namespaceD [OF one that mem] here by simp
      then show ?thesis
        using low True here by (simp add: charged_share [OF ch])
    next
      case False
      then show ?thesis
        using cov [OF old [OF that]] by (auto simp: charged_share [OF ch])
    qed
    moreover have "total_within H n c"
      using out charged_total [OF ch] True cache.contents_wf [OF inv(6)]
      by (auto simp: total_within_def write_outcome_def Let_def)
    ultimately show ?thesis
      unfolding after using inv(2) stored one not_negative_rval [OF pos]
      by (simp add: cluster_inv_def covered_def charged_share [OF ch])
  next
    case False
    then have same: "contents (view c n) = ?qs"
      using out exists by (cases "managed_by (rq_Labels new) = n") (auto simp: write_outcome_def Let_def)
    have ok: "cache_ok c"
      using out by (simp add: write_outcome_def Let_def)
    have "p \<in> set (quotas_of n (cl_quotas s))" if "p \<in> set (quotas_of n m)" for p
      using old [OF that] False that quotas_of_iff [OF stored] by auto
    then show ?thesis
      unfolding after using inv(1,2) cov stored one ok by (simp add: cluster_inv_def covered_def same total_within_def)
  qed
qed

lemma sync_keeps:
  assumes "cluster_inv H n s" and "orderly_op n (SyncCache qs) s"
  shows "cluster_inv H n (cluster_do A R enc (SyncCache qs) s)"
proof -
  note inv = cluster_invD [OF assms(1)]
  obtain c w where sync: "Sync (time_Now (sa_Client A)) qs (cl_cache s) (cl_world s) = (c, w)"
    by fastforce
  have fresh: "mset qs = mset (map snd (cl_quotas s))"
    using assms(2) by simp
  note shares = Sync_share [OF inv(6) sync n_nonempty fresh inv(4)]
  let ?N = "rq_Namespace ` set (quotas_of n (cl_quotas s))" and ?qs = "contents (view c n)"
  have ok: "cache_ok c"
    using Sync_effect(1) [OF inv(6) sync] .
  have "quotas_total ?qs k = recorded_total (cl_quotas s) n k" for k
    using Sync_total [OF inv(6) sync n_nonempty fresh inv(4)] .
  then have "total_within H n c"
    using ok cluster_inv_recorded [OF assms(1)] by (simp add: total_within_def recorded_within_def)
  moreover have "0 \<le> share ?qs ns k" for ns k
  proof (cases "ns \<in> ?N")
    case True
    then obtain q where "q \<in> set (quotas_of n (cl_quotas s))" and "ns = rq_Namespace q"
      by blast
    moreover have "not_negative (rq_Status_Used q)"
      using calculation(1) stored_ok_get(2) [OF inv(3)] quotas_of_iff [OF inv(3)] by blast
    ultimately show ?thesis
      by (simp add: shares(1) not_negative_rval)
  qed (simp add: share_def shares(2))
  ultimately show ?thesis
    using inv(3,4) sync shares(1) by (simp add: cluster_inv_def covered_def)
qed

lemma orderly_step_keeps:
  assumes "orderly_step A R enc n s s'" and "cluster_inv H n s"
  shows "cluster_inv H n s'"
  using assms(1)
proof cases
  case (orderly op)
  show ?thesis
    unfolding orderly(1) using orderly(2,3)
    by (cases op) (use write_keeps create_keeps update_keeps delete_keeps sync_keeps assms(2)
      in \<open>simp_all add: cluster_inv_world del: orderly_op.simps(1,3,5) cluster_do.simps(1-5)\<close>)
qed

lemma orderly_run_keeps: "(orderly_step A R enc n)\<^sup>*\<^sup>* s s' \<Longrightarrow> cluster_inv H n s \<Longrightarrow> cluster_inv H n s'"
  by (induction rule: rtranclp_induct) (blast intro: orderly_step_keeps)+

end

subsection \<open>A cluster in memory, for the witnesses\<close>

text \<open>The ClusterResourceQuotas are always found, with the hard limit 10 for \<open>cpu\<close>.\<close>

definition steady_get :: "string \<Rightarrow> mem_world \<Rightarrow> (ref_error + cluster_resource_quota) \<times> mem_world" where
  "steady_get n w = (Inr (set_crq_Hard [(''cpu'', Quantity 10)]
     (case fst (mem_get n w) of
       Inl err \<Rightarrow> (demo_crq 10)\<lparr>crq_ObjectMeta := empty_object_meta\<lparr>om_Name := n\<rparr>\<rparr>
     | Inr c \<Rightarrow> c)), w)"

definition steady_status :: "(resource_quota, mem_world, ref_error) status_admission" where
  "steady_status = ref_status\<lparr>sa_Client := mem_client\<lparr>Get_crq := steady_get\<rparr>\<rparr>"

lemma api_server_steady: "api_server (mem_client\<lparr>Get_crq := steady_get\<rparr>) mem_stored"
proof unfold_locales
  show "crq_Name c = n" if "fst (Get_crq (mem_client\<lparr>Get_crq := steady_get\<rparr>) n w) = Inr c" for n w c
    using that by (auto simp: steady_get_def mem_get_def split: sum.splits option.splits)
qed (use mem.update_stored mem.update_frame mem.now_stored mem.list_ns_stored mem.create_stored
    mem.create_crq mem.create_ran in \<open>simp_all add: steady_get_def\<close>)

lemma steady_fields [simp]:
  "sa_Decode steady_status = ref_decode" "sa_Client steady_status = mem_client\<lparr>Get_crq := steady_get\<rparr>"
  "sa_Errors steady_status = ref_errs" "sa_Quota steady_status = ref_quota"
  "sa_RetryOnConflict steady_status = ref_RetryOnConflict"
  by (simp_all add: steady_status_def)

lemma limited_cluster_steady: "limited_cluster steady_status mem_stored id ''team'' [(''cpu'', Quantity 10)]"
proof (intro limited_cluster.intro limited_cluster_axioms.intro)
  show "status_env steady_status mem_stored"
    unfolding status_env_def steady_fields
    by (intro conjI api_server_steady ref_quota.quota_arith_axioms ref_errs.api_errors_axioms ref_retry.retrier_axioms)
  show "crq_Status_Hard crq = [(''cpu'', Quantity 10)]"
    if "fst (Get_crq (sa_Client steady_status) ''team'' w) = Inr crq" for w crq
    using that by (auto simp: steady_get_def)
  show "0 \<le> h" if "map_of [(''cpu'', Quantity 10)] k = Some h" for k h
    using that by (auto simp: less_eq_quantity_def split: if_splits)
qed (simp_all add: ref_decode_def not_limited_def steady_get_def)

interpretation steady: limited_cluster steady_status mem_stored id "''team''" "[(''cpu'', Quantity 10)]"
  by (rule limited_cluster_steady)

definition plain_user :: user_info where
  "plain_user = \<lparr>ui_Username = ''u'', ui_UID = [], ui_Groups = [], ui_Extra = []\<rparr>"

definition cluster_start :: "mem_world cluster" where
  "cluster_start = \<lparr>cl_cache = demo_cache, cl_world = status_world,
     cl_quotas = [((''ns1'', ''default''), demo_quota ''team'' ''ns1'' 7)]\<rparr>"

abbreviation steady_do :: "mem_world cluster_op \<Rightarrow> mem_world cluster \<Rightarrow> mem_world cluster" where
  "steady_do \<equiv> cluster_do steady_status ref_remove id"

text \<open>
  A ResourceQuota is made in \<open>ns2\<close>; 2 are admitted for it, beside the 7 of \<open>ns1\<close>, but not persisted, and then 3;
  8 for \<open>ns1\<close> are then refused.
\<close>

definition cluster_made :: "mem_world cluster" where
  "cluster_made = steady_do (CreateQuota (demo_quota ''team'' ''ns2'' 0)) cluster_start"

definition cluster_dry :: "mem_world cluster" where
  "cluster_dry = steady_do (WriteStatus False plain_user (demo_quota ''team'' ''ns2'' 2)) cluster_made"

definition cluster_written :: "mem_world cluster" where
  "cluster_written = steady_do (WriteStatus True plain_user (demo_quota ''team'' ''ns2'' 3)) cluster_dry"

definition cluster_refused :: "mem_world cluster" where
  "cluster_refused = steady_do (WriteStatus True plain_user (demo_quota ''team'' ''ns1'' 8)) cluster_written"

lemmas cluster_run_defs = cluster_refused_def cluster_written_def cluster_dry_def cluster_made_def

text \<open>
  C1. The promise of the operator, end to end. Take a ClusterResourceQuota that exists, with hard limits that are
  not negative, and start from a cache that counts at least what is recorded, within the limits. Then
  through any sequence of status writes by users who are not exempt, admitted or not, of creations, updates and deletions of
  ResourceQuotas, of \<open>Sync\<close> rounds with up-to-date listings in any order, and of changes of the world,
  the usages recorded in the ResourceQuotas of the ClusterResourceQuota add up to no more than any of its limits. Assumed: usages are
  not negative; a ResourceQuota is attached before it has usage; no namespace has two of them; every
  write passes its webhook; and an admitted status write that is not persisted in the end (a dry run, a conflict, another
  webhook) does not ask for less than what is recorded.
\<close>
theorem recorded_usage_stays_within_limits:
  assumes "status_env A stored" and "\<forall>req q. ar_Object req = Some (enc q) \<longrightarrow> sa_Decode A req = Inr q"
    and "n \<noteq> []" and "\<forall>w. case fst (Get_crq (sa_Client A) n w) of
      Inl err \<Rightarrow> \<not> IsNotFound (sa_Errors A) err | Inr crq \<Rightarrow> crq_Status_Hard crq = H"
    and "\<forall>k h. map_of H k = Some h \<longrightarrow> 0 \<le> h"
    and "cluster_inv H n s" and "(orderly_step A R enc n)\<^sup>*\<^sup>* s s'"
  shows "recorded_within H n s'"
proof -
  have "limited_cluster A stored enc n H"
    using assms(1-5) by (auto simp: limited_cluster_def limited_cluster_axioms_def not_limited_def split: sum.splits)
  then show ?thesis
    using limited_cluster.orderly_run_keeps assms(6,7) cluster_inv_recorded by blast
qed

lemma cluster_start_inv: "cluster_inv [(''cpu'', Quantity 10)] ''team'' cluster_start"
proof -
  have "0 \<le> share [(''ns1'', \<lparr>rui_Hard = [], rui_Used = [(''cpu'', Quantity 7)], rui_LastUpdate = 100\<rparr>)] ns k" for ns k
    by (simp add: share_def rval_def less_eq_quantity_def)
  then show ?thesis
    by (simp add: cluster_inv_def cluster_start_def total_within_def demo_cache_ok quotas_total_def stored_ok_def
        mwf_def quota_key_def demo_quota_def empty_object_meta_def not_negative_def one_per_namespace_def quotas_of_def
        covered_def share_def mstr_def less_eq_quantity_def)
qed

lemma cluster_run_steps:
  "(orderly_step steady_status ref_remove id ''team'')\<^sup>*\<^sup>* cluster_start cluster_refused"
proof -
  let ?R = "orderly_step steady_status ref_remove id ''team''"
  have "?R cluster_start cluster_made"
    unfolding cluster_made_def by (rule orderly_step.orderly) code_simp+
  moreover have "?R cluster_made cluster_dry"
    unfolding cluster_dry_def by (rule orderly_step.orderly) (unfold cluster_run_defs, code_simp+)
  moreover have "?R cluster_dry cluster_written"
    unfolding cluster_written_def by (rule orderly_step.orderly) (unfold cluster_run_defs, code_simp+)
  moreover have "?R cluster_written cluster_refused"
    unfolding cluster_refused_def by (rule orderly_step.orderly) (unfold cluster_run_defs, code_simp+)
  ultimately show ?thesis
    by (meson rtranclp.rtrancl_into_rtrancl rtranclp.rtrancl_refl)
qed

lemma cluster_refused_total: "recorded_total (cl_quotas cluster_refused) ''team'' ''cpu'' = Quantity 10"
  unfolding cluster_run_defs by code_simp

theorem recorded_usage_stays_within_limits_witness:
  "recorded_within [(''cpu'', Quantity 10)] ''team'' cluster_refused"
proof (rule recorded_usage_stays_within_limits [OF steady.status_env_axioms _ _ _ _ cluster_start_inv cluster_run_steps])
  show "\<forall>req q. ar_Object req = Some (id q) \<longrightarrow> sa_Decode steady_status req = Inr q"
    using steady.decode_enc by blast
  show "\<forall>w. case fst (Get_crq (sa_Client steady_status) ''team'' w) of
      Inl err \<Rightarrow> \<not> IsNotFound (sa_Errors steady_status) err | Inr crq \<Rightarrow> crq_Status_Hard crq = [(''cpu'', Quantity 10)]"
    by (simp add: steady_get_def)
  show "\<forall>k h. map_of [(''cpu'', Quantity 10)] k = Some h \<longrightarrow> 0 \<le> h"
    using steady.limits_pos by blast
qed simp

lemma recorded_total_entries:
  "recorded_total m n k = sum_list (map (\<lambda>e. if managed_by (rq_Labels (snd e)) = n then rval (rq_Status_Used (snd e)) k else 0) m)"
  by (induction m) (simp_all add: recorded_total_def quotas_of_def)

lemma recorded_total_put:
  assumes "mwf m" and "map_of m key = Some old" and "managed_by (rq_Labels old) = n" and "managed_by (rq_Labels q) = n"
  shows "recorded_total (mput key q m) n k = recorded_total m n k - rval (rq_Status_Used old) k + rval (rq_Status_Used q) k"
  using assms by (simp add: recorded_total_entries sum_list_mput)





text \<open>
  C17. The share of a namespace is counted once. Take a cache that counts exactly what is recorded, a ResourceQuota \<open>q1\<close>
  of the ClusterResourceQuota with the whole share of its namespace, and a second one in that namespace that has no
  usage yet. No webhook keeps anyone from creating it. If a status write to the second is admitted, then
  what was compared with the limits, and what the cache then counts, leaves out the usage of \<open>q1\<close>,
  which stays recorded: the recorded sum exceeds the counted one by it. \<open>Sync\<close> does not repair this:
  from any order of the stored objects it takes the usage of one of the two as the share of the namespace.
\<close>
theorem second_quota_escapes_the_count:
  assumes "status_env A stored" and "\<forall>req q. ar_Object req = Some (enc q) \<longrightarrow> sa_Decode A req = Inr q"
    and "\<not> not_limited A n" and "cache_ok (cl_cache s)" and "stored_ok (cl_quotas s)"
    and "recorded_total (cl_quotas s) n k = quotas_total (contents (view (cl_cache s) n)) k"
    and "map_of (cl_quotas s) key1 = Some q1" and "map_of (cl_quotas s) (quota_key q) = Some q2" and "key1 \<noteq> quota_key q"
    and "managed_by (rq_Labels q1) = n" and "managed_by (rq_Labels q2) = n" and "rq_Namespace q1 = rq_Namespace q"
    and "share (contents (view (cl_cache s) n)) (rq_Namespace q) k = rval (rq_Status_Used q1) k" and "rq_Status_Used q2 = []"
    and "is_allowed (fst (Status_Handle A (status_write enc u q2 (q2\<lparr>rq_Status := rq_Status q\<rparr>)) (cl_cache s, cl_world s)))"
    and "\<forall>p. p \<in> set (quotas_of n (cl_quotas s)) \<and> rq_Namespace p = rq_Namespace q \<longrightarrow> p \<in> {q1, q2}"
    and "not_negative (rq_Status_Used q)"
  shows "let s' = cluster_do A R enc (WriteStatus True u q) s in
    recorded_total (cl_quotas s') n k = quotas_total (contents (view (cl_cache s') n)) k + rval (rq_Status_Used q1) k \<and>
    (\<forall>qs. mset qs = mset (map snd (cl_quotas s')) \<longrightarrow>
      share (contents (view (cl_cache (cluster_do A R enc (SyncCache qs) s')) n)) (rq_Namespace q) k \<in>
        {rval (rq_Status_Used q1) k, rval (rq_Status_Used q) k})"
proof -
  let ?new = "q2\<lparr>rq_Status := rq_Status q\<rparr>" and ?qs = "contents (view (cl_cache s) n)"
  obtain resp c w where run: "Status_Handle A (status_write enc u q2 ?new) (cl_cache s, cl_world s) = (resp, c, w)"
    by (metis prod_cases3)
  have after: "cluster_do A R enc (WriteStatus True u q) s =
      s\<lparr>cl_cache := c, cl_world := w, cl_quotas := mput (quota_key q) ?new (cl_quotas s)\<rparr>"
    using assms(8,15) run by simp
  have key: "quota_key q2 = quota_key q"
    using stored_ok_get(1) [OF assms(5,8)] .
  then have ns: "rq_Namespace q2 = rq_Namespace q"
    by (simp add: quota_key_def)
  have "sa_Decode A (status_write enc u q2 ?new) = Inr ?new"
    using assms(2) by (simp add: status_write_def update_request_def)
  then have out: "write_outcome A (exempt (status_write enc u q2 ?new)) ?new True (cl_cache s) c"
    using status_env.Handle_outcome [OF assms(1,4) run] assms(15) run by simp
  then have ok: "cache_ok c" and "charged_to A (exempt (status_write enc u q2 ?new)) ?new ?qs (contents (view c n))"
    using assms(3,11) by (auto simp: write_outcome_def Let_def)
  then obtain t where c: "contents (view c n) = mput (rq_Namespace q) (recorded ?new t) ?qs"
    using ns by (auto simp: charged_to_def)
  have "quotas_total (contents (view c n)) k = quotas_total ?qs k - rval (rq_Status_Used q1) k + rval (rq_Status_Used q) k"
    using total_after_mput [of ?qs "recorded ?new t" ?new k] cache.contents_wf [OF assms(4)] assms(13)
    by (simp add: c recorded_def total_after_def ns)
  moreover have "recorded_total (mput (quota_key q) ?new (cl_quotas s)) n k =
      recorded_total (cl_quotas s) n k + rval (rq_Status_Used q) k"
    using recorded_total_put [OF _ assms(8,11), of ?new k] assms(5,11,14) by (simp add: stored_ok_def)
  ultimately have escaped: "recorded_total (mput (quota_key q) ?new (cl_quotas s)) n k =
      quotas_total (contents (view c n)) k + rval (rq_Status_Used q1) k"
    using assms(6) by simp
  have "share (contents (view (fst (Sync (time_Now (sa_Client A)) qs c w)) n)) (rq_Namespace q) k \<in>
      {rval (rq_Status_Used q1) k, rval (rq_Status_Used q) k}"
    if listing: "mset qs = mset (map snd (mput (quota_key q) ?new (cl_quotas s)))" for qs
  proof -
    let ?m = "mput (quota_key q) ?new (cl_quotas s)"
    obtain c2 w2 where sync: "Sync (time_Now (sa_Client A)) qs c w = (c2, w2)"
      by fastforce
    have n: "n \<noteq> []"
      using assms(3) by (auto simp: not_limited_def)
    have stored: "stored_ok ?m"
      using stored_ok_put [OF assms(5), of ?new "quota_key q"] key assms(17) by simp
    have two: "p = q1 \<or> p = ?new" if "p \<in> set (quotas_of n ?m)" "rq_Namespace p = rq_Namespace q" for p
    proof -
      have "p = ?new \<or> p \<in> set (quotas_of n (cl_quotas s)) \<and> quota_key p \<noteq> quota_key q"
        using quotas_of_put [of ?new "cl_quotas s" p n] stored assms(5) that(1) by (simp add: key)
      then show ?thesis
        using assms(16) that(2) key by auto
    qed
    have "map_of ?m (quota_key q1) = Some q1"
      using assms(7,9) stored_ok_get(1) [OF assms(5,7)] by (simp add: gomap_simps)
    then have "q1 \<in> set qs" and mem: "\<And>p. p \<in> set qs \<Longrightarrow> managed_by (rq_Labels p) = n \<Longrightarrow> p \<in> set (quotas_of n ?m)"
      using quotas_of_iff [OF stored] quotas_of_listing [OF listing] assms(10) by blast+
    then obtain p where p: "find (\<lambda>p. managed_by (rq_Labels p) = n \<and> rq_Namespace p = rq_Namespace q) (rev qs) = Some p"
      using assms(10,12) by (cases "find (\<lambda>p. managed_by (rq_Labels p) = n \<and> rq_Namespace p = rq_Namespace q) (rev qs)")
        (auto simp: find_None_iff)
    then have "p \<in> set qs" and "managed_by (rq_Labels p) = n" and "rq_Namespace p = rq_Namespace q"
      using nth_mem [of _ "rev qs"] by (auto simp: find_Some_iff)
    then have "p = q1 \<or> p = ?new"
      using two mem by blast
    then show ?thesis
      using Sync_lookup [OF ok sync n, of "rq_Namespace q"] p by (auto simp: share_def sync usage_info_def)
  qed
  then show ?thesis
    unfolding after Let_def using escaped by (simp add: split_beta)
qed

text \<open>
  \<open>ns1\<close> has the ResourceQuota \<open>default\<close>, with 7 of the 10. A second one is created there, and 9 are admitted for it, as
  9 alone is within 10; then 16 are recorded.
\<close>

definition extra_quota :: "int \<Rightarrow> resource_quota" where
  "extra_quota cpu = (demo_quota ''team'' ''ns1'' cpu)\<lparr>rq_ObjectMeta :=
     (rq_ObjectMeta (demo_quota ''team'' ''ns1'' cpu))\<lparr>om_Name := ''extra''\<rparr>\<rparr>"

definition cluster_doubled :: "mem_world cluster" where
  "cluster_doubled = steady_do (CreateQuota (extra_quota 0)) cluster_start"

definition cluster_escaped :: "mem_world cluster" where
  "cluster_escaped = steady_do (WriteStatus True plain_user (extra_quota 9)) cluster_doubled"

lemma cluster_doubled_eq: "cluster_doubled = cluster_start\<lparr>cl_quotas :=
    [((''ns1'', ''default''), demo_quota ''team'' ''ns1'' 7),
     ((''ns1'', ''extra''), (extra_quota 0)\<lparr>rq_Status := empty_rq_status\<rparr>)]\<rparr>"
  by (simp add: cluster_doubled_def cluster_start_def extra_quota_def quota_key_def demo_quota_def)

lemma cluster_escaped_admitted:
  "is_allowed (fst (Status_Handle steady_status (status_write id plain_user
     ((extra_quota 0)\<lparr>rq_Status := empty_rq_status\<rparr>) ((extra_quota 0)\<lparr>rq_Status := rq_Status (extra_quota 9)\<rparr>))
     (demo_cache, status_world)))"
  by code_simp

theorem second_quota_escapes_the_count_witness:
  "recorded_total (cl_quotas cluster_escaped) ''team'' ''cpu'' =
     quotas_total (contents (view (cl_cache cluster_escaped) ''team'')) ''cpu'' + Quantity 7"
proof -
  let ?q1 = "demo_quota ''team'' ''ns1'' 7" and ?q2 = "(extra_quota 0)\<lparr>rq_Status := empty_rq_status\<rparr>"
  have "let s' = cluster_do steady_status ref_remove id (WriteStatus True plain_user (extra_quota 9)) cluster_doubled in
    recorded_total (cl_quotas s') ''team'' ''cpu'' =
      quotas_total (contents (view (cl_cache s') ''team'')) ''cpu'' + rval (rq_Status_Used ?q1) ''cpu'' \<and>
    (\<forall>qs. mset qs = mset (map snd (cl_quotas s')) \<longrightarrow>
      share (contents (view (cl_cache (cluster_do steady_status ref_remove id (SyncCache qs) s')) ''team''))
        (rq_Namespace (extra_quota 9)) ''cpu'' \<in>
        {rval (rq_Status_Used ?q1) ''cpu'', rval (rq_Status_Used (extra_quota 9)) ''cpu''})"
    by (rule second_quota_escapes_the_count [OF steady.status_env_axioms, where ?q2.0 = ?q2 and ?key1.0 = "(''ns1'', ''default'')"])
      (use steady.exists cluster_escaped_admitted in \<open>auto simp: cluster_doubled_eq cluster_start_def demo_cache_ok
        ref_decode_def stored_ok_def mwf_def quota_key_def extra_quota_def demo_quota_def empty_object_meta_def
        not_negative_def empty_rq_status_def recorded_total_def quotas_of_def mstr_def quotas_total_def share_def
        less_eq_quantity_def\<close>)
  then show ?thesis
    by (simp add: cluster_escaped_def Let_def demo_quota_def)
qed

end
