(* ===== verification/Locking.thy ===== *)
theory Locking
  imports Ledger
begin

section \<open>The goroutines and their locks\<close>

text \<open>
  The theory \<open>Interleaving\<close> has the steps of the data, with \<open>Sync\<close> in one piece. Here a goroutine takes a step per lock
  operation, per call of the API server and per entry that \<open>Sync\<close> visits, and a lock is taken or free:
  \<open>ResourceQuotaCache.lock\<close>, which \<open>GetOrCreate\<close> and \<open>Sync\<close> hold, and the mutex of every
  \<open>ClusterResourceQuotaCache\<close>, which \<open>OnLock\<close> holds around its closure. Shown are: every request is answered,
  whatever the schedule; which maps two goroutines can use at the same time; and that without such
  an overlap the goroutines are a run of a ledger, name by name.
\<close>

subsection \<open>The closure of \<open>validate\<close> in three parts\<close>

text \<open>The \<open>Get\<close>; the sum over \<open>cache.Quotas\<close> and the comparison; the status update.\<close>

definition check_get :: "('raw, 'w, 'e) status_admission \<Rightarrow> string \<Rightarrow> 'w \<Rightarrow>
    ('e option + cluster_resource_quota) \<times> 'w" where
  "check_get A clusterresourcequotaname w =
    (case Get_crq (sa_Client A) clusterresourcequotaname w of
      (Inl err, w1) \<Rightarrow> if IsNotFound (sa_Errors A) err then (Inl None, w1) else (Inl (Some err), w1)
    | (Inr crq, w1) \<Rightarrow> (Inr crq, w1))"

definition check_sum :: "('raw, 'w, 'e) status_admission \<Rightarrow> resource_quota \<Rightarrow> bool \<Rightarrow> quotas \<Rightarrow>
    cluster_resource_quota \<Rightarrow> 'e + cluster_resource_quota" where
  "check_sum A rq skipvalidation qs crq =
    (let Q = sa_Quota A;
         oldtotal = old_total Q qs;
         oldusage = (case map_of qs (rq_Namespace rq) of Some u \<Rightarrow> rui_Used u | None \<Rightarrow> []);
         delta = qSubtract Q (rq_Status_Used rq) oldusage;
         newtotal = qAdd Q oldtotal delta;
         ok = fst (qLessThanOrEqual Q newtotal (crq_Status_Hard crq));
         exceeded = snd (qLessThanOrEqual Q newtotal (crq_Status_Hard crq)) in
     if \<not> skipvalidation \<and> \<not> ok then
       Inl (NewForbidden (sa_Errors A) (Errorf (sa_Errors A)
         ''exceeded cluster quota: %s, requested: %s, used: %s, limited: %s''
         [FStr (crq_Name crq),
          FStr (prettyPrint (sa_String A) (qMask Q delta exceeded)),
          FStr (prettyPrint (sa_String A) (qMask Q oldtotal exceeded)),
          FStr (prettyPrint (sa_String A) (qMask Q (crq_Status_Hard crq) exceeded))]))
     else Inr (updateClusterResourceQuotaStatusUsed crq rq newtotal))"

definition check_update :: "('raw, 'w, 'e) status_admission \<Rightarrow> resource_quota \<Rightarrow> cluster_resource_quota \<Rightarrow> 'w \<Rightarrow>
    ('e + resource_usage_info) \<times> 'w" where
  "check_update A rq crq w =
    (case Status_Update (sa_Client A) crq w of
      (Some err, w1) \<Rightarrow> (Inl err, w1)
    | (None, w1) \<Rightarrow>
        (case time_Now (sa_Client A) w1 of (t, w2) \<Rightarrow>
          (Inr \<lparr>rui_Hard = [], rui_Used = rq_Status_Used rq, rui_LastUpdate = t\<rparr>, w2)))"

lemma validate_check_parts:
  "validate_check A rq n skip qs w =
    (case check_get A n w of
      (Inl r, w1) \<Rightarrow> (Inl r, w1)
    | (Inr crq, w1) \<Rightarrow>
        (case check_sum A rq skip qs crq of
          Inl err \<Rightarrow> (Inl (Some err), w1)
        | Inr crq' \<Rightarrow>
            (case check_update A rq crq' w1 of
              (Inl err, w2) \<Rightarrow> (Inl (Some err), w2)
            | (Inr entry, w2) \<Rightarrow> (Inr entry, w2))))"
  by (simp add: validate_check_def check_get_def check_sum_def check_update_def Let_def
      split: prod.split sum.split option.split)

subsection \<open>The state of the goroutines\<close>

text \<open>
  A call of \<open>validate\<close> by \<open>RetryOnConflict\<close>, with the number of runs it has left, this one included. A request
  is at the statement named by the constructor: it waits for the lock of the cache; is in
  \<open>GetOrCreate\<close>; waits for the mutex; is at \<open>Get\<close>, at the sum, at the status update, at the store; returns from
  the closure, with the deferred unlock still to come; or has its answer.
\<close>

record call =
  call_Quota :: resource_quota
  call_Name :: string
  call_Skip :: bool
  call_Left :: nat

datatype 'e webhook_request =
  AtCacheLock call
| InGetOrCreate call
| AtMutex address call
| AtGet address call
| AtSum address call cluster_resource_quota
| AtUpdate address call cluster_resource_quota
| AtStore address call resource_usage_info
| AtUnlock address call "'e option"
| Answered "'e option"

text \<open>
  The goroutine of \<open>CacheSyner\<close>: between two ticks; with a listing, waiting for the lock of the cache;
  at the grouping; in the loop over the entries, with those that are left; in the loop over the new
  names. \<open>now\<close>, \<open>quotas\<close> and \<open>grouped\<close> are its local variables.
\<close>

datatype syncer =
  BetweenTicks
| AtSyncLock "resource_quota list"
| AtGrouping "resource_quota list"
| AtExisting time "resource_quota list" "(string \<times> address) list" "(string, quotas) gomap"
| AtNew time "resource_quota list" "(string, quotas) gomap"

datatype owner = Request nat | Syncer

record ('w, 'e) webhook =
  wh_cache :: resource_quota_cache
  wh_world :: 'w
  wh_requests :: "'e webhook_request list"
  wh_syncer :: syncer
  wh_lock :: "owner option"
  wh_mutex :: "address \<Rightarrow> nat option"

definition move :: "nat \<Rightarrow> 'e webhook_request \<Rightarrow> ('w, 'e) webhook \<Rightarrow> ('w, 'e) webhook" where
  "move i r s = s\<lparr>wh_requests := (wh_requests s)[i := r]\<rparr>"

subsection \<open>Turns\<close>

text \<open>\<open>RetryOnConflict\<close> after a run of \<open>validate\<close>.\<close>

definition after_run :: "('raw, 'w, 'e) status_admission \<Rightarrow> call \<Rightarrow> 'e option \<Rightarrow> 'e webhook_request" where
  "after_run A k r =
    (case r of
      Some err \<Rightarrow>
        if IsConflict (sa_Errors A) err \<and> 1 < call_Left k then AtCacheLock (k\<lparr>call_Left := call_Left k - 1\<rparr>)
        else Answered r
    | None \<Rightarrow> Answered r)"

text \<open>One turn of the \<open>i\<close>-th request: \<open>None\<close> if it waits for a lock that is taken, or has its answer.\<close>

fun request_turn :: "('raw, 'w, 'e) status_admission \<Rightarrow> nat \<Rightarrow> 'e webhook_request \<Rightarrow> ('w, 'e) webhook \<Rightarrow>
    ('w, 'e) webhook option" where
  "request_turn A i (AtCacheLock k) s =
    (if wh_lock s = None then Some (move i (InGetOrCreate k) (s\<lparr>wh_lock := Some (Request i)\<rparr>)) else None)"
| "request_turn A i (InGetOrCreate k) s =
    (case GetOrCreate (call_Name k) (wh_cache s) of
      (a, c) \<Rightarrow> Some (move i (AtMutex a k) (s\<lparr>wh_cache := c, wh_lock := None\<rparr>)))"
| "request_turn A i (AtMutex a k) s =
    (if wh_mutex s a = None then Some (move i (AtGet a k) (s\<lparr>wh_mutex := (wh_mutex s)(a := Some i)\<rparr>)) else None)"
| "request_turn A i (AtGet a k) s =
    (case check_get A (call_Name k) (wh_world s) of
      (Inl r, w) \<Rightarrow> Some (move i (AtUnlock a k r) (s\<lparr>wh_world := w\<rparr>))
    | (Inr crq, w) \<Rightarrow> Some (move i (AtSum a k crq) (s\<lparr>wh_world := w\<rparr>)))"
| "request_turn A i (AtSum a k crq) s =
    (case check_sum A (call_Quota k) (call_Skip k) (read_quotas a (wh_cache s)) crq of
      Inl err \<Rightarrow> Some (move i (AtUnlock a k (Some err)) s)
    | Inr crq' \<Rightarrow> Some (move i (AtUpdate a k crq') s))"
| "request_turn A i (AtUpdate a k crq) s =
    (case check_update A (call_Quota k) crq (wh_world s) of
      (Inl err, w) \<Rightarrow> Some (move i (AtUnlock a k (Some err)) (s\<lparr>wh_world := w\<rparr>))
    | (Inr entry, w) \<Rightarrow> Some (move i (AtStore a k entry) (s\<lparr>wh_world := w\<rparr>)))"
| "request_turn A i (AtStore a k entry) s =
    Some (move i (AtUnlock a k None)
      (s\<lparr>wh_cache := write_quotas a (mput (rq_Namespace (call_Quota k)) entry (read_quotas a (wh_cache s))) (wh_cache s)\<rparr>))"
| "request_turn A i (AtUnlock a k r) s =
    Some (move i (after_run A k r) (s\<lparr>wh_mutex := (wh_mutex s)(a := None)\<rparr>))"
| "request_turn A i (Answered r) s = None"

fun syncer_turn :: "('raw, 'w, 'e) status_admission \<Rightarrow> syncer \<Rightarrow> ('w, 'e) webhook \<Rightarrow> ('w, 'e) webhook option" where
  "syncer_turn A BetweenTicks s = None"
| "syncer_turn A (AtSyncLock qs) s =
    (if wh_lock s = None then Some (s\<lparr>wh_lock := Some Syncer, wh_syncer := AtGrouping qs\<rparr>) else None)"
| "syncer_turn A (AtGrouping qs) s =
    (case time_Now (sa_Client A) (wh_world s) of
      (t, w) \<Rightarrow> Some (s\<lparr>wh_world := w, wh_syncer := AtExisting t qs (rqc_quotacache (wh_cache s)) (group_quotas t qs)\<rparr>))"
| "syncer_turn A (AtExisting t qs [] g) s = Some (s\<lparr>wh_syncer := AtNew t qs g\<rparr>)"
| "syncer_turn A (AtExisting t qs (e # es) g) s =
    (case existing_step (time_Now (sa_Client A)) e (wh_cache s, g, wh_world s) of
      (c, g', w) \<Rightarrow> Some (s\<lparr>wh_cache := c, wh_world := w, wh_syncer := AtExisting t qs es g'\<rparr>))"
| "syncer_turn A (AtNew t qs []) s = Some (s\<lparr>wh_lock := None, wh_syncer := BetweenTicks\<rparr>)"
| "syncer_turn A (AtNew t qs (e # g)) s =
    Some (s\<lparr>wh_cache := new_step e (wh_cache s), wh_syncer := AtNew t qs g\<rparr>)"

text \<open>
  A turn of some goroutine, with whatever the others in the cluster have made of the world before. And all steps: a
  turn, a new request, a tick of the ticker, whose \<open>List\<close> may return any listing.
\<close>

inductive turn :: "('raw, 'w, 'e) status_admission \<Rightarrow> ('w, 'e) webhook \<Rightarrow> ('w, 'e) webhook \<Rightarrow> bool" for A where
  request: "i < length (wh_requests s) \<Longrightarrow>
    request_turn A i (wh_requests s ! i) (s\<lparr>wh_world := w\<rparr>) = Some s' \<Longrightarrow> turn A s s'"
| syncer: "syncer_turn A (wh_syncer s) (s\<lparr>wh_world := w\<rparr>) = Some s' \<Longrightarrow> turn A s s'"

inductive webhook_step :: "('raw, 'w, 'e) status_admission \<Rightarrow> ('w, 'e) webhook \<Rightarrow> ('w, 'e) webhook \<Rightarrow> bool" for A where
  turn: "turn A s s' \<Longrightarrow> webhook_step A s s'"
| arrival: "call_Left k = bo_Steps status_backoff \<Longrightarrow>
    webhook_step A s (s\<lparr>wh_requests := wh_requests s @ [AtCacheLock k]\<rparr>)"
| tick: "wh_syncer s = BetweenTicks \<Longrightarrow> webhook_step A s (s\<lparr>wh_syncer := AtSyncLock qs\<rparr>)"

inductive_cases turnE: "turn A s s'"

definition webhook_start :: "resource_quota_cache \<Rightarrow> 'w \<Rightarrow> ('w, 'e) webhook" where
  "webhook_start c w = \<lparr>wh_cache = c, wh_world = w, wh_requests = [], wh_syncer = BetweenTicks,
     wh_lock = None, wh_mutex = (\<lambda>_. None)\<rparr>"


subsection \<open>Who holds which lock\<close>

fun holds :: "'e webhook_request \<Rightarrow> address option" where
  "holds (AtGet a k) = Some a"
| "holds (AtSum a k crq) = Some a"
| "holds (AtUpdate a k crq) = Some a"
| "holds (AtStore a k entry) = Some a"
| "holds (AtUnlock a k r) = Some a"
| "holds (AtCacheLock k) = None"
| "holds (InGetOrCreate k) = None"
| "holds (AtMutex a k) = None"
| "holds (Answered r) = None"

fun has_cache_lock :: "'e webhook_request \<Rightarrow> bool" where
  "has_cache_lock (InGetOrCreate k) = True"
| "has_cache_lock (AtGet a k) = False"
| "has_cache_lock (AtSum a k crq) = False"
| "has_cache_lock (AtUpdate a k crq) = False"
| "has_cache_lock (AtStore a k entry) = False"
| "has_cache_lock (AtUnlock a k r) = False"
| "has_cache_lock (AtCacheLock k) = False"
| "has_cache_lock (AtMutex a k) = False"
| "has_cache_lock (Answered r) = False"

fun syncing :: "syncer \<Rightarrow> bool" where
  "syncing BetweenTicks = False"
| "syncing (AtSyncLock qs) = False"
| "syncing (AtGrouping qs) = True"
| "syncing (AtExisting t qs es g) = True"
| "syncing (AtNew t qs g) = True"

definition locks_held :: "('w, 'e) webhook \<Rightarrow> bool" where
  "locks_held s \<longleftrightarrow>
     (\<forall>i. wh_lock s = Some (Request i) \<longleftrightarrow> i < length (wh_requests s) \<and> has_cache_lock (wh_requests s ! i)) \<and>
     (wh_lock s = Some Syncer \<longleftrightarrow> syncing (wh_syncer s)) \<and>
     (\<forall>a i. wh_mutex s a = Some i \<longleftrightarrow> i < length (wh_requests s) \<and> holds (wh_requests s ! i) = Some a)"

lemma locks_heldD:
  assumes "locks_held s"
  shows "wh_lock s = Some (Request i) \<longleftrightarrow> i < length (wh_requests s) \<and> has_cache_lock (wh_requests s ! i)"
    and "wh_lock s = Some Syncer \<longleftrightarrow> syncing (wh_syncer s)"
    and "wh_mutex s a = Some i \<longleftrightarrow> i < length (wh_requests s) \<and> holds (wh_requests s ! i) = Some a"
  using assms by (auto simp: locks_held_def)

lemma move_fields [simp]:
  "wh_requests (move i r s) = (wh_requests s)[i := r]" "wh_cache (move i r s) = wh_cache s"
  "wh_world (move i r s) = wh_world s" "wh_syncer (move i r s) = wh_syncer s"
  "wh_lock (move i r s) = wh_lock s" "wh_mutex (move i r s) = wh_mutex s"
  by (simp_all add: move_def)

lemma same_field:
  assumes "f r = f (xs ! i)"
  shows "f (xs[i := r] ! j) = f (xs ! j)"
proof (cases "j = i")
  case True
  then show ?thesis
    using assms by (cases "i < length xs") (simp_all add: list_update_beyond)
qed simp

lemma locks_held_same:
  assumes "locks_held s" and "has_cache_lock r = has_cache_lock (wh_requests s ! i)"
    and "holds r = holds (wh_requests s ! i)" and "wh_requests s' = (wh_requests s)[i := r]"
    and "wh_syncer s' = wh_syncer s" and "wh_lock s' = wh_lock s" and "wh_mutex s' = wh_mutex s"
  shows "locks_held s'"
  using assms(1) unfolding locks_held_def assms(4-7)
  by (simp add: same_field [where f = has_cache_lock, OF assms(2)] same_field [where f = holds, OF assms(3)])

lemma locks_held_cache_lock:
  assumes "locks_held s" and "i < length (wh_requests s)" and "holds r = holds (wh_requests s ! i)"
    and "wh_requests s' = (wh_requests s)[i := r]" and "wh_syncer s' = wh_syncer s"
    and "wh_mutex s' = wh_mutex s"
    and "wh_lock s = None \<and> has_cache_lock r \<and> wh_lock s' = Some (Request i) \<or>
      has_cache_lock (wh_requests s ! i) \<and> \<not> has_cache_lock r \<and> wh_lock s' = None"
  shows "locks_held s'"
proof -
  have "wh_mutex s' a = Some j \<longleftrightarrow> j < length (wh_requests s') \<and> holds (wh_requests s' ! j) = Some a" for a j
    using locks_heldD(3) [OF assms(1), of a j] by (simp add: assms(4,6) same_field [where f = holds, OF assms(3)])
  moreover have "wh_lock s' = Some (Request j) \<longleftrightarrow> j < length (wh_requests s') \<and> has_cache_lock (wh_requests s' ! j)" for j
    using locks_heldD(1) [OF assms(1), of j] locks_heldD(1) [OF assms(1), of i] assms(2,7)
    by (auto simp: assms(4) nth_list_update)
  moreover have "wh_lock s' = Some Syncer \<longleftrightarrow> syncing (wh_syncer s')"
    using locks_heldD(2) [OF assms(1)] locks_heldD(1) [OF assms(1), of i] assms(2,7) by (auto simp: assms(5))
  ultimately show ?thesis
    by (simp add: locks_held_def)
qed

lemma locks_held_mutex:
  assumes "locks_held s" and "i < length (wh_requests s)" and "has_cache_lock r = has_cache_lock (wh_requests s ! i)"
    and "wh_requests s' = (wh_requests s)[i := r]" and "wh_syncer s' = wh_syncer s" and "wh_lock s' = wh_lock s"
    and "wh_mutex s a = None \<and> holds (wh_requests s ! i) = None \<and> holds r = Some a \<and> wh_mutex s' = (wh_mutex s)(a := Some i) \<or>
      holds (wh_requests s ! i) = Some a \<and> holds r = None \<and> wh_mutex s' = (wh_mutex s)(a := None)"
  shows "locks_held s'"
proof -
  have "wh_mutex s' b = Some j \<longleftrightarrow> j < length (wh_requests s') \<and> holds (wh_requests s' ! j) = Some b" for b j
  proof (cases "j = i")
    case True
    then show ?thesis
      using locks_heldD(3) [OF assms(1), of b i] assms(2,7) by (auto simp: assms(4) split: if_splits)
  next
    case False
    then show ?thesis
      using locks_heldD(3) [OF assms(1), of b j] locks_heldD(3) [OF assms(1), of b i] assms(2,7) by (auto simp: assms(4) split: if_splits)
  qed
  moreover have "wh_lock s' = Some (Request j) \<longleftrightarrow> j < length (wh_requests s') \<and> has_cache_lock (wh_requests s' ! j)" for j
    using locks_heldD(1) [OF assms(1), of j] by (simp add: assms(4,6) same_field [where f = has_cache_lock, OF assms(3)])
  ultimately show ?thesis
    using locks_heldD(2) [OF assms(1)] by (simp add: locks_held_def assms(5,6))
qed

lemma locks_held_world [simp]: "locks_held (s\<lparr>wh_world := w\<rparr>) = locks_held s"
  by (simp add: locks_held_def)

lemma locks_held_inside:
  assumes "locks_held s" and "holds (wh_requests s ! i) = Some a"
    and "s' = move i r (s\<lparr>wh_cache := c, wh_world := w\<rparr>)" and "holds r = Some a"
  shows "locks_held s'"
proof -
  have "\<not> has_cache_lock q" if "holds q = Some a" for q
    using that by (cases q) simp_all
  then show ?thesis
    using assms by (intro locks_held_same [OF assms(1), of r i]) auto
qed

lemma locks_held_request:
  assumes "locks_held s" and "i < length (wh_requests s)"
    and "request_turn A i (wh_requests s ! i) (s\<lparr>wh_world := w\<rparr>) = Some s'"
  shows "locks_held s'"
proof (cases "wh_requests s ! i")
  case (AtCacheLock k)
  with assms(3) show ?thesis
    by (intro locks_held_cache_lock [OF assms(1,2), of "InGetOrCreate k"]) (auto split: if_splits)
next
  case (InGetOrCreate k)
  obtain a c where "GetOrCreate (call_Name k) (wh_cache s) = (a, c)"
    by fastforce
  with assms(3) InGetOrCreate show ?thesis
    by (intro locks_held_cache_lock [OF assms(1,2), of "AtMutex a k"]) auto
next
  case (AtMutex a k)
  with assms(3) show ?thesis
    by (intro locks_held_mutex [OF assms(1,2), of "AtGet a k"]) (auto split: if_splits)
next
  case (AtGet a k)
  then obtain r w' where "s' = move i r (s\<lparr>wh_world := w'\<rparr>)" and "holds r = Some a"
    using assms(3) by (auto split: prod.splits sum.splits)
  then show ?thesis
    using AtGet by (intro locks_held_inside [OF assms(1), of i a s' r w' "wh_cache s"]) simp_all
next
  case (AtSum a k crq)
  then obtain r where "s' = move i r (s\<lparr>wh_world := w\<rparr>)" and "holds r = Some a"
    using assms(3) by (auto split: sum.splits)
  then show ?thesis
    using AtSum by (intro locks_held_inside [OF assms(1), of i a s' r w "wh_cache s"]) simp_all
next
  case (AtUpdate a k crq)
  then obtain r w' where "s' = move i r (s\<lparr>wh_world := w'\<rparr>)" and "holds r = Some a"
    using assms(3) by (auto split: prod.splits sum.splits)
  then show ?thesis
    using AtUpdate by (intro locks_held_inside [OF assms(1), of i a s' r w' "wh_cache s"]) simp_all
next
  case (AtStore a k entry)
  define c where "c = write_quotas a (mput (rq_Namespace (call_Quota k)) entry (read_quotas a (wh_cache s))) (wh_cache s)"
  have "s' = move i (AtUnlock a k None) (s\<lparr>wh_cache := c, wh_world := w\<rparr>)"
    using assms(3) AtStore by (auto simp: c_def)
  then show ?thesis
    using AtStore by (intro locks_held_inside [OF assms(1), of i a s' "AtUnlock a k None" w c]) simp_all
next
  case (AtUnlock a k r)
  have "holds (after_run A k r) = None" and "\<not> has_cache_lock (after_run A k r)"
    by (simp_all add: after_run_def split: option.split)
  with assms(3) AtUnlock show ?thesis
    by (intro locks_held_mutex [OF assms(1,2), of "after_run A k r"]) auto
next
  case (Answered r)
  with assms(3) show ?thesis
    by simp
qed

lemma locks_held_syncer:
  assumes "locks_held s" and "syncer_turn A (wh_syncer s) (s\<lparr>wh_world := w\<rparr>) = Some s'"
  shows "locks_held s'"
  using assms by (cases "(A, wh_syncer s, s\<lparr>wh_world := w\<rparr>)" rule: syncer_turn.cases)
    (auto simp: locks_held_def split: if_splits prod.splits)

lemma locks_held_turn: "turn A s s' \<Longrightarrow> locks_held s \<Longrightarrow> locks_held s'"
  by (elim turnE) (auto intro: locks_held_request locks_held_syncer)

lemma locks_held_step: "webhook_step A s s' \<Longrightarrow> locks_held s \<Longrightarrow> locks_held s'"
proof (induction rule: webhook_step.induct)
  case (arrival k s)
  then show ?case
    by (auto simp: locks_held_def nth_append less_Suc_eq)
next
  case (tick s qs)
  then show ?case
    by (simp add: locks_held_def)
qed (rule locks_held_turn)

lemma locks_held_start [simp]: "locks_held (webhook_start c w)"
  by (simp add: locks_held_def webhook_start_def)


subsection \<open>Every request is answered\<close>

text \<open>
  A turn of a request uses up some of its runs or of the statements of the run; a turn of \<open>Sync\<close> leaves the requests
  alone and has fewer entries to go. The lexicographic order matters: a request may add an entry while \<open>Sync\<close> waits.
\<close>

fun request_rest :: "'e webhook_request \<Rightarrow> nat" where
  "request_rest (AtCacheLock k) = 8 * call_Left k + 8"
| "request_rest (InGetOrCreate k) = 8 * call_Left k + 7"
| "request_rest (AtMutex a k) = 8 * call_Left k + 6"
| "request_rest (AtGet a k) = 8 * call_Left k + 5"
| "request_rest (AtSum a k crq) = 8 * call_Left k + 4"
| "request_rest (AtUpdate a k crq) = 8 * call_Left k + 3"
| "request_rest (AtStore a k entry) = 8 * call_Left k + 2"
| "request_rest (AtUnlock a k r) = 8 * call_Left k + 1"
| "request_rest (Answered r) = 0"

fun syncer_phase :: "syncer \<Rightarrow> nat" where
  "syncer_phase BetweenTicks = 0"
| "syncer_phase (AtNew t qs g) = 1"
| "syncer_phase (AtExisting t qs es g) = 2"
| "syncer_phase (AtGrouping qs) = 3"
| "syncer_phase (AtSyncLock qs) = 4"

fun syncer_rest :: "syncer \<Rightarrow> nat" where
  "syncer_rest BetweenTicks = 0"
| "syncer_rest (AtNew t qs g) = length g"
| "syncer_rest (AtExisting t qs es g) = length es"
| "syncer_rest (AtGrouping qs) = 0"
| "syncer_rest (AtSyncLock qs) = 0"

definition webhook_rest :: "(('w, 'e) webhook \<times> ('w, 'e) webhook) set" where
  "webhook_rest = measures [\<lambda>s. sum_list (map request_rest (wh_requests s)),
     \<lambda>s. syncer_phase (wh_syncer s), \<lambda>s. syncer_rest (wh_syncer s)]"

lemma sum_list_update_less:
  fixes f :: "'a \<Rightarrow> nat"
  assumes "i < length xs" and "f r < f (xs ! i)"
  shows "sum_list (map f (xs[i := r])) < sum_list (map f xs)"
  using assms
proof (induction xs arbitrary: i)
  case (Cons x xs)
  then show ?case
    by (cases i) simp_all
qed simp

lemma request_turn_rest:
  assumes "request_turn A i q s = Some s'"
  obtains r where "wh_requests s' = (wh_requests s)[i := r]" and "request_rest r < request_rest q"
  using assms by (cases q) (auto simp: after_run_def split: if_splits prod.splits sum.splits option.splits)

lemma syncer_turn_rest:
  assumes "syncer_turn A (wh_syncer s) s = Some s'"
  shows "wh_requests s' = wh_requests s"
    and "syncer_phase (wh_syncer s') < syncer_phase (wh_syncer s) \<or>
      syncer_phase (wh_syncer s') = syncer_phase (wh_syncer s) \<and> syncer_rest (wh_syncer s') < syncer_rest (wh_syncer s)"
  using assms by (cases "(A, wh_syncer s, s)" rule: syncer_turn.cases; auto split: if_splits prod.splits)+

lemma turn_rest: "turn A s s' \<Longrightarrow> (s', s) \<in> webhook_rest"
proof (induction rule: turn.induct)
  case (request i s w s')
  from request(2) obtain r where "wh_requests s' = (wh_requests s)[i := r]" "request_rest r < request_rest (wh_requests s ! i)"
    by (rule request_turn_rest) simp
  then show ?case
    using sum_list_update_less [OF request(1)] by (simp add: webhook_rest_def)
next
  case (syncer s w s')
  then show ?case
    using syncer_turn_rest [of A "s\<lparr>wh_world := w\<rparr>" s'] by (auto simp: webhook_rest_def)
qed

lemma no_endless_turns: "\<not> (\<exists>f. \<forall>i. turn A (f i) (f (Suc i)))"
proof -
  have "wf (webhook_rest :: (('w, 'e) webhook \<times> ('w, 'e) webhook) set)"
    by (simp add: webhook_rest_def)
  then show ?thesis
    using turn_rest unfolding wf_iff_no_infinite_down_chain by blast
qed

text \<open>Whoever waits, waits for somebody who can go on.\<close>

fun answered :: "'e webhook_request \<Rightarrow> bool" where
  "answered (Answered r) = True"
| "answered (AtCacheLock k) = False"
| "answered (InGetOrCreate k) = False"
| "answered (AtMutex a k) = False"
| "answered (AtGet a k) = False"
| "answered (AtSum a k crq) = False"
| "answered (AtUpdate a k crq) = False"
| "answered (AtStore a k entry) = False"
| "answered (AtUnlock a k r) = False"

lemma request_goes_on:
  assumes "holds q \<noteq> None \<or> has_cache_lock q"
  shows "request_turn A i q s \<noteq> None"
  using assms by (cases q) (simp_all split: prod.split sum.split)

lemma syncer_goes_on: "syncing q \<Longrightarrow> syncer_turn A q s \<noteq> None"
  by (cases "(A, q, s)" rule: syncer_turn.cases) (simp_all split: prod.split)

lemma request_turnI: "i < length (wh_requests s) \<Longrightarrow> request_turn A i (wh_requests s ! i) s \<noteq> None \<Longrightarrow> \<exists>s'. turn A s s'"
  using turn.request [of i s A "wh_world s"] by auto

lemma syncer_turnI: "syncer_turn A (wh_syncer s) s \<noteq> None \<Longrightarrow> \<exists>s'. turn A s s'"
  using turn.syncer [of A s "wh_world s"] by auto

lemma no_deadlock:
  assumes "locks_held s" and "wh_syncer s \<noteq> BetweenTicks \<or> \<not> list_all answered (wh_requests s)"
  shows "\<exists>s'. turn A s s'"
proof (cases "wh_lock s")
  case (Some ow)
  show ?thesis
  proof (cases ow)
    case (Request i)
    then have "i < length (wh_requests s)" and "has_cache_lock (wh_requests s ! i)"
      using locks_heldD(1) [OF assms(1)] Some by auto
    then show ?thesis
      using request_goes_on by (blast intro: request_turnI)
  next
    case Syncer
    then have "syncing (wh_syncer s)"
      using locks_heldD(2) [OF assms(1)] Some by simp
    then show ?thesis
      using syncer_goes_on by (blast intro: syncer_turnI)
  qed
next
  case None
  show ?thesis
  proof (cases "wh_syncer s = BetweenTicks")
    case False
    then have "syncer_turn A (wh_syncer s) s \<noteq> None"
      using None locks_heldD(2) [OF assms(1)] by (cases "wh_syncer s") auto
    then show ?thesis
      by (rule syncer_turnI)
  next
    case True
    then obtain i where i: "i < length (wh_requests s)" "\<not> answered (wh_requests s ! i)"
      using assms(2) by (auto simp: list_all_length)
    show ?thesis
    proof (cases "\<exists>a k. wh_requests s ! i = AtMutex a k \<and> wh_mutex s a \<noteq> None")
      case False
      then have "request_turn A i (wh_requests s ! i) s \<noteq> None"
        using i(2) None request_goes_on [of "wh_requests s ! i"] by (cases "wh_requests s ! i") auto
      then show ?thesis
        by (rule request_turnI [OF i(1)])
    next
      case True
      then obtain a j where "wh_mutex s a = Some j"
        by blast
      then have "j < length (wh_requests s)" and "holds (wh_requests s ! j) \<noteq> None"
        using locks_heldD(3) [OF assms(1)] by auto
      then show ?thesis
        using request_goes_on by (blast intro: request_turnI)
    qed
  qed
qed

lemma locks_held_steps: "(webhook_step A)\<^sup>*\<^sup>* s s' \<Longrightarrow> locks_held s \<Longrightarrow> locks_held s'"
  by (induction rule: rtranclp_induct) (auto intro: locks_held_step)


subsection \<open>Pointers and listings\<close>

text \<open>The object and the name of a request that has got its pointer.\<close>

fun target :: "'e webhook_request \<Rightarrow> (address \<times> string) option" where
  "target (AtMutex a k) = Some (a, call_Name k)"
| "target (AtGet a k) = Some (a, call_Name k)"
| "target (AtSum a k crq) = Some (a, call_Name k)"
| "target (AtUpdate a k crq) = Some (a, call_Name k)"
| "target (AtStore a k entry) = Some (a, call_Name k)"
| "target (AtUnlock a k r) = Some (a, call_Name k)"
| "target (AtCacheLock k) = None"
| "target (InGetOrCreate k) = None"
| "target (Answered r) = None"

text \<open>
  The local variables of \<open>Sync\<close>: the entries it has not visited are in the map, and what \<open>grouped\<close> has left is
  what the listing says.
\<close>

fun syncer_ok :: "resource_quota_cache \<Rightarrow> syncer \<Rightarrow> bool" where
  "syncer_ok c (AtExisting t qs es g) \<longleftrightarrow> groups_ok g \<and> mwf es \<and> set es \<subseteq> set (rqc_quotacache c) \<and>
     (\<forall>n \<in> fst ` set es. map_option map_of (map_of g n) = listed t qs n) \<and>
     (\<forall>n m. map_of g n = Some m \<longrightarrow> listed t qs n = Some (map_of m))"
| "syncer_ok c (AtNew t qs g) \<longleftrightarrow> groups_ok g \<and> (\<forall>n m. map_of g n = Some m \<longrightarrow> listed t qs n = Some (map_of m))"
| "syncer_ok c BetweenTicks \<longleftrightarrow> True"
| "syncer_ok c (AtSyncLock qs) \<longleftrightarrow> True"
| "syncer_ok c (AtGrouping qs) \<longleftrightarrow> True"

definition data_ok :: "('w, 'e) webhook \<Rightarrow> bool" where
  "data_ok s \<longleftrightarrow> locks_held s \<and> cache_ok (wh_cache s) \<and> syncer_ok (wh_cache s) (wh_syncer s) \<and>
     (\<forall>q \<in> set (wh_requests s). pointer_ok (wh_cache s) (target q))"

lemma data_okD:
  assumes "data_ok s"
  shows "locks_held s" and "cache_ok (wh_cache s)" and "syncer_ok (wh_cache s) (wh_syncer s)"
    and "i < length (wh_requests s) \<Longrightarrow> pointer_ok (wh_cache s) (target (wh_requests s ! i))"
  using assms by (simp_all add: data_ok_def)

lemma syncer_ok_names: "syncer_ok c q \<Longrightarrow> rqc_quotacache c' = rqc_quotacache c \<Longrightarrow> syncer_ok c' q"
  by (cases q) simp_all

text \<open>One entry that \<open>Sync\<close> visits, and one new name: the cache says of this name what is listed.\<close>

lemma existing_turn:
  assumes "cache_ok c" and "syncer_ok c (AtExisting t qs ((n, a) # es) g)"
    and "existing_step now (n, a) (c, g, w) = (c', g', w')"
  shows "cache_ok c'" and "syncer_ok c' (AtExisting t qs es g')"
    and "usage c' = (usage c)(n := listed t qs n)"
    and "map_of g n = None \<Longrightarrow> read_quotas b c' = read_quotas b c"
    and "b \<noteq> a \<Longrightarrow> read_quotas b c' = read_quotas b c"
proof -
  have g: "groups_ok g" and mem: "(n, a) \<in> set (rqc_quotacache c)"
    and here: "map_option map_of (map_of g n) = listed t qs n"
    using assms(2) by simp_all
  note eff = existing_step_effect [OF assms(1) g mem assms(3)]
  show "cache_ok c'" and "usage c' = (usage c)(n := listed t qs n)"
    using eff(1,3) here by simp_all
  have fresh: "n \<notin> fst ` set es"
    using assms(2) by (simp add: mwf_Cons)
  have "set es \<subseteq> set (rqc_quotacache c')"
  proof
    fix p assume "p \<in> set es"
    then show "p \<in> set (rqc_quotacache c')"
      using eff(5) [of "fst p" "snd p"] fresh assms(2) by force
  qed
  then show "syncer_ok c' (AtExisting t qs es g')"
    using assms(2) eff(2,4) fresh by (auto simp: mwf_Cons)
  show "read_quotas b c' = read_quotas b c" if "map_of g n = None"
    using assms(3) that by (auto simp: existing_step_def read_quotas_def)
  show "read_quotas b c' = read_quotas b c" if "b \<noteq> a"
    using assms(3) that by (auto simp: existing_step_def read_quotas_def write_quotas_def split: option.splits prod.splits)
qed

lemma existing_turn_pointers:
  assumes "existing_step now e (c, g, w) = (c', g', w')" and "pointer_ok c ob"
  shows "pointer_ok c' ob"
  using existing_fold_pointers [of now "[e]" c g w c' g' w'] assms pointer_ok_mono [OF assms(2)] by simp

lemma new_turn:
  assumes "cache_ok c" and "syncer_ok c (AtNew t qs ((n, m) # g))"
  shows "cache_ok (new_step (n, m) c)" and "syncer_ok (new_step (n, m) c) (AtNew t qs g)"
    and "usage (new_step (n, m) c) = (usage c)(n := listed t qs n)"
proof -
  have g: "groups_ok ((n, m) # g)" and listed: "\<And>p q. map_of ((n, m) # g) p = Some q \<Longrightarrow> listed t qs p = Some (map_of q)"
    using assms(2) unfolding syncer_ok.simps by blast+
  have wf: "mwf m" "groups_ok g" "n \<notin> fst ` set g"
    using g by (auto simp: groups_ok_def mwf_Cons)
  then show "cache_ok (new_step (n, m) c)"
    using assms(1) by (simp add: new_step_eq cache_ok_bind_new gomap_simps)
  have "usage (new_step (n, m) c) = (usage c)(n \<mapsto> map_of m)"
    using wf(1) by (simp add: usage_def view_bind_new [OF assms(1)] new_step_eq gomap_simps fun_eq_iff)
  then show "usage (new_step (n, m) c) = (usage c)(n := listed t qs n)"
    using listed [of n m] by simp
  have "p \<noteq> n" if "map_of g p = Some q" for p q
    using that wf(3) by (force dest: map_of_SomeD)
  then show "syncer_ok (new_step (n, m) c) (AtNew t qs g)"
    using wf(2) listed by fastforce
qed

lemma new_turn_heap:
  assumes "b < length (rqc_heap c)"
  shows "read_quotas b (new_step e c) = read_quotas b c"
  using assms by (cases e) (simp add: new_step_eq bind_new_def read_quotas_def nth_append)

lemma new_turn_pointers: "pointer_ok c ob \<Longrightarrow> pointer_ok (new_step e c) ob"
  using new_fold_pointers [of c "[e]"] pointer_ok_mono by simp


subsection \<open>A turn of a request, by what it does to the data\<close>

text \<open>
  Either it takes the cache and its target along, or it is \<open>GetOrCreate\<close>, or the store of an entry through a
  pointer it holds.
\<close>

lemma request_turn_cases:
  assumes "request_turn A i q s = Some s'"
  obtains (inside) r where "wh_requests s' = (wh_requests s)[i := r]" and "wh_cache s' = wh_cache s"
      and "target r = target q \<or> target r = None"
  | (get) k a where "q = InGetOrCreate k" and "GetOrCreate (call_Name k) (wh_cache s) = (a, wh_cache s')"
      and "wh_requests s' = (wh_requests s)[i := AtMutex a k]"
  | (store) a k entry where "q = AtStore a k entry" and "wh_requests s' = (wh_requests s)[i := AtUnlock a k None]"
      and "wh_cache s' = write_quotas a (mput (rq_Namespace (call_Quota k)) entry (read_quotas a (wh_cache s))) (wh_cache s)"
proof -
  have same: thesis if "wh_requests s' = (wh_requests s)[i := r]" "wh_cache s' = wh_cache s"
    "target r = target q \<or> target r = None" for r
    using inside [OF that] .
  show thesis
  proof (cases q)
    case (AtCacheLock k)
    then show thesis
      using assms same [of "InGetOrCreate k"] by (auto split: if_splits)
  next
    case (InGetOrCreate k)
    then show thesis
      using assms get by (auto split: prod.splits)
  next
    case (AtMutex a k)
    then show thesis
      using assms same [of "AtGet a k"] by (auto split: if_splits)
  next
    case (AtGet a k)
    then obtain r where "wh_requests s' = (wh_requests s)[i := r]" "wh_cache s' = wh_cache s" "target r = target q"
      using assms by (auto split: prod.splits sum.splits)
    then show thesis
      using same by blast
  next
    case (AtSum a k crq)
    then obtain r where "wh_requests s' = (wh_requests s)[i := r]" "wh_cache s' = wh_cache s" "target r = target q"
      using assms by (auto split: sum.splits)
    then show thesis
      using same by blast
  next
    case (AtUpdate a k crq)
    then obtain r where "wh_requests s' = (wh_requests s)[i := r]" "wh_cache s' = wh_cache s" "target r = target q"
      using assms by (auto split: prod.splits sum.splits)
    then show thesis
      using same by blast
  next
    case (AtStore a k entry)
    then show thesis
      using assms store by auto
  next
    case (AtUnlock a k r)
    then obtain p where "wh_requests s' = (wh_requests s)[i := p]" "wh_cache s' = wh_cache s" "target p = None"
      using assms by (auto simp: after_run_def split: option.splits if_splits)
    then show thesis
      using same by blast
  next
    case (Answered r)
    then show thesis
      using assms by simp
  qed
qed

lemma request_turn_syncer: "request_turn A i q s = Some s' \<Longrightarrow> wh_syncer s' = wh_syncer s"
  by (cases q) (auto split: if_splits prod.splits sum.splits option.splits)

lemma in_updateD: "x \<in> set (xs[i := y]) \<Longrightarrow> x = y \<or> x \<in> set xs"
  using set_update_subset_insert [of xs i y] by auto

lemma data_ok_request:
  assumes "data_ok s" and "i < length (wh_requests s)"
    and "request_turn A i (wh_requests s ! i) (s\<lparr>wh_world := w\<rparr>) = Some s'"
  shows "data_ok s'"
proof -
  note ok = data_okD [OF assms(1)]
  have locks: "locks_held s'"
    using locks_held_request [OF ok(1) assms(2,3)] .
  have sync: "wh_syncer s' = wh_syncer s"
    using request_turn_syncer [OF assms(3)] by simp
  have mine: "pointer_ok (wh_cache s) (target (wh_requests s ! i))"
    using ok(4) [OF assms(2)] .
  have others: "pointer_ok (wh_cache s) (target q)" if "q \<in> set (wh_requests s)" for q
    using assms(1) that by (simp add: data_ok_def)
  show ?thesis
    using assms(3)
  proof (cases rule: request_turn_cases)
    case (inside r)
    then show ?thesis
      using ok(2,3) mine others locks sync by (auto simp: data_ok_def dest: in_updateD)
  next
    case (get k a)
    have goc: "GetOrCreate (call_Name k) (wh_cache s) = (a, wh_cache s')"
      using get(2) by simp
    have "\<not> syncing (wh_syncer s)"
      using locks_heldD(1,2) [OF ok(1)] assms(2) get(1) by fastforce
    then have "syncer_ok (wh_cache s') (wh_syncer s)"
      by (cases "wh_syncer s") simp_all
    moreover have "cache_ok (wh_cache s')"
      using cache.goc_ok [OF ok(2) goc] .
    moreover have "pointer_ok (wh_cache s') (target q)" if "q \<in> set (wh_requests s)" for q
      using pointer_ok_mono [OF others [OF that]] GetOrCreate_pointers [OF goc] by blast
    moreover have "pointer_ok (wh_cache s') (target (AtMutex a k))"
      using cache_okD [OF calculation(2) GetOrCreate_lookup [OF goc]] by (simp add: pointer_ok_def)
    ultimately show ?thesis
      using locks sync get(3) by (auto simp: data_ok_def dest: in_updateD)
  next
    case (store a k entry)
    have "a < length (rqc_heap (wh_cache s))"
      using mine by (simp add: store(1) pointer_ok_def)
    then have "cache_ok (wh_cache s')"
      using read_quotas_wf [OF ok(2)] ok(2) by (simp add: store(3) cache_ok_write gm_wf)
    moreover have "syncer_ok (wh_cache s') (wh_syncer s)"
      using syncer_ok_names [OF ok(3)] by (simp add: store(3) cache_simps)
    moreover have "pointer_ok (wh_cache s') (target (AtUnlock a k (None :: 'b option)))"
      using mine by (simp add: store pointer_ok_write)
    ultimately show ?thesis
      using locks sync store(2) others by (auto simp: data_ok_def store(3) pointer_ok_write dest: in_updateD)
  qed
qed

lemma data_ok_syncer:
  assumes "data_ok s" and "syncer_turn A (wh_syncer s) (s\<lparr>wh_world := w\<rparr>) = Some s'"
  shows "data_ok s'"
proof -
  note ok = data_okD [OF assms(1)]
  have locks: "locks_held s'"
    using locks_held_syncer [OF ok(1) assms(2)] .
  have others: "pointer_ok (wh_cache s) (target q)" if "q \<in> set (wh_requests s)" for q
    using assms(1) that by (simp add: data_ok_def)
  show ?thesis
  proof (cases "(A, wh_syncer s, s)" rule: syncer_turn.cases)
    case (5 A' t qs e es g s0)
    obtain c g' w' where step: "existing_step (time_Now (sa_Client A)) e (wh_cache s, g, w) = (c, g', w')"
      by (metis prod_cases3)
    obtain n a where e: "e = (n, a)"
      by fastforce
    have at: "wh_syncer s = AtExisting t qs ((n, a) # es) g"
      using 5 by (auto simp: e)
    have q: "syncer_ok (wh_cache s) (AtExisting t qs ((n, a) # es) g)"
      using ok(3) unfolding at .
    have s': "wh_requests s' = wh_requests s" "wh_cache s' = c" "wh_syncer s' = AtExisting t qs es g'"
      using assms(2) 5 step by auto
    show ?thesis
      using existing_turn(1,2) [OF ok(2) q step [unfolded e]] existing_turn_pointers [OF step] others locks
      by (simp add: data_ok_def s')
  next
    case (7 A' t qs e g s0)
    obtain n m where e: "e = (n, m)"
      by fastforce
    have at: "wh_syncer s = AtNew t qs ((n, m) # g)"
      using 7 by (auto simp: e)
    have q: "syncer_ok (wh_cache s) (AtNew t qs ((n, m) # g))"
      using ok(3) unfolding at .
    have s': "wh_requests s' = wh_requests s" "wh_cache s' = new_step (n, m) (wh_cache s)" "wh_syncer s' = AtNew t qs g"
      using assms(2) 7 by (auto simp: e)
    show ?thesis
      using new_turn(1,2) [OF ok(2) q] new_turn_pointers others locks by (simp add: data_ok_def s')
  next
    case (3 A' qs s0)
    have "syncer_ok (wh_cache s) (AtExisting t qs (rqc_quotacache (wh_cache s)) (group_quotas t qs))" for t
      using ok(2) group_quotas_ok [of t qs] group_quotas_listed [of t qs]
      by (auto simp: cache_ok_def) (metis option.simps(9))
    then show ?thesis
      using assms(2) 3 ok(2) others locks by (auto simp: data_ok_def split: prod.splits)
  qed (use assms(2) ok others locks in \<open>auto simp: data_ok_def split: if_splits\<close>)
qed

lemma data_ok_turn: "turn A s s' \<Longrightarrow> data_ok s \<Longrightarrow> data_ok s'"
  by (elim turnE) (auto intro: data_ok_request data_ok_syncer)

lemma data_ok_step: "webhook_step A s s' \<Longrightarrow> data_ok s \<Longrightarrow> data_ok s'"
proof (induction rule: webhook_step.induct)
  case (arrival k s)
  then have "locks_held (s\<lparr>wh_requests := wh_requests s @ [AtCacheLock k]\<rparr>)"
    using locks_held_step [OF webhook_step.arrival] data_okD(1) by blast
  then show ?case
    using arrival by (auto simp: data_ok_def)
next
  case (tick s qs)
  then show ?case
    by (simp add: data_ok_def locks_held_def)
qed (rule data_ok_turn)

lemma data_ok_steps: "(webhook_step A)\<^sup>*\<^sup>* s s' \<Longrightarrow> data_ok s \<Longrightarrow> data_ok s'"
  by (induction rule: rtranclp_induct) (auto intro: data_ok_step)

lemma data_ok_start: "cache_ok c \<Longrightarrow> data_ok (webhook_start c w)"
  using locks_held_start [of c w] by (simp add: data_ok_def) (simp add: webhook_start_def)


subsection \<open>Who uses which map\<close>

text \<open>
  The Go maps that goroutines share: the map of the cache, and the \<open>Quotas\<close> of every object. A goroutine that
  is at a statement is about to use these maps, and writes those with \<open>True\<close>. The map of a new object
  is nobody else's before it is in the cache.
\<close>

datatype location = NamesMap | QuotasMap address

fun request_uses :: "'e webhook_request \<Rightarrow> (location \<times> bool) list" where
  "request_uses (InGetOrCreate k) = [(NamesMap, True)]"
| "request_uses (AtSum a k crq) = [(QuotasMap a, False)]"
| "request_uses (AtStore a k entry) = [(QuotasMap a, True)]"
| "request_uses (AtCacheLock k) = []"
| "request_uses (AtMutex a k) = []"
| "request_uses (AtGet a k) = []"
| "request_uses (AtUpdate a k crq) = []"
| "request_uses (AtUnlock a k r) = []"
| "request_uses (Answered r) = []"

fun syncer_uses :: "syncer \<Rightarrow> (location \<times> bool) list" where
  "syncer_uses BetweenTicks = []"
| "syncer_uses (AtSyncLock qs) = []"
| "syncer_uses (AtGrouping qs) = [(NamesMap, False)]"
| "syncer_uses (AtExisting t qs [] g) = [(NamesMap, False)]"
| "syncer_uses (AtExisting t qs ((n, a) # es) g) =
    (if map_of g n = None then [(NamesMap, True)] else [(NamesMap, False), (QuotasMap a, True)])"
| "syncer_uses (AtNew t qs []) = []"
| "syncer_uses (AtNew t qs (e # g)) = [(NamesMap, True)]"

text \<open>Two goroutines that use a map at the same time, one of them to write it.\<close>

definition conflict :: "(location \<times> bool) list \<Rightarrow> (location \<times> bool) list \<Rightarrow> bool" where
  "conflict xs ys \<longleftrightarrow> list_ex (\<lambda>(l, wr). list_ex (\<lambda>(l', wr'). l = l' \<and> (wr \<or> wr')) ys) xs"

lemma read_elsewhere: "b \<noteq> a \<Longrightarrow> read_quotas b (write_quotas a qs c) = read_quotas b c"
  by (simp add: read_quotas_def write_quotas_def)

text \<open>The uses are complete: what is not declared written stays as it is.\<close>

definition untouched :: "(location \<times> bool) list \<Rightarrow> resource_quota_cache \<Rightarrow> resource_quota_cache \<Rightarrow> bool" where
  "untouched uses c c' \<longleftrightarrow>
     ((NamesMap, True) \<notin> set uses \<longrightarrow> rqc_quotacache c' = rqc_quotacache c) \<and>
     (\<forall>a < length (rqc_heap c). (QuotasMap a, True) \<notin> set uses \<longrightarrow> read_quotas a c' = read_quotas a c)"

lemma request_uses_complete:
  assumes "request_turn A i q s = Some s'"
  shows "untouched (request_uses q) (wh_cache s) (wh_cache s')"
  using assms
proof (cases rule: request_turn_cases)
  case (get k a)
  then show ?thesis
    using GetOrCreate_pointers(3) [OF get(2)] by (simp add: untouched_def)
next
  case (store a k entry)
  then show ?thesis
    by (simp add: untouched_def read_elsewhere cache_simps)
qed (simp add: untouched_def)

lemma syncer_uses_complete:
  assumes "syncer_turn A q s = Some s'"
  shows "untouched (syncer_uses q) (wh_cache s) (wh_cache s')"
proof (cases "(A, q, s)" rule: syncer_turn.cases)
  case (5 A' t qs e es g s0)
  then show ?thesis
    using assms by (cases e)
      (auto simp: untouched_def existing_step_def read_quotas_def write_quotas_def split: option.splits prod.splits)
next
  case (7 A' t qs e g s0)
  then show ?thesis
    using assms new_turn_heap [of _ "wh_cache s" e] by (cases e) (auto simp: untouched_def)
qed (use assms in \<open>auto simp: untouched_def split: if_splits prod.splits\<close>)

lemma request_uses_held:
  assumes "(l, wr) \<in> set (request_uses q)"
  shows "case l of NamesMap \<Rightarrow> has_cache_lock q | QuotasMap a \<Rightarrow> holds q = Some a"
  using assms by (cases q) simp_all

lemma syncer_uses_held: "(l, wr) \<in> set (syncer_uses q) \<Longrightarrow> syncing q"
  by (cases q) simp_all

lemma syncer_uses_quotas:
  assumes "(QuotasMap a, wr) \<in> set (syncer_uses q)"
  obtains t qs n es g where "q = AtExisting t qs ((n, a) # es) g" and "map_of g n \<noteq> None"
  using assms by (cases q rule: syncer_uses.cases) (auto split: if_splits)

lemma conflictE:
  assumes "conflict xs ys"
  obtains l wr wr' where "(l, wr) \<in> set xs" and "(l, wr') \<in> set ys"
  using assms by (auto simp: conflict_def list_ex_iff)

subsection \<open>What the goroutines do to the ledger\<close>

text \<open>
  The ledger of the theory \<open>Ledger\<close>, but a listing is taken over name by name.
\<close>

inductive entry_step :: "(string \<Rightarrow> resource_list) \<Rightarrow> ledger \<Rightarrow> ledger \<Rightarrow> bool" for H where
  idle: "entry_step H l l"
| charged: "(\<And>k h. map_of (H n) k = Some h \<Longrightarrow> ledger_total (charge n ns u l) n k \<le> h) \<Longrightarrow>
    entry_step H l (charge n ns u l)"
| relisted: "entry_step H l (l(n := ledger_of_listing qs n))"

lemma ledger_of_relisted:
  assumes "usage c' = (usage c)(n := listed t qs n)"
  shows "ledger_of c' = (ledger_of c)(n := ledger_of_listing qs n)"
proof
  fix m
  show "ledger_of c' m = ((ledger_of c)(n := ledger_of_listing qs n)) m"
    using ledger_of_listed [of t qs n] by (simp add: ledger_of_usage assms)
qed

text \<open>
  Between the check and the store; and the moment in which \<open>Sync\<close> is about to change the map of an object that
  some request has checked and will store into.
\<close>

fun checked :: "'e webhook_request \<Rightarrow> address option" where
  "checked (AtUpdate a k crq) = Some a"
| "checked (AtStore a k entry) = Some a"
| "checked (AtGet a k) = None"
| "checked (AtSum a k crq) = None"
| "checked (AtUnlock a k r) = None"
| "checked (AtCacheLock k) = None"
| "checked (InGetOrCreate k) = None"
| "checked (AtMutex a k) = None"
| "checked (Answered r) = None"

definition overtakes :: "('w, 'e) webhook \<Rightarrow> bool" where
  "overtakes s \<longleftrightarrow> list_ex (\<lambda>q. case checked q of None \<Rightarrow> False
     | Some a \<Rightarrow> (QuotasMap a, True) \<in> set (syncer_uses (wh_syncer s))) (wh_requests s)"

text \<open>The steps of requests that are not exempt, when \<open>Sync\<close> does not overtake one.\<close>

inductive calm_webhook_step :: "('raw, 'w, 'e) status_admission \<Rightarrow> ('w, 'e) webhook \<Rightarrow> ('w, 'e) webhook \<Rightarrow> bool" for A where
  calm_request: "i < length (wh_requests s) \<Longrightarrow>
    request_turn A i (wh_requests s ! i) (s\<lparr>wh_world := w\<rparr>) = Some s' \<Longrightarrow> calm_webhook_step A s s'"
| calm_syncer: "\<not> overtakes s \<Longrightarrow> syncer_turn A (wh_syncer s) (s\<lparr>wh_world := w\<rparr>) = Some s' \<Longrightarrow> calm_webhook_step A s s'"
| calm_arrival: "call_Left k = bo_Steps status_backoff \<Longrightarrow> \<not> call_Skip k \<Longrightarrow>
    calm_webhook_step A s (s\<lparr>wh_requests := wh_requests s @ [AtCacheLock k]\<rparr>)"
| calm_tick: "wh_syncer s = BetweenTicks \<Longrightarrow> calm_webhook_step A s (s\<lparr>wh_syncer := AtSyncLock qs\<rparr>)"

lemma calm_webhook_step_any: "calm_webhook_step A s s' \<Longrightarrow> webhook_step A s s'"
  by (induction rule: calm_webhook_step.induct) (auto intro: turn.intros webhook_step.intros)


subsection \<open>What is about to be stored fits\<close>

definition room :: "(string \<Rightarrow> resource_list) \<Rightarrow> resource_quota_cache \<Rightarrow> address \<Rightarrow> call \<Rightarrow> bool" where
  "room L c a k \<longleftrightarrow> (\<forall>x h. map_of (L (call_Name k)) x = Some h \<longrightarrow>
     total_after (read_quotas a c) (call_Quota k) x \<le> h)"

fun fits :: "(string \<Rightarrow> resource_list) \<Rightarrow> resource_quota_cache \<Rightarrow> 'e webhook_request \<Rightarrow> bool" where
  "fits L c (AtCacheLock k) \<longleftrightarrow> \<not> call_Skip k"
| "fits L c (InGetOrCreate k) \<longleftrightarrow> \<not> call_Skip k"
| "fits L c (AtMutex a k) \<longleftrightarrow> \<not> call_Skip k"
| "fits L c (AtGet a k) \<longleftrightarrow> \<not> call_Skip k"
| "fits L c (AtSum a k crq) \<longleftrightarrow> \<not> call_Skip k \<and>
     (\<forall>x h. map_of (L (call_Name k)) x = Some h \<longrightarrow> map_of (crq_Status_Hard crq) x = Some h)"
| "fits L c (AtUpdate a k crq) \<longleftrightarrow> \<not> call_Skip k \<and> room L c a k"
| "fits L c (AtStore a k entry) \<longleftrightarrow> \<not> call_Skip k \<and> room L c a k \<and> rui_Used entry = rq_Status_Used (call_Quota k)"
| "fits L c (AtUnlock a k r) \<longleftrightarrow> \<not> call_Skip k"
| "fits L c (Answered r) \<longleftrightarrow> True"

lemma fits_read:
  assumes "fits L c q" and "\<And>a. checked q = Some a \<Longrightarrow> read_quotas a c' = read_quotas a c"
  shows "fits L c' q"
  using assms by (cases q) (simp_all add: room_def)

lemma checked_holds: "checked q = Some a \<Longrightarrow> holds q = Some a \<and> (\<exists>n. target q = Some (a, n))"
  by (cases q) simp_all

definition calm_webhook :: "(string \<Rightarrow> resource_list) \<Rightarrow> ('w, 'e) webhook \<Rightarrow> bool" where
  "calm_webhook L s \<longleftrightarrow> data_ok s \<and> (\<forall>q \<in> set (wh_requests s). fits L (wh_cache s) q)"

lemma calm_webhookD:
  assumes "calm_webhook L s"
  shows "data_ok s" and "q \<in> set (wh_requests s) \<Longrightarrow> fits L (wh_cache s) q"
  using assms by (simp_all add: calm_webhook_def)

lemma calm_webhook_start: "cache_ok c \<Longrightarrow> calm_webhook L (webhook_start c w)"
  using data_ok_start [of c w] by (simp add: calm_webhook_def) (simp add: webhook_start_def)

lemma checked_others:
  assumes "locks_held s" and "i < length (wh_requests s)" and "holds (wh_requests s ! i) = Some a"
    and "j < length (wh_requests s)" and "checked (wh_requests s ! j) = Some a"
  shows "j = i"
  using locks_heldD(3) [OF assms(1), of a] assms checked_holds [OF assms(5)] by (metis option.inject)

text \<open>A goroutine that leaves the checked objects alone leaves what fits fitting.\<close>

lemma calm_webhookI:
  assumes "calm_webhook L s" and "data_ok s'" and "wh_requests s' = (wh_requests s)[i := r]" and "fits L (wh_cache s') r"
    and "\<And>j a. j \<noteq> i \<Longrightarrow> j < length (wh_requests s) \<Longrightarrow> checked (wh_requests s ! j) = Some a \<Longrightarrow>
      read_quotas a (wh_cache s') = read_quotas a (wh_cache s)"
  shows "calm_webhook L s'"
proof -
  have "fits L (wh_cache s') (wh_requests s' ! j)" if j: "j < length (wh_requests s')" for j
  proof (cases "j = i")
    case True
    then show ?thesis
      using assms(3,4) j by simp
  next
    case False
    then show ?thesis
      using assms(3,5) j fits_read [OF calm_webhookD(2) [OF assms(1), of "wh_requests s ! j"]] by simp
  qed
  then show ?thesis
    using assms(2) by (auto simp: calm_webhook_def in_set_conv_nth)
qed

context limited_env
begin

lemma check_get_limits:
  assumes "check_get A n w = (Inr crq, w')" and "map_of (L n) x = Some h"
  shows "map_of (crq_Status_Hard crq) x = Some h"
  using assms limits [of n w crq x h] by (auto simp: check_get_def split: prod.splits sum.splits if_splits)

lemma check_sum_room:
  assumes "check_sum A rq False qs crq = Inr crq'" and "\<forall>x h. map_of (L n) x = Some h \<longrightarrow> map_of (crq_Status_Hard crq) x = Some h"
    and "map_of (L n) x = Some h"
  shows "total_after qs rq x \<le> h"
proof -
  have "fst (qLessThanOrEqual (sa_Quota A) (new_total (sa_Quota A) qs rq) (crq_Status_Hard crq))"
    using assms(1) by (simp add: check_sum_def new_total_def Let_def split: if_splits)
  then have "within qs rq (crq_Status_Hard crq)"
    by (simp add: within_iff)
  then show ?thesis
    using assms(2,3) limits_pos [OF assms(3)] unnamed_total [of qs rq x] unfolding within_def by metis
qed

lemma check_update_used: "check_update A rq crq w = (Inr entry, w') \<Longrightarrow> rui_Used entry = rq_Status_Used rq"
  by (auto simp: check_update_def split: prod.splits option.splits)

lemma request_turn_fits:
  assumes "fits L (wh_cache s) q" and "request_turn A i q s = Some s'"
  obtains r where "wh_requests s' = (wh_requests s)[i := r]" and "fits L (wh_cache s') r"
proof (cases q)
  case (AtGet a k)
  then show thesis
    using assms that check_get_limits [of "call_Name k" "wh_world s"] by (auto split: prod.splits sum.splits)
next
  case (AtSum a k crq)
  then show thesis
    using assms that check_sum_room [of "call_Quota k" "read_quotas a (wh_cache s)" crq _ "call_Name k"]
    by (auto simp: room_def split: sum.splits)
next
  case (AtUpdate a k crq)
  then show thesis
    using assms that check_update_used [of "call_Quota k" crq "wh_world s"]
    by (auto simp: room_def split: prod.splits sum.splits)
qed (use assms that in \<open>auto simp: after_run_def split: if_splits prod.splits option.splits\<close>)

lemma calm_request_ok:
  assumes "calm_webhook L s" and "i < length (wh_requests s)"
    and "request_turn A i (wh_requests s ! i) (s\<lparr>wh_world := w\<rparr>) = Some s'"
  shows "calm_webhook L s'" and "entry_step L (ledger_of (wh_cache s)) (ledger_of (wh_cache s'))"
proof -
  let ?s = "s\<lparr>wh_world := w\<rparr>"
  have ok: "data_ok s" and fit: "fits L (wh_cache s) (wh_requests s ! i)"
    using calm_webhookD [OF assms(1)] assms(2) by simp_all
  have ok': "data_ok s'"
    using data_ok_request [OF ok assms(2,3)] .
  have pointer: "pointer_ok (wh_cache s) (target (wh_requests s ! j))" if "j < length (wh_requests s)" for j
    using data_okD(4) [OF ok that] .
  obtain r where r: "wh_requests s' = (wh_requests s)[i := r]" "fits L (wh_cache s') r"
    using request_turn_fits [of ?s, OF _ assms(3)] fit by auto
  have "(\<forall>j a. j \<noteq> i \<longrightarrow> j < length (wh_requests s) \<longrightarrow> checked (wh_requests s ! j) = Some a \<longrightarrow>
      read_quotas a (wh_cache s') = read_quotas a (wh_cache s)) \<and>
    entry_step L (ledger_of (wh_cache s)) (ledger_of (wh_cache s'))"
    using assms(3)
  proof (cases rule: request_turn_cases)
    case (inside q)
    then show ?thesis
      by (simp add: entry_step.idle)
  next
    case (get k a)
    have goc: "GetOrCreate (call_Name k) (wh_cache s) = (a, wh_cache s')"
      using get(2) by simp
    have "view (wh_cache s') = (view (wh_cache s))(call_Name k \<mapsto> contents (view (wh_cache s) (call_Name k)))"
      using cache.goc_view [OF data_okD(2) [OF ok] goc] .
    then have "ledger_of (wh_cache s') = ledger_of (wh_cache s)"
      by (simp add: ledger_of_upd ledger_of_def fun_eq_iff)
    moreover have "b < length (rqc_heap (wh_cache s))" if "j < length (wh_requests s)" "checked (wh_requests s ! j) = Some b" for j b
      using pointer [OF that(1)] checked_holds [OF that(2)] by (auto simp: pointer_ok_def)
    ultimately show ?thesis
      using GetOrCreate_pointers(3) [OF goc] by (simp add: entry_step.idle)
  next
    case (store a k entry)
    have "b \<noteq> a" if "j \<noteq> i" "j < length (wh_requests s)" "checked (wh_requests s ! j) = Some b" for j b
      using checked_others [OF data_okD(1) [OF ok] assms(2), of a j] that store(1) by auto
    moreover have "pointer_ok (wh_cache s) (Some (a, call_Name k))"
      using pointer [OF assms(2)] by (simp add: store(1))
    moreover have "rui_Used entry = rq_Status_Used (call_Quota k)" and "room L (wh_cache s) a k"
      using fit by (simp_all add: store(1))
    moreover have "mwf (read_quotas a (wh_cache s))"
      using calculation(2) read_quotas_wf [OF data_okD(2) [OF ok]] by (simp add: pointer_ok_def)
    ultimately show ?thesis
      using ledger_of_store [OF data_okD(2) [OF ok], of a "call_Name k" L "rq_Namespace (call_Quota k)" entry]
        entry_step.idle entry_step.charged
      unfolding store(3) room_def by (simp add: read_elsewhere total_after_mput) metis
  qed
  then show "calm_webhook L s'" and "entry_step L (ledger_of (wh_cache s)) (ledger_of (wh_cache s'))"
    using calm_webhookI [OF assms(1) ok' r] by blast+
qed

lemma calm_syncer_ok:
  assumes "calm_webhook L s" and "\<not> overtakes s"
    and "syncer_turn A (wh_syncer s) (s\<lparr>wh_world := w\<rparr>) = Some s'"
  shows "calm_webhook L s'" and "entry_step L (ledger_of (wh_cache s)) (ledger_of (wh_cache s'))"
proof -
  note ok = calm_webhookD(1) [OF assms(1)]
  have ok': "data_ok s'"
    using data_ok_syncer [OF ok assms(3)] .
  have same: "wh_requests s' = wh_requests s"
    using syncer_turn_rest(1) [of A "s\<lparr>wh_world := w\<rparr>"] assms(3) by simp
  have kept: "read_quotas a (wh_cache s') = read_quotas a (wh_cache s)"
    if q: "q \<in> set (wh_requests s)" and a: "checked q = Some a" for q a
  proof -
    have "pointer_ok (wh_cache s) (target q)"
      using ok q by (simp add: data_ok_def)
    then have "a < length (rqc_heap (wh_cache s))"
      using checked_holds [OF a] by (auto simp: pointer_ok_def)
    moreover have "(QuotasMap a, True) \<notin> set (syncer_uses (wh_syncer s))"
      using assms(2) q a by (force simp: overtakes_def list_ex_iff)
    ultimately show ?thesis
      using syncer_uses_complete [OF assms(3)] by (simp add: untouched_def)
  qed
  then have "fits L (wh_cache s') q" if "q \<in> set (wh_requests s)" for q
    using fits_read [OF calm_webhookD(2) [OF assms(1) that]] that by blast
  then show "calm_webhook L s'"
    using ok' same by (simp add: calm_webhook_def)
  show "entry_step L (ledger_of (wh_cache s)) (ledger_of (wh_cache s'))"
  proof (cases "(A, wh_syncer s, s)" rule: syncer_turn.cases)
    case (5 A' t qs e es g s0)
    obtain n a where e: "e = (n, a)"
      by fastforce
    have at: "wh_syncer s = AtExisting t qs ((n, a) # es) g"
      using 5 by (auto simp: e)
    obtain g' w' where step: "existing_step (time_Now (sa_Client A)) (n, a) (wh_cache s, g, w) = (wh_cache s', g', w')"
      using assms(3) at by (auto split: prod.splits)
    have q: "syncer_ok (wh_cache s) (AtExisting t qs ((n, a) # es) g)"
      using data_okD(3) [OF ok] unfolding at .
    show ?thesis
      using ledger_of_relisted [OF existing_turn(3) [OF data_okD(2) [OF ok] q step]] entry_step.relisted by simp
  next
    case (7 A' t qs e g s0)
    obtain n m where e: "e = (n, m)"
      by fastforce
    have at: "wh_syncer s = AtNew t qs ((n, m) # g)"
      using 7 by (auto simp: e)
    have q: "syncer_ok (wh_cache s) (AtNew t qs ((n, m) # g))"
      using data_okD(3) [OF ok] unfolding at .
    have "wh_cache s' = new_step (n, m) (wh_cache s)"
      using assms(3) at by auto
    then show ?thesis
      using ledger_of_relisted [OF new_turn(3) [OF data_okD(2) [OF ok] q]] entry_step.relisted by simp
  qed (use assms(3) in \<open>auto simp: entry_step.idle split: if_splits prod.splits\<close>)
qed

lemma calm_webhook_step_ok:
  assumes "calm_webhook L s" and "calm_webhook_step A s s'"
  shows "calm_webhook L s' \<and> entry_step L (ledger_of (wh_cache s)) (ledger_of (wh_cache s'))"
  using assms(2)
proof cases
  case (calm_request i w)
  then show ?thesis
    using calm_request_ok [OF assms(1)] by blast
next
  case (calm_syncer w)
  then show ?thesis
    using calm_syncer_ok [OF assms(1)] by blast
next
  case (calm_arrival k)
  have "data_ok s'"
    using data_ok_step [OF calm_webhook_step_any [OF assms(2)] calm_webhookD(1) [OF assms(1)]] .
  then show ?thesis
    using assms(1) calm_arrival by (auto simp: calm_webhook_def entry_step.idle)
next
  case (calm_tick qs)
  have "data_ok s'"
    using data_ok_step [OF calm_webhook_step_any [OF assms(2)] calm_webhookD(1) [OF assms(1)]] .
  then show ?thesis
    using assms(1) calm_tick by (auto simp: calm_webhook_def entry_step.idle)
qed

end

sublocale limited_env \<subseteq> goroutines: forward_simulation "calm_webhook_step A" "entry_step L"
  "\<lambda>s. ledger_of (wh_cache s)" "calm_webhook L"
  by unfold_locales (blast dest: calm_webhook_step_ok)+


context limited_env
begin

lemma goroutines_run:
  "(calm_webhook_step A)\<^sup>*\<^sup>* s s' \<Longrightarrow> calm_webhook L s \<Longrightarrow>
   (entry_step L)\<^sup>*\<^sup>* (ledger_of (wh_cache s)) (ledger_of (wh_cache s'))"
  using goroutines.run by blast

end

lemma turn_length: "turn A s s' \<Longrightarrow> length (wh_requests s') = length (wh_requests s)"
  by (elim turnE) (auto elim!: request_turn_rest dest: syncer_turn_rest(1) [of A "s\<lparr>wh_world := w\<rparr>" for A s w, simplified])

subsection \<open>One request alone\<close>

text \<open>The turns of one run, with nobody else in between, are the \<open>validate\<close> of the handler.\<close>

fun request_turns :: "('raw, 'w, 'e) status_admission \<Rightarrow> nat \<Rightarrow> nat \<Rightarrow> ('w, 'e) webhook \<Rightarrow> ('w, 'e) webhook option" where
  "request_turns A i 0 s = Some s"
| "request_turns A i (Suc m) s =
    (case request_turn A i (wh_requests s ! i) s of None \<Rightarrow> None | Some s' \<Rightarrow> request_turns A i m s')"

lemma closure_turns:
  assumes "i < length (wh_requests s)" and "wh_mutex s a = Some i"
    and "OnLock a (validate_locked A (call_Quota k) (call_Name k) (call_Skip k)) (wh_cache s) (wh_world s) = (r, c', w')"
  shows "\<exists>m \<le> 5. request_turns A i m (move i (AtGet a k) s) =
    Some (move i (after_run A k r) (s\<lparr>wh_cache := c', wh_world := w', wh_mutex := (wh_mutex s)(a := None)\<rparr>))"
proof -
  let ?qs = "read_quotas a (wh_cache s)"
  have same: "write_quotas a ?qs (wh_cache s) = wh_cache s"
    by (simp add: write_quotas_def read_quotas_def)
  have over: "move i q (move i p t) = move i q t" for q p and t :: "('b, 'c) webhook"
    by (simp add: move_def)
  obtain v w1 where get: "check_get A (call_Name k) (wh_world s) = (v, w1)"
    by fastforce
  show ?thesis
  proof (cases v)
    case (Inl e)
    then have "r = e \<and> c' = wh_cache s \<and> w' = w1"
      using assms(3) get same by (simp add: OnLock_def validate_locked_def validate_check_parts)
    then show ?thesis
      using get Inl assms(1) by (intro exI [of _ 2]) (simp add: numeral_2_eq_2 over)
  next
    case (Inr crq)
    note found = this
    show ?thesis
    proof (cases "check_sum A (call_Quota k) (call_Skip k) ?qs crq")
      case (Inl e)
      then have "r = Some e \<and> c' = wh_cache s \<and> w' = w1"
        using assms(3) get same found by (simp add: OnLock_def validate_locked_def validate_check_parts)
      then show ?thesis
        using get found Inl assms(1) by (intro exI [of _ 3]) (simp add: numeral_3_eq_3 over)
    next
      case (Inr crq')
      obtain u w2 where update: "check_update A (call_Quota k) crq' w1 = (u, w2)"
        by fastforce
      show ?thesis
      proof (cases u)
        case (Inl e)
        then have "r = Some e \<and> c' = wh_cache s \<and> w' = w2"
          using assms(3) get same found Inr update by (simp add: OnLock_def validate_locked_def validate_check_parts)
        then show ?thesis
          using get found Inr update Inl assms(1) by (intro exI [of _ 4]) (simp add: eval_nat_numeral over)
      next
        case stored: (Inr entry)
        then have "r = None \<and> w' = w2 \<and> c' = write_quotas a (mput (rq_Namespace (call_Quota k)) entry ?qs) (wh_cache s)"
          using assms(3) get same found Inr update by (simp add: OnLock_def validate_locked_def validate_check_parts)
        then show ?thesis
          using get found Inr update stored assms(1) by (intro exI [of _ 5]) (simp add: eval_nat_numeral over)
      qed
    qed
  qed
qed


lemma uninterrupted_call:
  assumes "i < length (wh_requests s)" and "wh_requests s ! i = AtCacheLock k"
    and "wh_lock s = None" and "wh_mutex s = (\<lambda>_. None)"
    and "validate A (call_Quota k) (call_Name k) (call_Skip k) (wh_cache s, wh_world s) = (r, c', w')"
  shows "\<exists>m \<le> 8. request_turns A i m s = Some (move i (after_run A k r) (s\<lparr>wh_cache := c', wh_world := w'\<rparr>))"
proof -
  obtain a c where goc: "GetOrCreate (call_Name k) (wh_cache s) = (a, c)"
    by fastforce
  let ?s = "s\<lparr>wh_cache := c, wh_lock := None, wh_mutex := (wh_mutex s)(a := Some i)\<rparr>"
  have "OnLock a (validate_locked A (call_Quota k) (call_Name k) (call_Skip k)) (wh_cache ?s) (wh_world ?s) = (r, c', w')"
    using assms(5) goc by (simp add: validate_def)
  then obtain m where m: "m \<le> 5" "request_turns A i m (move i (AtGet a k) ?s) =
      Some (move i (after_run A k r) (?s\<lparr>wh_cache := c', wh_world := w', wh_mutex := (wh_mutex ?s)(a := None)\<rparr>))"
    using closure_turns [of i ?s a A k r c' w'] assms(1) by auto
  have "request_turns A i (Suc (Suc (Suc m))) s = request_turns A i m (move i (AtGet a k) ?s)"
    using assms(1-4) goc by (simp add: move_def)
  moreover have "?s\<lparr>wh_cache := c', wh_world := w', wh_mutex := (wh_mutex ?s)(a := None)\<rparr> = s\<lparr>wh_cache := c', wh_world := w'\<rparr>"
    using assms(3,4) by (cases s) (simp add: fun_upd_idem)
  ultimately show ?thesis
    using m by (intro exI [of _ "Suc (Suc (Suc m))"]) (simp del: request_turns.simps)
qed

subsection \<open>Schedules\<close>

text \<open>A schedule says who is next; a turn that has to wait is skipped.\<close>

datatype event = Ask call | Run nat | RunSync | Listing "resource_quota list"

fun perform :: "('raw, 'w, 'e) status_admission \<Rightarrow> event \<Rightarrow> ('w, 'e) webhook \<Rightarrow> ('w, 'e) webhook" where
  "perform A (Ask k) s = s\<lparr>wh_requests := wh_requests s @ [AtCacheLock k]\<rparr>"
| "perform A (Run i) s =
    (if i < length (wh_requests s) then
      (case request_turn A i (wh_requests s ! i) s of None \<Rightarrow> s | Some s' \<Rightarrow> s')
     else s)"
| "perform A RunSync s = (case syncer_turn A (wh_syncer s) s of None \<Rightarrow> s | Some s' \<Rightarrow> s')"
| "perform A (Listing qs) s = (if wh_syncer s = BetweenTicks then s\<lparr>wh_syncer := AtSyncLock qs\<rparr> else s)"

fun is_turn :: "event \<Rightarrow> bool" where
  "is_turn (Run i) = True"
| "is_turn RunSync = True"
| "is_turn (Ask k) = False"
| "is_turn (Listing qs) = False"

fun calm_event :: "event \<Rightarrow> ('w, 'e) webhook \<Rightarrow> bool" where
  "calm_event (Ask k) s \<longleftrightarrow> call_Left k = bo_Steps status_backoff \<and> \<not> call_Skip k"
| "calm_event RunSync s \<longleftrightarrow> \<not> overtakes s"
| "calm_event (Run i) s \<longleftrightarrow> True"
| "calm_event (Listing qs) s \<longleftrightarrow> True"

lemma perform_turn: "is_turn e \<Longrightarrow> (turn A)\<^sup>*\<^sup>* s (perform A e s)"
  using turn.request [of _ s A "wh_world s"] turn.syncer [of A s "wh_world s"]
  by (cases e) (auto split: option.split)

lemma perform_calm: "calm_event e s \<Longrightarrow> (calm_webhook_step A)\<^sup>*\<^sup>* s (perform A e s)"
  using calm_request [of _ s A "wh_world s"] calm_syncer [of s A "wh_world s"]
  by (cases e) (auto intro: calm_arrival calm_tick split: option.split)

fun calm_schedule :: "('raw, 'w, 'e) status_admission \<Rightarrow> event list \<Rightarrow> ('w, 'e) webhook \<Rightarrow> bool" where
  "calm_schedule A [] s \<longleftrightarrow> True"
| "calm_schedule A (e # es) s \<longleftrightarrow> calm_event e s \<and> calm_schedule A es (perform A e s)"

lemma schedule_turns: "list_all is_turn es \<Longrightarrow> (turn A)\<^sup>*\<^sup>* s (fold (perform A) es s)"
  by (induction es arbitrary: s) (auto intro: rtranclp_trans [OF perform_turn])

lemma schedule_calm: "calm_schedule A es s \<Longrightarrow> (calm_webhook_step A)\<^sup>*\<^sup>* s (fold (perform A) es s)"
  by (induction es arbitrary: s) (auto intro: rtranclp_trans [OF perform_calm])

lemma calm_steps_any: "(calm_webhook_step A)\<^sup>*\<^sup>* s s' \<Longrightarrow> (webhook_step A)\<^sup>*\<^sup>* s s'"
  using mono_rtranclp [of "calm_webhook_step A" "webhook_step A"] calm_webhook_step_any by blast

text \<open>
  A request for \<open>ns2\<close> is about to add up the usages; meanwhile a listing has arrived, and \<open>Sync\<close> is about to
  rewrite the same map.
\<close>

definition demo_call :: call where
  "demo_call = \<lparr>call_Quota = demo_quota ''team'' ''ns2'' 2, call_Name = ''team'', call_Skip = False,
     call_Left = bo_Steps status_backoff\<rparr>"

definition racing_schedule :: "event list" where
  "racing_schedule = [Ask demo_call, Run 0, Run 0, Run 0, Run 0, Listing [demo_quota ''team'' ''ns1'' 7], RunSync, RunSync]"

definition racing :: "(mem_world, ref_error) webhook" where
  "racing = fold (perform fixed_status) racing_schedule (webhook_start demo_cache status_world)"

text \<open>Then \<open>Sync\<close> visits the entry before the request has added up, and is done before the request stores.\<close>

definition settling_schedule :: "event list" where
  "settling_schedule = [RunSync, Run 0, RunSync, Run 0, RunSync, Run 0, Run 0]"

definition settled :: "(mem_world, ref_error) webhook" where
  "settled = fold (perform fixed_status) settling_schedule racing"

lemma settled_calm: "(calm_webhook_step fixed_status)\<^sup>*\<^sup>* (webhook_start demo_cache status_world) settled"
proof -
  have "calm_schedule fixed_status (racing_schedule @ settling_schedule) (webhook_start demo_cache status_world)"
    by code_simp
  from schedule_calm [OF this] show ?thesis
    by (simp add: settled_def racing_def)
qed

lemma racing_calm: "(calm_webhook_step fixed_status)\<^sup>*\<^sup>* (webhook_start demo_cache status_world) racing"
proof -
  have "calm_schedule fixed_status racing_schedule (webhook_start demo_cache status_world)"
    by code_simp
  then show ?thesis
    unfolding racing_def by (rule schedule_calm)
qed

lemma settled_turns: "(turn fixed_status)\<^sup>*\<^sup>* racing settled"
  unfolding settled_def by (rule schedule_turns) (simp add: settling_schedule_def)

lemma settled_end: "wh_requests settled = [Answered None] \<and> wh_syncer settled = BetweenTicks"
  by code_simp

lemma settled_stuck: "\<nexists>s. turn fixed_status settled s"
  using settled_end by (auto elim!: turnE simp: less_Suc_eq)

subsection \<open>Properties\<close>

text \<open>
  C8. Every request is answered. From any state the goroutines can reach, with whatever requests, retries
  and rounds of \<open>Sync\<close> under way and whatever happens in the world in between: they cannot take turns for ever, and
  when none of them can take a turn, then not because they wait for each other, but because every
  request has its answer, \<open>Sync\<close> is done, and all locks are free. No fair scheduler is needed.
\<close>
theorem every_request_is_answered:
  assumes "(webhook_step A)\<^sup>*\<^sup>* (webhook_start c w) s"
  shows "(\<nexists>f. f 0 = s \<and> (\<forall>i. turn A (f i) (f (Suc i)))) \<and>
    (\<forall>s'. (turn A)\<^sup>*\<^sup>* s s' \<longrightarrow> (\<nexists>s''. turn A s' s'') \<longrightarrow>
      length (wh_requests s') = length (wh_requests s) \<and> list_all answered (wh_requests s') \<and>
      wh_syncer s' = BetweenTicks \<and> wh_lock s' = None \<and> wh_mutex s' = (\<lambda>_. None))"
proof (intro conjI allI impI)
  show "\<nexists>f. f 0 = s \<and> (\<forall>i. turn A (f i) (f (Suc i)))"
    using no_endless_turns [of A] by blast
  fix s'
  assume run: "(turn A)\<^sup>*\<^sup>* s s'" and stuck: "\<nexists>s''. turn A s' s''"
  have "(webhook_step A)\<^sup>*\<^sup>* s s'"
    using run mono_rtranclp [of "turn A" "webhook_step A"] webhook_step.turn by blast
  then have locks: "locks_held s'"
    using locks_held_steps [OF rtranclp_trans [OF assms]] by simp
  show "length (wh_requests s') = length (wh_requests s)"
    using run by (induction rule: rtranclp_induct) (simp_all add: turn_length)
  show sleeping: "wh_syncer s' = BetweenTicks" and all: "list_all answered (wh_requests s')"
    using no_deadlock [OF locks] stuck by blast+
  have quiet: "holds (wh_requests s' ! i) = None \<and> \<not> has_cache_lock (wh_requests s' ! i)" if "i < length (wh_requests s')" for i
  proof -
    have "answered (wh_requests s' ! i)"
      using all that by (simp add: list_all_length)
    then show ?thesis
      by (cases "wh_requests s' ! i") simp_all
  qed
  show "wh_lock s' = None"
  proof (cases "wh_lock s'")
    case (Some ow)
    then show ?thesis
      using locks_heldD(1,2) [OF locks] sleeping quiet by (cases ow) auto
  qed
  show "wh_mutex s' = (\<lambda>_. None)"
  proof
    fix a
    show "wh_mutex s' a = None"
      using locks_heldD(3) [OF locks, of a "the (wh_mutex s' a)"] quiet [of "the (wh_mutex s' a)"]
      by (cases "wh_mutex s' a") auto
  qed
qed

theorem every_request_is_answered_witness:
  "\<not> (\<exists>f. f 0 = racing \<and> (\<forall>i. turn fixed_status (f i) (f (Suc i)))) \<and>
    length (wh_requests settled) = length (wh_requests racing) \<and> wh_lock settled = None \<and> wh_mutex settled = (\<lambda>_. None)"
  using every_request_is_answered [OF calm_steps_any [OF racing_calm]] settled_turns settled_stuck by blast

text \<open>
  C15. Who can use a map at the same time. In any state the goroutines can reach, two requests never do, and the map of
  the cache is never used by two. The one overlap there is, is \<open>Sync\<close>, with the lock of the cache but
  without the mutex, rewriting the \<open>Quotas\<close> of an object while the request that holds its mutex
  adds them up or stores into them: two uses of a Go map at the same time, one of them a write, for which the Go run
  time stops the process.
\<close>
theorem only_sync_overlaps:
  assumes "(webhook_step A)\<^sup>*\<^sup>* (webhook_start c w) s" and "i < length (wh_requests s)"
  shows "(\<forall>j < length (wh_requests s). conflict (request_uses (wh_requests s ! i)) (request_uses (wh_requests s ! j)) \<longrightarrow> j = i) \<and>
    (conflict (request_uses (wh_requests s ! i)) (syncer_uses (wh_syncer s)) \<longrightarrow>
      (\<exists>a t qs n es g k. wh_syncer s = AtExisting t qs ((n, a) # es) g \<and> map_of g n \<noteq> None \<and>
        wh_mutex s a = Some i \<and> wh_lock s = Some Syncer \<and>
        ((\<exists>crq. wh_requests s ! i = AtSum a k crq) \<or> (\<exists>entry. wh_requests s ! i = AtStore a k entry))))"
proof (intro conjI allI impI)
  have locks: "locks_held s"
    using locks_held_steps [OF assms(1)] by simp
  note held = locks_heldD [OF locks]
  show "j = i" if j: "j < length (wh_requests s)"
    and both: "conflict (request_uses (wh_requests s ! i)) (request_uses (wh_requests s ! j))" for j
  proof -
    obtain l wr wr' where both: "(l, wr) \<in> set (request_uses (wh_requests s ! i))"
        "(l, wr') \<in> set (request_uses (wh_requests s ! j))"
      using both by (rule conflictE)
    show ?thesis
      using request_uses_held [OF both(1)] request_uses_held [OF both(2)] held(1) held(3) assms(2) j
      by (cases l) (auto, metis option.inject owner.inject, metis option.inject)
  qed
  assume "conflict (request_uses (wh_requests s ! i)) (syncer_uses (wh_syncer s))"
  then obtain l wr wr' where both: "(l, wr) \<in> set (request_uses (wh_requests s ! i))"
      "(l, wr') \<in> set (syncer_uses (wh_syncer s))"
    by (rule conflictE)
  have sync: "wh_lock s = Some Syncer"
    using syncer_uses_held [OF both(2)] held(2) by simp
  then have "\<not> has_cache_lock (wh_requests s ! i)"
    using held(1) [of i] assms(2) by simp
  then obtain a where l: "l = QuotasMap a" and mutex: "holds (wh_requests s ! i) = Some a"
    using request_uses_held [OF both(1)] by (cases l) auto
  obtain t qs n es g where "wh_syncer s = AtExisting t qs ((n, a) # es) g" "map_of g n \<noteq> None"
    using syncer_uses_quotas both(2) unfolding l by metis
  moreover have "\<exists>k. (\<exists>crq. wh_requests s ! i = AtSum a k crq) \<or> (\<exists>entry. wh_requests s ! i = AtStore a k entry)"
    using both(1) unfolding l by (cases "wh_requests s ! i") auto
  moreover have "wh_mutex s a = Some i"
    using held(3) mutex assms(2) by blast
  ultimately show "\<exists>a t qs n es g k. wh_syncer s = AtExisting t qs ((n, a) # es) g \<and> map_of g n \<noteq> None \<and>
      wh_mutex s a = Some i \<and> wh_lock s = Some Syncer \<and>
      ((\<exists>crq. wh_requests s ! i = AtSum a k crq) \<or> (\<exists>entry. wh_requests s ! i = AtStore a k entry))"
    using sync by blast
qed

theorem only_sync_overlaps_witness:
  "conflict (request_uses (wh_requests racing ! 0)) (syncer_uses (wh_syncer racing)) \<and>
    (\<exists>a. wh_mutex racing a = Some 0) \<and> wh_lock racing = Some Syncer"
proof -
  have overlap: "conflict (request_uses (wh_requests racing ! 0)) (syncer_uses (wh_syncer racing))"
    by code_simp
  have "0 < length (wh_requests racing)"
    by code_simp
  from only_sync_overlaps [OF calm_steps_any [OF racing_calm] this] overlap show ?thesis
    by blast
qed

text \<open>
  C7. The goroutines refine the ledger, lock by lock and statement by statement. Take hard limits that are not negative
  and requests of users who are not exempt, and let \<open>Sync\<close> go on any time except when it is about to rewrite
  the map of an object between the check and the store of a request (nothing in the code prevents
  that). Then, however the requests, their retries, the entries that \<open>Sync\<close> visits and the world interleave,
  what the cache stands for goes through a run of the ledger: nothing happens, or one namespace is charged and the
  total then fits every hard limit of its ClusterResourceQuota, or one ClusterResourceQuota becomes what the listing
  says of it. \<open>Sync\<close> is not one step of it: requests are admitted between one ClusterResourceQuota and the next.
\<close>
theorem goroutines_refine_ledger:
  assumes "status_env A stored"
    and "\<forall>n w crq. fst (Get_crq (sa_Client A) n w) = Inr crq \<longrightarrow> crq_Status_Hard crq = H n"
    and "\<forall>n k h. map_of (H n) k = Some h \<longrightarrow> 0 \<le> h"
    and "cache_ok c" and "(calm_webhook_step A)\<^sup>*\<^sup>* (webhook_start c w) s"
  shows "(entry_step H)\<^sup>*\<^sup>* (ledger_of c) (ledger_of (wh_cache s))"
proof -
  have "limited_env A stored H"
    using assms(1-3) by (simp add: limited_env_def limited_env_axioms_def)
  from limited_env.goroutines_run [OF this assms(5) calm_webhook_start [OF assms(4)]] show ?thesis
    by (simp add: webhook_start_def)
qed


theorem goroutines_refine_ledger_witness:
  "(entry_step (\<lambda>_. [(''cpu'', Quantity 10)]))\<^sup>*\<^sup>* (ledger_of demo_cache) (ledger_of (wh_cache settled)) \<and>
    map_option (\<lambda>u. u ''cpu'') (ledger_of (wh_cache settled) ''team'' ''ns2'') = Some (Quantity 2) \<and>
    ledger_of demo_cache ''team'' ''ns2'' = None"
proof (intro conjI goroutines_refine_ledger [OF status_env_fixed _ _ demo_cache_ok settled_calm])
  show "\<forall>n w crq. fst (Get_crq (sa_Client fixed_status) n w) = Inr crq \<longrightarrow>
      crq_Status_Hard crq = [(''cpu'', Quantity 10)]"
    by (auto simp: fixed_status_def fixed_client_def split: sum.splits)
  show "\<forall>n k h. map_of [(''cpu'', Quantity 10)] k = Some h \<longrightarrow> 0 \<le> h"
    using limited_env.limits_pos [OF limited_env_fixed] by blast
  show "map_option (\<lambda>u. u ''cpu'') (ledger_of (wh_cache settled) ''team'' ''ns2'') = Some (Quantity 2)"
    by code_simp
  show "ledger_of demo_cache ''team'' ''ns2'' = None"
    by code_simp
qed

end
