(* ===== verification/Clientset.thy ===== *)
theory Clientset
  imports Externals
begin

section \<open>The generated clients (\<open>generated/clientset/versioned\<close>)\<close>

text \<open>
  \<open>Clientset\<close> bundles a discovery client and the client of the group \<open>quota.xiaoshiai.cn/v1\<close>. The
  constructors copy the configuration, fill in what is missing and hand it to client-go. What client-go
  makes of a configuration is a parameter; the theory is about what it is given: which errors stop
  the construction, and that all clients of one clientset share one HTTP client and one rate
  limiter.

  \<open>c *rest.Config\<close> may be nil. \<open>*c\<close> copies the struct, so nothing is written into the caller's
  configuration: the constructors here take a value.
\<close>

subsection \<open>Configuration and library\<close>

text \<open>
  The fields of \<open>rest.Config\<close> that this code reads or writes; \<open>'f\<close> is \<open>float32\<close>, \<open>'l\<close> a rate limiter,
  \<open>'z\<close> a serializer and \<open>'r\<close> the other fields.
\<close>

type_synonym group_version = "string \<times> string"

record ('f, 'l, 'z, 'r) rest_config =
  cfg_GroupVersion :: "group_version option"
  cfg_APIPath :: string
  cfg_NegotiatedSerializer :: "'z option"
  cfg_UserAgent :: string
  cfg_RateLimiter :: "'l option"
  cfg_QPS :: 'f
  cfg_Burst :: int
  cfg_Other :: 'r

text \<open>
  client-go over a world \<open>'w\<close>, with HTTP clients \<open>'h\<close>, REST clients \<open>'c\<close> and discovery clients \<open>'d\<close>.
  \<open>lib_positive\<close> is the comparison of a \<open>float32\<close> with zero.
\<close>

record ('f, 'l, 'z, 'r, 'h, 'c, 'd, 'w, 'e) rest_lib =
  lib_DefaultKubernetesUserAgent :: string
  lib_serializer :: 'z
  lib_positive :: "'f \<Rightarrow> bool"
  lib_HTTPClientFor :: "('f, 'l, 'z, 'r) rest_config \<Rightarrow> 'w \<Rightarrow> ('e + 'h) \<times> 'w"
  lib_NewTokenBucketRateLimiter :: "'f \<Rightarrow> int \<Rightarrow> 'w \<Rightarrow> 'l \<times> 'w"
  lib_RESTClientForConfigAndClient :: "('f, 'l, 'z, 'r) rest_config \<Rightarrow> 'h \<Rightarrow> 'w \<Rightarrow> ('e + 'c) \<times> 'w"
  lib_NewDiscoveryClientForConfigAndClient :: "('f, 'l, 'z, 'r) rest_config \<Rightarrow> 'h \<Rightarrow> 'w \<Rightarrow> ('e + 'd) \<times> 'w"
  lib_NewDiscoveryClient :: "'c option \<Rightarrow> 'd"
  lib_Errors :: "'e err_lib"

text \<open>A constructor panics on a nil configuration, fails with an error, or succeeds.\<close>

datatype 'e panic_value = RuntimePanic go_panic | ErrorPanic 'e

type_synonym ('e, 'a) constructed = "go_panic + ('e + 'a)"

subsection \<open>The client of the group (\<open>typed/quota/v1/quota_client.go\<close>)\<close>

text \<open>\<open>restClient\<close> is an interface, which may be nil.\<close>

record 'c quota_client =
  qcl_restClient :: "'c option"

definition SchemeGroupVersion :: group_version where
  "SchemeGroupVersion = (GroupName, ''v1'')"

definition setConfigDefaults ::
  "('f, 'l, 'z, 'r, 'h, 'c, 'd, 'w, 'e) rest_lib \<Rightarrow> ('f, 'l, 'z, 'r) rest_config \<Rightarrow> ('f, 'l, 'z, 'r) rest_config" where
  "setConfigDefaults L config =
    (let gv = SchemeGroupVersion;
         config = config\<lparr>cfg_GroupVersion := Some gv\<rparr>;
         config = config\<lparr>cfg_APIPath := ''/apis''\<rparr>;
         config = config\<lparr>cfg_NegotiatedSerializer := Some (lib_serializer L)\<rparr> in
     if cfg_UserAgent config = [] then config\<lparr>cfg_UserAgent := lib_DefaultKubernetesUserAgent L\<rparr> else config)"

definition QuotaV1_NewForConfigAndClient ::
  "('f, 'l, 'z, 'r, 'h, 'c, 'd, 'w, 'e) rest_lib \<Rightarrow> ('f, 'l, 'z, 'r) rest_config option \<Rightarrow> 'h \<Rightarrow> 'w \<Rightarrow>
   ('e, 'c quota_client) constructed \<times> 'w" where
  "QuotaV1_NewForConfigAndClient L c h w =
    (case c of
      None \<Rightarrow> (Inl NilDereference, w)
    | Some config \<Rightarrow>
        let config = setConfigDefaults L config in
        (case lib_RESTClientForConfigAndClient L config h w of
          (Inl err, w') \<Rightarrow> (Inr (Inl err), w')
        | (Inr client, w') \<Rightarrow> (Inr (Inr \<lparr>qcl_restClient = Some client\<rparr>), w')))"

definition QuotaV1_NewForConfig ::
  "('f, 'l, 'z, 'r, 'h, 'c, 'd, 'w, 'e) rest_lib \<Rightarrow> ('f, 'l, 'z, 'r) rest_config option \<Rightarrow> 'w \<Rightarrow>
   ('e, 'c quota_client) constructed \<times> 'w" where
  "QuotaV1_NewForConfig L c w =
    (case c of
      None \<Rightarrow> (Inl NilDereference, w)
    | Some config \<Rightarrow>
        let config = setConfigDefaults L config in
        (case lib_HTTPClientFor L config w of
          (Inl err, w') \<Rightarrow> (Inr (Inl err), w')
        | (Inr httpClient, w') \<Rightarrow> QuotaV1_NewForConfigAndClient L (Some config) httpClient w'))"

text \<open>The \<open>OrDie\<close> constructors of both packages: an error becomes a panic with that error.\<close>

definition OrDie :: "('e, 'a) constructed \<times> 'w \<Rightarrow> ('e panic_value + 'a) \<times> 'w" where
  "OrDie r =
    (case r of
      (Inl p, w) \<Rightarrow> (Inl (RuntimePanic p), w)
    | (Inr (Inl err), w) \<Rightarrow> (Inl (ErrorPanic err), w)
    | (Inr (Inr client), w) \<Rightarrow> (Inr client, w))"

definition QuotaV1_NewForConfigOrDie ::
  "('f, 'l, 'z, 'r, 'h, 'c, 'd, 'w, 'e) rest_lib \<Rightarrow> ('f, 'l, 'z, 'r) rest_config option \<Rightarrow> 'w \<Rightarrow>
   ('e panic_value + 'c quota_client) \<times> 'w" where
  "QuotaV1_NewForConfigOrDie L c w = OrDie (QuotaV1_NewForConfig L c w)"

definition QuotaV1_New :: "'c option \<Rightarrow> 'c quota_client" where
  "QuotaV1_New c = \<lparr>qcl_restClient = c\<rparr>"

text \<open>The receiver may be nil: the method then answers with a nil interface.\<close>

definition RESTClient :: "'c quota_client option \<Rightarrow> 'c option" where
  "RESTClient c = (case c of None \<Rightarrow> None | Some q \<Rightarrow> qcl_restClient q)"

text \<open>
  The typed clients are instances of the generic client of client-go: what they add is the
  resource, the REST client and the namespace.
\<close>

record 'c gentype_client =
  gc_resource :: string
  gc_client :: "'c option"
  gc_namespace :: string

definition newResourceQuotas :: "'c quota_client option \<Rightarrow> string \<Rightarrow> 'c gentype_client" where
  "newResourceQuotas c namespace =
    \<lparr>gc_resource = ''resourcequotas'', gc_client = RESTClient c, gc_namespace = namespace\<rparr>"

definition newClusterResourceQuotas :: "'c quota_client option \<Rightarrow> 'c gentype_client" where
  "newClusterResourceQuotas c =
    \<lparr>gc_resource = ''clusterresourcequotas'', gc_client = RESTClient c, gc_namespace = []\<rparr>"

definition QuotaV1_ResourceQuotas :: "'c quota_client option \<Rightarrow> string \<Rightarrow> 'c gentype_client" where
  "QuotaV1_ResourceQuotas c namespace = newResourceQuotas c namespace"

definition QuotaV1_ClusterResourceQuotas :: "'c quota_client option \<Rightarrow> 'c gentype_client" where
  "QuotaV1_ClusterResourceQuotas c = newClusterResourceQuotas c"

subsection \<open>The clientset (\<open>clientset.go\<close>)\<close>

record ('c, 'd) clientset =
  cs_DiscoveryClient :: "'d option"
  cs_quotaV1 :: "'c quota_client option"

definition Clientset_QuotaV1 :: "('c, 'd) clientset option \<Rightarrow> go_panic + 'c quota_client option" where
  "Clientset_QuotaV1 c = (case c of None \<Rightarrow> Inl NilDereference | Some cs \<Rightarrow> Inr (cs_quotaV1 cs))"

text \<open>The outer \<open>None\<close> is a nil interface, the inner one a nil pointer inside an interface.\<close>

definition Clientset_Discovery :: "('c, 'd) clientset option \<Rightarrow> 'd option option" where
  "Clientset_Discovery c = (case c of None \<Rightarrow> None | Some cs \<Rightarrow> Some (cs_DiscoveryClient cs))"

text \<open>The first lines of \<open>NewForConfigAndClient\<close>: a rate limiter for the clients to share.\<close>

definition with_RateLimiter ::
  "('f, 'l, 'z, 'r, 'h, 'c, 'd, 'w, 'e) rest_lib \<Rightarrow> ('f, 'l, 'z, 'r) rest_config \<Rightarrow> 'w \<Rightarrow>
   ('e + ('f, 'l, 'z, 'r) rest_config) \<times> 'w" where
  "with_RateLimiter L configShallowCopy w =
    (if cfg_RateLimiter configShallowCopy = None \<and> lib_positive L (cfg_QPS configShallowCopy) then
       if cfg_Burst configShallowCopy \<le> 0 then
         (Inl (Errorf (lib_Errors L)
           ''burst is required to be greater than 0 when RateLimiter is not set and QPS is set to greater than 0'' []), w)
       else
         (case lib_NewTokenBucketRateLimiter L (cfg_QPS configShallowCopy) (cfg_Burst configShallowCopy) w of
           (limiter, w') \<Rightarrow> (Inr (configShallowCopy\<lparr>cfg_RateLimiter := Some limiter\<rparr>), w'))
     else (Inr configShallowCopy, w))"

definition Clientset_NewForConfigAndClient ::
  "('f, 'l, 'z, 'r, 'h, 'c, 'd, 'w, 'e) rest_lib \<Rightarrow> ('f, 'l, 'z, 'r) rest_config option \<Rightarrow> 'h \<Rightarrow> 'w \<Rightarrow>
   ('e, ('c, 'd) clientset) constructed \<times> 'w" where
  "Clientset_NewForConfigAndClient L c httpClient w =
    (case c of
      None \<Rightarrow> (Inl NilDereference, w)
    | Some config \<Rightarrow>
        (case with_RateLimiter L config w of
          (Inl err, w1) \<Rightarrow> (Inr (Inl err), w1)
        | (Inr configShallowCopy, w1) \<Rightarrow>
            (case QuotaV1_NewForConfigAndClient L (Some configShallowCopy) httpClient w1 of
              (Inl p, w2) \<Rightarrow> (Inl p, w2)
            | (Inr (Inl err), w2) \<Rightarrow> (Inr (Inl err), w2)
            | (Inr (Inr quotaV1), w2) \<Rightarrow>
                (case lib_NewDiscoveryClientForConfigAndClient L configShallowCopy httpClient w2 of
                  (Inl err, w3) \<Rightarrow> (Inr (Inl err), w3)
                | (Inr discovery, w3) \<Rightarrow>
                    (Inr (Inr \<lparr>cs_DiscoveryClient = Some discovery, cs_quotaV1 = Some quotaV1\<rparr>), w3)))))"

definition Clientset_NewForConfig ::
  "('f, 'l, 'z, 'r, 'h, 'c, 'd, 'w, 'e) rest_lib \<Rightarrow> ('f, 'l, 'z, 'r) rest_config option \<Rightarrow> 'w \<Rightarrow>
   ('e, ('c, 'd) clientset) constructed \<times> 'w" where
  "Clientset_NewForConfig L c w =
    (case c of
      None \<Rightarrow> (Inl NilDereference, w)
    | Some configShallowCopy \<Rightarrow>
        let configShallowCopy = (if cfg_UserAgent configShallowCopy = []
              then configShallowCopy\<lparr>cfg_UserAgent := lib_DefaultKubernetesUserAgent L\<rparr>
              else configShallowCopy) in
        (case lib_HTTPClientFor L configShallowCopy w of
          (Inl err, w') \<Rightarrow> (Inr (Inl err), w')
        | (Inr httpClient, w') \<Rightarrow> Clientset_NewForConfigAndClient L (Some configShallowCopy) httpClient w'))"

definition Clientset_NewForConfigOrDie ::
  "('f, 'l, 'z, 'r, 'h, 'c, 'd, 'w, 'e) rest_lib \<Rightarrow> ('f, 'l, 'z, 'r) rest_config option \<Rightarrow> 'w \<Rightarrow>
   ('e panic_value + ('c, 'd) clientset) \<times> 'w" where
  "Clientset_NewForConfigOrDie L c w = OrDie (Clientset_NewForConfig L c w)"

definition Clientset_New ::
  "('f, 'l, 'z, 'r, 'h, 'c, 'd, 'w, 'e) rest_lib \<Rightarrow> 'c option \<Rightarrow> ('c, 'd) clientset" where
  "Clientset_New L c =
    \<lparr>cs_DiscoveryClient = Some (lib_NewDiscoveryClient L c), cs_quotaV1 = Some (QuotaV1_New c)\<rparr>"

subsection \<open>What client-go makes of a configuration\<close>

text \<open>
  A client that is built from a configuration uses the HTTP client it is given (the documentation: it
  takes precedence over the transport values), the rate limiter, user agent and group of the
  configuration. Without a rate limiter it may make one of its own.
\<close>

locale rest_contract =
  fixes L :: "('f, 'l, 'z, 'r, 'h, 'c, 'd, 'w, 'e) rest_lib"
    and rest_http :: "'c \<Rightarrow> 'h" and rest_limiter :: "'c \<Rightarrow> 'l option"
    and rest_agent :: "'c \<Rightarrow> string" and rest_group :: "'c \<Rightarrow> group_version option"
    and disc_http :: "'d \<Rightarrow> 'h" and disc_limiter :: "'d \<Rightarrow> 'l option"
  assumes rest_built: "lib_RESTClientForConfigAndClient L config h w = (Inr c, w') \<Longrightarrow>
      rest_http c = h \<and> (\<forall>l. cfg_RateLimiter config = Some l \<longrightarrow> rest_limiter c = Some l) \<and>
      rest_agent c = cfg_UserAgent config \<and> rest_group c = cfg_GroupVersion config"
    and disc_built: "lib_NewDiscoveryClientForConfigAndClient L config h w = (Inr d, w') \<Longrightarrow>
      disc_http d = h \<and> (\<forall>l. cfg_RateLimiter config = Some l \<longrightarrow> disc_limiter d = Some l)"
    and agent_default: "lib_DefaultKubernetesUserAgent L \<noteq> []"

text \<open>A rate is asked for, no limiter is given, and no burst allows for one.\<close>

definition burst_missing ::
  "('f, 'l, 'z, 'r, 'h, 'c, 'd, 'w, 'e) rest_lib \<Rightarrow> ('f, 'l, 'z, 'r) rest_config \<Rightarrow> bool" where
  "burst_missing L config \<longleftrightarrow>
    cfg_RateLimiter config = None \<and> lib_positive L (cfg_QPS config) \<and> cfg_Burst config \<le> 0"

definition limited_config ::
  "('f, 'l, 'z, 'r, 'h, 'c, 'd, 'w, 'e) rest_lib \<Rightarrow> ('f, 'l, 'z, 'r) rest_config \<Rightarrow> bool" where
  "limited_config L config \<longleftrightarrow> cfg_RateLimiter config \<noteq> None \<or> lib_positive L (cfg_QPS config)"

lemma setConfigDefaults_fields [simp]:
  "cfg_GroupVersion (setConfigDefaults L config) = Some SchemeGroupVersion"
  "cfg_APIPath (setConfigDefaults L config) = ''/apis''"
  "cfg_NegotiatedSerializer (setConfigDefaults L config) = Some (lib_serializer L)"
  "cfg_RateLimiter (setConfigDefaults L config) = cfg_RateLimiter config"
  "cfg_QPS (setConfigDefaults L config) = cfg_QPS config"
  "cfg_Burst (setConfigDefaults L config) = cfg_Burst config"
  "cfg_Other (setConfigDefaults L config) = cfg_Other config"
  "cfg_UserAgent (setConfigDefaults L config) =
    (if cfg_UserAgent config = [] then lib_DefaultKubernetesUserAgent L else cfg_UserAgent config)"
  by (simp_all add: setConfigDefaults_def Let_def)

lemma with_RateLimiter_Inr:
  assumes "with_RateLimiter L config w = (Inr config', w')"
  shows "\<not> burst_missing L config \<and> cfg_UserAgent config' = cfg_UserAgent config \<and>
    (\<forall>l. cfg_RateLimiter config = Some l \<longrightarrow> cfg_RateLimiter config' = Some l) \<and>
    (limited_config L config \<longrightarrow> (\<exists>l. cfg_RateLimiter config' = Some l))"
  using assms by (auto simp: with_RateLimiter_def burst_missing_def limited_config_def split: if_splits prod.splits)

lemma Clientset_Inr:
  assumes "Clientset_NewForConfigAndClient L (Some config) h w = (Inr (Inr cs), w')"
  obtains config' client discovery w1 w2 w3 where "with_RateLimiter L config w = (Inr config', w1)"
    and "lib_RESTClientForConfigAndClient L (setConfigDefaults L config') h w1 = (Inr client, w2)"
    and "lib_NewDiscoveryClientForConfigAndClient L config' h w2 = (Inr discovery, w3)"
    and "cs = \<lparr>cs_DiscoveryClient = Some discovery, cs_quotaV1 = Some \<lparr>qcl_restClient = Some client\<rparr>\<rparr>"
  using assms by (auto simp: Clientset_NewForConfigAndClient_def QuotaV1_NewForConfigAndClient_def Let_def
      split: prod.splits sum.splits)

context rest_contract
begin

lemma built_together:
  assumes "Clientset_NewForConfigAndClient L (Some config) h w = (Inr (Inr cs), w')"
    and "cfg_UserAgent config \<noteq> []"
  shows "\<not> burst_missing L config \<and> (\<exists>client discovery.
    cs_quotaV1 cs = Some \<lparr>qcl_restClient = Some client\<rparr> \<and> cs_DiscoveryClient cs = Some discovery \<and>
    rest_http client = h \<and> disc_http discovery = h \<and>
    rest_group client = Some SchemeGroupVersion \<and> rest_agent client = cfg_UserAgent config \<and>
    (limited_config L config \<longrightarrow> (\<exists>l. rest_limiter client = Some l \<and> disc_limiter discovery = Some l \<and>
      (\<forall>l0. cfg_RateLimiter config = Some l0 \<longrightarrow> l = l0))))"
proof -
  obtain config' client discovery w1 w2 w3 where lim: "with_RateLimiter L config w = (Inr config', w1)"
    and rest: "lib_RESTClientForConfigAndClient L (setConfigDefaults L config') h w1 = (Inr client, w2)"
    and disc: "lib_NewDiscoveryClientForConfigAndClient L config' h w2 = (Inr discovery, w3)"
    and cs: "cs = \<lparr>cs_DiscoveryClient = Some discovery, cs_quotaV1 = Some \<lparr>qcl_restClient = Some client\<rparr>\<rparr>"
    using assms(1) by (rule Clientset_Inr)
  show ?thesis
    using with_RateLimiter_Inr [OF lim] rest_built [OF rest] disc_built [OF disc] assms(2) by (auto simp: cs)
qed

end

subsubsection \<open>A library in memory\<close>

type_synonym ref_config = "(int, nat, unit, unit) rest_config"

definition demo_config :: "int \<Rightarrow> ref_config" where
  "demo_config burst = \<lparr>cfg_GroupVersion = None, cfg_APIPath = [], cfg_NegotiatedSerializer = None,
     cfg_UserAgent = [], cfg_RateLimiter = None, cfg_QPS = 50, cfg_Burst = burst, cfg_Other = ()\<rparr>"

definition ref_rest ::
  "(int, nat, unit, unit, nat, ref_config \<times> nat, ref_config \<times> nat, nat, ref_error) rest_lib" where
  "ref_rest = \<lparr>lib_DefaultKubernetesUserAgent = ''manager/v0 kubernetes'', lib_serializer = (),
     lib_positive = (\<lambda>q. 0 < q), lib_HTTPClientFor = (\<lambda>config w. (Inr w, Suc w)),
     lib_NewTokenBucketRateLimiter = (\<lambda>q b w. (w, Suc w)),
     lib_RESTClientForConfigAndClient = (\<lambda>config h w. (Inr (config, h), w)),
     lib_NewDiscoveryClientForConfigAndClient = (\<lambda>config h w. (Inr (config, h), w)),
     lib_NewDiscoveryClient = (\<lambda>c. case c of Some x \<Rightarrow> x | None \<Rightarrow> (demo_config 0, 0)),
     lib_Errors = ref_errs\<rparr>"

interpretation ref_rest: rest_contract ref_rest snd "\<lambda>c. cfg_RateLimiter (fst c)"
  "\<lambda>c. cfg_UserAgent (fst c)" "\<lambda>c. cfg_GroupVersion (fst c)" snd "\<lambda>d. cfg_RateLimiter (fst d)"
  by unfold_locales (auto simp: ref_rest_def)

subsection \<open>Properties\<close>

text \<open>
  C39. The clients of one clientset share their HTTP client and their rate limiter. A configuration that
  asks for a rate without a limiter and without a positive burst is refused; otherwise, if
  \<open>NewForConfig\<close> succeeds, the client of the group and the discovery client use the same HTTP
  client, and whenever a rate or a limiter is configured the same rate limiter - the caller's if
  there is one - so that the rate holds for both together. The client of the group talks to
  \<open>quota.xiaoshiai.cn/v1\<close> and has a user agent. A nil configuration panics.
\<close>
theorem clientset_shares_one_limiter:
  assumes "rest_contract L rest_http rest_limiter rest_agent rest_group disc_http disc_limiter"
    and "Clientset_NewForConfig L c w = (r, w')"
  shows "case c of
      None \<Rightarrow> r = Inl NilDereference
    | Some config \<Rightarrow>
        (\<exists>r'. r = Inr r') \<and> (burst_missing L config \<longrightarrow> (\<exists>err. r = Inr (Inl err))) \<and>
        (\<forall>cs. r = Inr (Inr cs) \<longrightarrow> (\<exists>client discovery.
          cs_quotaV1 cs = Some \<lparr>qcl_restClient = Some client\<rparr> \<and> cs_DiscoveryClient cs = Some discovery \<and>
          rest_http client = disc_http discovery \<and> rest_group client = Some SchemeGroupVersion \<and>
          rest_agent client \<noteq> [] \<and>
          (limited_config L config \<longrightarrow> (\<exists>l. rest_limiter client = Some l \<and> disc_limiter discovery = Some l \<and>
            (\<forall>l0. cfg_RateLimiter config = Some l0 \<longrightarrow> l = l0)))))"
proof (cases c)
  case (Some config)
  let ?config = "if cfg_UserAgent config = [] then config\<lparr>cfg_UserAgent := lib_DefaultKubernetesUserAgent L\<rparr> else config"
  have agent: "cfg_UserAgent ?config \<noteq> []"
    using rest_contract.agent_default [OF assms(1)] by simp
  have same: "burst_missing L ?config = burst_missing L config" "limited_config L ?config = limited_config L config"
    "cfg_RateLimiter ?config = cfg_RateLimiter config"
    by (simp_all add: burst_missing_def limited_config_def)
  have total: "\<exists>r'. r = Inr r'"
    using assms(2) by (auto simp: Some Clientset_NewForConfig_def Clientset_NewForConfigAndClient_def
        QuotaV1_NewForConfigAndClient_def Let_def split: prod.splits sum.splits)
  have built: "\<not> burst_missing L config \<and> (\<exists>client discovery.
      cs_quotaV1 cs = Some \<lparr>qcl_restClient = Some client\<rparr> \<and> cs_DiscoveryClient cs = Some discovery \<and>
      rest_http client = disc_http discovery \<and> rest_group client = Some SchemeGroupVersion \<and>
      rest_agent client \<noteq> [] \<and>
      (limited_config L config \<longrightarrow> (\<exists>l. rest_limiter client = Some l \<and> disc_limiter discovery = Some l \<and>
        (\<forall>l0. cfg_RateLimiter config = Some l0 \<longrightarrow> l = l0))))" if ok: "r = Inr (Inr cs)" for cs
  proof -
    obtain h w1 where "Clientset_NewForConfigAndClient L (Some ?config) h w1 = (Inr (Inr cs), w')"
      using assms(2) ok unfolding Some Clientset_NewForConfig_def Let_def
      by (auto split: prod.splits sum.splits simp del: if_split)
    from rest_contract.built_together [OF assms(1) this agent] agent show ?thesis
      unfolding same by metis
  qed
  have "\<exists>err. r = Inr (Inl err)" if "burst_missing L config"
    using total built that by (metis sum.exhaust)
  with total built show ?thesis
    unfolding Some option.case by blast
qed (use assms(2) in \<open>simp add: Clientset_NewForConfig_def\<close>)

text \<open>A rate of 50 with a burst of 100 gives one limiter for both clients; a burst of 0 is refused.\<close>

definition demo_clientset :: "(ref_config \<times> nat, ref_config \<times> nat) clientset" where
  "demo_clientset = (case fst (Clientset_NewForConfig ref_rest (Some (demo_config 100)) 7) of
     Inr (Inr cs) \<Rightarrow> cs | _ \<Rightarrow> \<lparr>cs_DiscoveryClient = None, cs_quotaV1 = None\<rparr>)"

theorem clientset_shares_one_limiter_witness:
  "(\<exists>client discovery l. cs_quotaV1 demo_clientset = Some \<lparr>qcl_restClient = Some client\<rparr> \<and>
      cs_DiscoveryClient demo_clientset = Some discovery \<and> snd client = snd discovery \<and>
      cfg_RateLimiter (fst client) = Some l \<and> cfg_RateLimiter (fst discovery) = Some l) \<and>
   (\<exists>err. fst (Clientset_NewForConfig ref_rest (Some (demo_config 0)) 7) = Inr (Inl err))"
proof
  note shares = clientset_shares_one_limiter [OF ref_rest.rest_contract_axioms]
  have run: "Clientset_NewForConfig ref_rest (Some (demo_config 100)) 7 = (Inr (Inr demo_clientset), 9)"
    unfolding demo_clientset_def by code_simp
  have "limited_config ref_rest (demo_config 100)"
    by (simp add: limited_config_def ref_rest_def demo_config_def)
  then show "\<exists>client discovery l. cs_quotaV1 demo_clientset = Some \<lparr>qcl_restClient = Some client\<rparr> \<and>
      cs_DiscoveryClient demo_clientset = Some discovery \<and> snd client = snd discovery \<and>
      cfg_RateLimiter (fst client) = Some l \<and> cfg_RateLimiter (fst discovery) = Some l"
    using shares [OF run] by fastforce
  have "burst_missing ref_rest (demo_config 0)"
    by (simp add: burst_missing_def ref_rest_def demo_config_def)
  then show "\<exists>err. fst (Clientset_NewForConfig ref_rest (Some (demo_config 0)) 7) = Inr (Inl err)"
    using shares [OF prod.collapse [symmetric], of "Some (demo_config 0)" 7] by simp
qed

end
