(* ===== verification/Scheme.thy ===== *)
theory Scheme
  imports Clientset
begin

section \<open>Scheme registration (\<open>apis/quota\<close>, \<open>scheme/register.go\<close>, \<open>GetScheme\<close> of \<open>manager.go\<close>)\<close>

text \<open>
  Which kinds a scheme knows decides what the process can decode. The scheme itself, its builder and the
  registration functions of other packages are parameters; the theory follows who registers what, in
  which order, and where an error becomes a panic.
\<close>

type_synonym ('s, 'e) registration = "'s \<Rightarrow> 'e option \<times> 's"

text \<open>
  \<open>runtime.Scheme\<close> over \<open>'s\<close>; \<open>sl_RunBuilder\<close> is \<open>AddToScheme\<close> of a \<open>runtime.SchemeBuilder\<close>, a slice of
  functions.
\<close>

record ('s, 'e) scheme_lib =
  sl_NewScheme :: 's
  sl_AddKnownTypes :: "group_version \<Rightarrow> string list \<Rightarrow> 's \<Rightarrow> 's"
  sl_AddToGroupVersion :: "'s \<Rightarrow> group_version \<Rightarrow> 's"
  sl_SetVersionPriority :: "'s \<Rightarrow> group_version list \<Rightarrow> 'e option \<times> 's"
  sl_RunBuilder :: "('s, 'e) registration list \<Rightarrow> ('s, 'e) registration"
  sl_clientgo_AddToScheme :: "('s, 'e) registration"
  sl_metainternal_AddToScheme :: "('s, 'e) registration"

subsection \<open>\<open>register.go\<close>, \<open>zz_generated.conversion.go\<close>, \<open>install.go\<close>\<close>

definition Resource :: "string \<Rightarrow> group_resource" where
  "Resource resource = \<lparr>gr_Group = fst SchemeGroupVersion, gr_Resource = resource\<rparr>"

definition addKnownTypes :: "('s, 'e) scheme_lib \<Rightarrow> ('s, 'e) registration" where
  "addKnownTypes S scheme =
    (let scheme = sl_AddKnownTypes S SchemeGroupVersion
           [''ClusterResourceQuota'', ''ClusterResourceQuotaList'', ''ResourceQuota'', ''ResourceQuotaList''] scheme;
         scheme = sl_AddToGroupVersion S scheme SchemeGroupVersion in
     (None, scheme))"

definition RegisterConversions :: "('s, 'e) registration" where
  "RegisterConversions s = (None, s)"

text \<open>
  The builder starts with \<open>addKnownTypes\<close>; the \<open>init\<close> of the conversions registers its function through
  \<open>localSchemeBuilder\<close>, a pointer to the same builder. \<open>AddToScheme\<close> is a method value of the variable,
  so it sees both.
\<close>

definition NewSchemeBuilder :: "('s, 'e) scheme_lib \<Rightarrow> ('s, 'e) registration list" where
  "NewSchemeBuilder S = [addKnownTypes S]"

definition init_conversions :: "('s, 'e) registration list \<Rightarrow> ('s, 'e) registration list" where
  "init_conversions localSchemeBuilder = localSchemeBuilder @ [RegisterConversions]"

definition quota_AddToScheme :: "('s, 'e) scheme_lib \<Rightarrow> ('s, 'e) registration" where
  "quota_AddToScheme S = sl_RunBuilder S (init_conversions (NewSchemeBuilder S))"

text \<open>\<open>utilruntime.Must\<close> panics with the error.\<close>

definition Must :: "'e option \<times> 's \<Rightarrow> 'e panic_value + 's" where
  "Must r = (case r of (Some err, s) \<Rightarrow> Inl (ErrorPanic err) | (None, s) \<Rightarrow> Inr s)"

definition Install :: "('s, 'e) scheme_lib \<Rightarrow> 's \<Rightarrow> 'e panic_value + 's" where
  "Install S scheme =
    sum_bind (Must (quota_AddToScheme S scheme)) (\<lambda>scheme.
    Must (sl_SetVersionPriority S scheme [SchemeGroupVersion]))"

subsection \<open>\<open>scheme/register.go\<close> and \<open>GetScheme\<close>\<close>

definition clientset_AddToScheme :: "('s, 'e) scheme_lib \<Rightarrow> ('s, 'e) registration" where
  "clientset_AddToScheme S = sl_RunBuilder S [quota_AddToScheme S]"

text \<open>The \<open>init\<close> of the package: the scheme the clients encode with.\<close>

definition init_Scheme :: "('s, 'e) scheme_lib \<Rightarrow> 'e panic_value + 's" where
  "init_Scheme S =
    (let scheme = sl_AddToGroupVersion S (sl_NewScheme S) ([], ''v1'') in
     Must (clientset_AddToScheme S scheme))"

definition GetScheme :: "('s, 'e) scheme_lib \<Rightarrow> 'e panic_value + 's" where
  "GetScheme S =
    (let scheme = sl_NewScheme S in
     sum_bind (Must (sl_clientgo_AddToScheme S scheme)) (\<lambda>scheme.
     sum_bind (Must (quota_AddToScheme S scheme)) (\<lambda>scheme.
     Must (sl_metainternal_AddToScheme S scheme))))"

subsection \<open>Lemmas\<close>

lemma Must_Inr: "Must r = Inr s \<longleftrightarrow> r = (None, s)"
  by (simp add: Must_def split: prod.split option.split)

definition quota_kinds :: "string list" where
  "quota_kinds = [''ClusterResourceQuota'', ''ClusterResourceQuotaList'', ''ResourceQuota'', ''ResourceQuotaList'']"

text \<open>
  A builder runs its functions in order and abandons the attempt at the first error; registering
  adds to what a scheme knows.
\<close>

locale scheme_contract =
  fixes S :: "('s, 'e) scheme_lib" and knows :: "'s \<Rightarrow> group_version \<Rightarrow> string \<Rightarrow> bool"
  assumes run_Nil: "sl_RunBuilder S [] s = (None, s)"
    and run_Cons: "sl_RunBuilder S (f # fs) s =
      (case f s of (Some err, s') \<Rightarrow> (Some err, s') | (None, s') \<Rightarrow> sl_RunBuilder S fs s')"
    and known_added: "k \<in> set ks \<Longrightarrow> knows (sl_AddKnownTypes S gv ks s) gv k"
    and known_kept: "knows s gv k \<Longrightarrow> knows (sl_AddToGroupVersion S s gv') gv k"
      "knows s gv k \<Longrightarrow> knows (snd (sl_SetVersionPriority S s gvs)) gv k"
      "knows s gv k \<Longrightarrow> knows (snd (sl_metainternal_AddToScheme S s)) gv k"
begin

lemma quota_AddToScheme_eq: "quota_AddToScheme S s = (None, snd (addKnownTypes S s))"
  by (simp add: quota_AddToScheme_def init_conversions_def NewSchemeBuilder_def run_Nil run_Cons
      RegisterConversions_def addKnownTypes_def Let_def)

lemma quota_registered: "list_all (knows (snd (quota_AddToScheme S s)) SchemeGroupVersion) quota_kinds"
  by (simp add: quota_AddToScheme_eq addKnownTypes_def quota_kinds_def known_added known_kept Let_def)

text \<open>The repository's own registration never fails: only that of other packages can make it panic.\<close>

lemma Install_result:
  "Install S s = (case sl_SetVersionPriority S (snd (quota_AddToScheme S s)) [SchemeGroupVersion] of
    (Some err, _) \<Rightarrow> Inl (ErrorPanic err) | (None, s') \<Rightarrow> Inr s')"
  by (simp add: Install_def Must_def quota_AddToScheme_eq)

lemma init_Scheme_knows: "\<exists>s. init_Scheme S = Inr s \<and> list_all (knows s SchemeGroupVersion) quota_kinds"
  using quota_registered by (simp add: init_Scheme_def clientset_AddToScheme_def Must_def run_Nil run_Cons
      quota_AddToScheme_eq Let_def)

lemma GetScheme_Inr:
  assumes "GetScheme S = Inr s"
  shows "list_all (knows s SchemeGroupVersion) quota_kinds"
proof -
  obtain s1 where run: "sl_metainternal_AddToScheme S (snd (quota_AddToScheme S s1)) = (None, s)"
    using assms by (auto simp: GetScheme_def Let_def sum_bind_Inr_iff Must_Inr quota_AddToScheme_eq)
  have "knows s gv k" if "knows (snd (quota_AddToScheme S s1)) gv k" for gv k
    using known_kept(3) [OF that] by (simp add: run)
  then show ?thesis
    using quota_registered [of s1] by (auto simp: list_all_iff)
qed

end

text \<open>A scheme in memory: the list of what it knows.\<close>

fun ref_RunBuilder :: "('s, 'e) registration list \<Rightarrow> ('s, 'e) registration" where
  "ref_RunBuilder [] s = (None, s)"
| "ref_RunBuilder (f # fs) s =
    (case f s of (Some err, s') \<Rightarrow> (Some err, s') | (None, s') \<Rightarrow> ref_RunBuilder fs s')"

definition ref_scheme :: "((group_version \<times> string) list, ref_error) scheme_lib" where
  "ref_scheme = \<lparr>sl_NewScheme = [], sl_AddKnownTypes = (\<lambda>gv ks s. map (Pair gv) ks @ s),
     sl_AddToGroupVersion = (\<lambda>s gv. (gv, ''WatchEvent'') # s),
     sl_SetVersionPriority = (\<lambda>s gvs. (if gvs = [] then Some (RPlain ''no versions'') else None, s)),
     sl_RunBuilder = ref_RunBuilder,
     sl_clientgo_AddToScheme = (\<lambda>s. (None, (([], ''v1''), ''Pod'') # s)),
     sl_metainternal_AddToScheme = (\<lambda>s. (None, s))\<rparr>"

interpretation ref_scheme: scheme_contract ref_scheme "\<lambda>s gv k. (gv, k) \<in> set s"
  by unfold_locales (simp_all add: ref_scheme_def split: prod.split option.split)

end
