(* ===== verification/Listers.thy ===== *)
theory Listers
  imports Adaptor Scheme
begin

section \<open>Listers, and the adaptor's access chains (\<open>generated/listers\<close>, \<open>resourcequota-adaptor.go\<close>)\<close>

text \<open>
  A lister reads the store of an informer and casts every object it finds to the type it was made
  for. The repository's listers are client-go's generic lister at the two quota types; the adaptor
  makes a core lister over the repository's informer, which is right because of the transform that
  \<open>NewResourceQuota\<close> installs on that informer.
\<close>

subsection \<open>The generic lister of client-go\<close>

text \<open>
  \<open>listers.ResourceIndexer[T]\<close> is a parameter \<open>'i\<close>, with the four operations the code reaches. An
  informer's store is a list of objects; \<open>GetIndexer\<close> gives access to the store of the
  informer, so an indexer is the address of an informer here.
\<close>

type_synonym informer_stores = "nat \<Rightarrow> cache_object list"

type_synonym label_predicate = "labels option \<Rightarrow> bool"

record ('i, 't, 'e) lister_lib =
  ll_New :: "nat \<Rightarrow> group_resource \<Rightarrow> 'i"
  ll_NewNamespaced :: "'i \<Rightarrow> string \<Rightarrow> 'i"
  ll_List :: "'i \<Rightarrow> label_predicate \<Rightarrow> informer_stores \<Rightarrow> go_panic + ('e + 't list)"
  ll_Get :: "'i \<Rightarrow> string \<Rightarrow> informer_stores \<Rightarrow> go_panic + ('e + 't)"

subsection \<open>The listers of the repository\<close>

definition NewClusterResourceQuotaLister :: "('i, cluster_resource_quota, 'e) lister_lib \<Rightarrow> nat \<Rightarrow> 'i" where
  "NewClusterResourceQuotaLister L indexer = ll_New L indexer (Resource ''clusterresourcequota'')"

definition NewResourceQuotaLister :: "('i, resource_quota, 'e) lister_lib \<Rightarrow> nat \<Rightarrow> 'i" where
  "NewResourceQuotaLister L indexer = ll_New L indexer (Resource ''resourcequota'')"

definition lister_ResourceQuotas :: "('i, resource_quota, 'e) lister_lib \<Rightarrow> 'i \<Rightarrow> string \<Rightarrow> 'i" where
  "lister_ResourceQuotas L s namespace = ll_NewNamespaced L s namespace"

text \<open>\<open>Lister()\<close> of the typed informers asks for the informer, so it may register it.\<close>

definition clusterResourceQuota_Lister :: "('i, cluster_resource_quota, 'e) lister_lib \<Rightarrow>
    'o cluster_resource_quota_informer \<Rightarrow> ('o, 'tr) factory \<Rightarrow> 'i \<times> ('o, 'tr) factory" where
  "clusterResourceQuota_Lister L i f =
    (case clusterResourceQuota_Informer i f of (a, f') \<Rightarrow> (NewClusterResourceQuotaLister L a, f'))"

definition resourceQuota_Lister :: "('i, resource_quota, 'e) lister_lib \<Rightarrow>
    'o resource_quota_informer \<Rightarrow> ('o, 'tr) factory \<Rightarrow> 'i \<times> ('o, 'tr) factory" where
  "resourceQuota_Lister L i f =
    (case resourceQuota_Informer i f of (a, f') \<Rightarrow> (NewResourceQuotaLister L a, f'))"

text \<open>\<open>Lister()\<close> of a generic informer; \<open>cache.NewGenericLister\<close> is a parameter.\<close>

definition generic_Lister :: "(nat \<Rightarrow> group_resource \<Rightarrow> 'g) \<Rightarrow> generic_informer \<Rightarrow> 'g" where
  "generic_Lister NewGenericLister g = NewGenericLister (generic_Informer g) (gi_resource g)"

text \<open>
  \<open>Lister()\<close> of the adaptor: \<open>listerscorev1.NewResourceQuotaLister\<close> of client-go, over the repository's
  informer.
\<close>

definition HijackInformer_Lister :: "(nat \<Rightarrow> 'i) \<Rightarrow> 'o hijack_resource_quota_informer \<Rightarrow>
    ('o, 'tr) factory \<Rightarrow> 'i \<times> ('o, 'tr) factory" where
  "HijackInformer_Lister core_NewResourceQuotaLister a f =
    (case HijackInformer_Informer a f of (i, f') \<Rightarrow> (core_NewResourceQuotaLister i, f'))"

subsection \<open>The client of the adaptor\<close>

text \<open>
  \<open>HijackClientSet\<close> has client-go's clientset for everything, and the repository's for ResourceQuotas. \<open>k_CoreV1\<close>
  is \<open>CoreV1()\<close> of the former.
\<close>

record ('k, 'c, 'd) hijack_client_set =
  hcs_Interface :: 'k
  hcs_This :: "('c, 'd) clientset option"

record ('kv, 'c) hijack_core_v1_client =
  hcc_CoreV1Interface :: 'kv
  hcc_This :: "'c quota_client option"

record 'c hijack_resource_quota_interface =
  hrq_ResourceQuotaInterface :: "'c gentype_client"

definition HijackClientSet_CoreV1 :: "('k \<Rightarrow> 'kv) \<Rightarrow> ('k, 'c, 'd) hijack_client_set \<Rightarrow>
    go_panic + ('kv, 'c) hijack_core_v1_client" where
  "HijackClientSet_CoreV1 k_CoreV1 a =
    sum_bind (Clientset_QuotaV1 (hcs_This a)) (\<lambda>this.
      Inr \<lparr>hcc_CoreV1Interface = k_CoreV1 (hcs_Interface a), hcc_This = this\<rparr>)"

definition HijackCoreV1_ResourceQuotas :: "('kv, 'c) hijack_core_v1_client \<Rightarrow> string \<Rightarrow>
    'c hijack_resource_quota_interface" where
  "HijackCoreV1_ResourceQuotas a namespace =
    \<lparr>hrq_ResourceQuotaInterface = QuotaV1_ResourceQuotas (hcc_This a) namespace\<rparr>"

text \<open>
  Requests for ResourceQuotas go to the REST client of the repository's group, in the namespace asked
  for; everything else of \<open>CoreV1\<close> is client-go's.
\<close>

lemma hijacked_client_target:
  assumes "HijackClientSet_CoreV1 k_CoreV1 a = Inr core"
  shows "hcc_CoreV1Interface core = k_CoreV1 (hcs_Interface a)"
    and "hrq_ResourceQuotaInterface (HijackCoreV1_ResourceQuotas core ns) =
      \<lparr>gc_resource = ''resourcequotas'', gc_client = RESTClient (cs_quotaV1 (the (hcs_This a))), gc_namespace = ns\<rparr>"
  using assms
  by (auto simp: HijackClientSet_CoreV1_def Clientset_QuotaV1_def HijackCoreV1_ResourceQuotas_def
      QuotaV1_ResourceQuotas_def newResourceQuotas_def split: option.splits)

lemma hijacked_client_nil: "HijackClientSet_CoreV1 k_CoreV1 a = Inl p \<longleftrightarrow> hcs_This a = None \<and> p = NilDereference"
  by (auto simp: HijackClientSet_CoreV1_def Clientset_QuotaV1_def split: option.splits)

subsection \<open>The contract of the generic lister\<close>

fun cached_meta :: "cache_object \<Rightarrow> object_meta" where
  "cached_meta (ThisQuota q) = rq_ObjectMeta q"
| "cached_meta (ThisClusterQuota c) = crq_ObjectMeta c"
| "cached_meta (CoreQuota q) = crv1_ObjectMeta q"
| "cached_meta OtherCached = empty_object_meta"

text \<open>The cast \<open>m.(T)\<close> of every object found, in order; a failed one panics.\<close>

fun cast_all :: "(cache_object \<Rightarrow> 't option) \<Rightarrow> cache_object list \<Rightarrow> go_panic + 't list" where
  "cast_all cast [] = Inr []"
| "cast_all cast (x # xs) =
    (case cast x of
      None \<Rightarrow> Inl FailedTypeAssertion
    | Some t \<Rightarrow> sum_bind (cast_all cast xs) (\<lambda>ts. Inr (t # ts)))"

definition cast_one :: "(cache_object \<Rightarrow> 't option) \<Rightarrow> cache_object \<Rightarrow> go_panic + 't" where
  "cast_one cast x = (case cast x of None \<Rightarrow> Inl FailedTypeAssertion | Some t \<Rightarrow> Inr t)"

text \<open>
  A list casts the objects whose labels the selector matches, of one namespace or of all; a get casts the object of
  that name in the namespace, and reports not-found when there is none.
\<close>

locale lister_contract =
  fixes L :: "('i, 't, 'e) lister_lib" and cast :: "cache_object \<Rightarrow> 't option"
    and notFound :: "group_resource \<Rightarrow> string \<Rightarrow> 'e"
  assumes list_all: "ll_List L (ll_New L a r) sel st =
      map_sum id Inr (cast_all cast (filter (\<lambda>x. sel (om_Labels (cached_meta x))) (st a)))"
    and list_namespace: "ns \<noteq> [] \<Longrightarrow> ll_List L (ll_NewNamespaced L (ll_New L a r) ns) sel st =
      map_sum id Inr (cast_all cast (filter (\<lambda>x. sel (om_Labels (cached_meta x)) \<and>
        om_Namespace (cached_meta x) = ns) (st a)))"
    and get_namespace: "ns \<noteq> [] \<Longrightarrow> ll_Get L (ll_NewNamespaced L (ll_New L a r) ns) n st =
      (case find (\<lambda>x. om_Namespace (cached_meta x) = ns \<and> om_Name (cached_meta x) = n) (st a) of
        None \<Rightarrow> Inr (Inl (notFound r n))
      | Some x \<Rightarrow> map_sum id Inr (cast_one cast x))"

fun cast_this :: "cache_object \<Rightarrow> resource_quota option" where
  "cast_this (ThisQuota q) = Some q"
| "cast_this (ThisClusterQuota c) = None"
| "cast_this (CoreQuota q) = None"
| "cast_this OtherCached = None"

fun cast_core :: "cache_object \<Rightarrow> core_resource_quota option" where
  "cast_core (CoreQuota q) = Some q"
| "cast_core (ThisQuota q) = None"
| "cast_core (ThisClusterQuota c) = None"
| "cast_core OtherCached = None"

fun cast_cluster :: "cache_object \<Rightarrow> cluster_resource_quota option" where
  "cast_cluster (ThisClusterQuota c) = Some c"
| "cast_cluster (ThisQuota q) = None"
| "cast_cluster (CoreQuota q) = None"
| "cast_cluster OtherCached = None"

text \<open>The reference lister: the informer, the resource and the namespace.\<close>

definition ref_found :: "nat \<times> group_resource \<times> string \<Rightarrow> label_predicate \<Rightarrow> informer_stores \<Rightarrow> cache_object list" where
  "ref_found i sel st = (case i of (a, r, ns) \<Rightarrow>
    filter (\<lambda>x. sel (om_Labels (cached_meta x)) \<and> (ns = [] \<or> om_Namespace (cached_meta x) = ns)) (st a))"

definition ref_lister :: "(cache_object \<Rightarrow> 't option) \<Rightarrow> (nat \<times> group_resource \<times> string, 't, ref_error) lister_lib" where
  "ref_lister cast = \<lparr>
     ll_New = (\<lambda>a r. (a, r, [])),
     ll_NewNamespaced = (\<lambda>(a, r, _) ns. (a, r, ns)),
     ll_List = (\<lambda>i sel st. map_sum id Inr (cast_all cast (ref_found i sel st))),
     ll_Get = (\<lambda>(a, r, ns) n st.
       (case find (\<lambda>x. om_Namespace (cached_meta x) = ns \<and> om_Name (cached_meta x) = n) (st a) of
         None \<Rightarrow> Inr (Inl (RStatus 404 n))
       | Some x \<Rightarrow> map_sum id Inr (cast_one cast x)))\<rparr>"

interpretation ref_lister: lister_contract "ref_lister cast" cast "\<lambda>r n. RStatus 404 n" for cast
  by unfold_locales (simp_all add: ref_lister_def ref_found_def)

subsection \<open>A store of one type\<close>

lemma cast_all_total: "(\<And>x. x \<in> set xs \<Longrightarrow> cast x = Some (f x)) \<Longrightarrow> cast_all cast xs = Inr (map f xs)"
  by (induction xs) simp_all

lemma cast_all_fails: "(\<And>x. x \<in> set xs \<Longrightarrow> cast x = None) \<Longrightarrow>
    cast_all cast xs = (if xs = [] then Inr [] else Inl FailedTypeAssertion)"
  by (cases xs) auto

lemma find_map: "find P (map f xs) = map_option f (find (P \<circ> f) xs)"
  by (induction xs) auto

text \<open>In a store of converted quotas a core lister finds each of them, and the repository's own lister panics.\<close>

context lister_contract
begin

lemma list_stored:
  assumes "st a = map g qs" and "\<And>q. cast (g q) = Some (f q)" and "\<And>q. cached_meta (g q) = rq_ObjectMeta q"
  shows "ll_List L (ll_New L a r) sel st = Inr (Inr (map f (filter (\<lambda>q. sel (rq_Labels q)) qs)))"
proof -
  have "filter (\<lambda>x. sel (om_Labels (cached_meta x))) (map g qs) = map g (filter (\<lambda>q. sel (rq_Labels q)) qs)"
    by (induction qs) (simp_all add: assms(3))
  moreover have "cast_all cast (map g ps) = Inr (map f ps)" for ps
    by (induction ps) (simp_all add: assms(2))
  ultimately show ?thesis
    by (simp add: list_all assms(1))
qed

lemma get_stored:
  assumes "st a = map g qs" and "\<And>q. cast (g q) = Some (f q)" and "\<And>q. cached_meta (g q) = rq_ObjectMeta q"
    and "ns \<noteq> []"
  shows "ll_Get L (ll_NewNamespaced L (ll_New L a r) ns) n st =
    (case find (\<lambda>q. rq_Namespace q = ns \<and> om_Name (rq_ObjectMeta q) = n) qs of
      None \<Rightarrow> Inr (Inl (notFound r n)) | Some q \<Rightarrow> Inr (Inr (f q)))"
  using assms by (simp add: get_namespace find_map comp_def cast_one_def split: option.split)

lemma list_mismatch:
  assumes "st a = map g qs" and "\<And>q. cast (g q) = None" and "\<And>q. cached_meta (g q) = rq_ObjectMeta q"
  shows "ll_List L (ll_New L a r) sel st =
    (if \<exists>q. q \<in> set qs \<and> sel (rq_Labels q) then Inl FailedTypeAssertion else Inr (Inr []))"
proof -
  have "cast_all cast (filter (\<lambda>x. sel (om_Labels (cached_meta x))) (map g qs)) =
      (if filter (\<lambda>x. sel (om_Labels (cached_meta x))) (map g qs) = [] then Inr [] else Inl FailedTypeAssertion)"
    using assms(2) by (intro cast_all_fails) auto
  moreover have "filter (\<lambda>x. sel (om_Labels (cached_meta x))) (map g qs) = [] \<longleftrightarrow>
      \<not> (\<exists>q. q \<in> set qs \<and> sel (rq_Labels q))"
    by (auto simp: filter_empty_conv assms(3))
  ultimately show ?thesis
    by (simp add: list_all assms(1))
qed

end

subsection \<open>Properties\<close>

text \<open>
  C33. The lister the adaptor hands to the quota plugin works, and only that one. Take the informer as
  \<open>NewResourceQuota\<close> leaves it, any later requests, starts, shutdowns and ended goroutines, and a store that
  holds what the transform then in force makes of the ResourceQuotas received from the server. The
  adaptor's \<open>Lister()\<close> registers nothing new; its \<open>List\<close> never panics and returns exactly the received
  objects that match, converted, in their order, and \<open>Get\<close> in a namespace finds the object of the name
  or reports not-found. The repository's own \<open>Lister()\<close> of the same informer panics as soon as an object matches.
\<close>
theorem hijacked_lister_serves_core_quotas:
  assumes "lister_contract LC cast_core nfc" and "lister_contract LT cast_this nft"
    and "factory_reach f" and "\<not> is_started f ''ResourceQuota''"
    and "hijack_informer (hijack_transform E) f = (a, f1)" and "lifecycle_step\<^sup>*\<^sup>* f1 f2"
    and "list_all2 (\<lambda>q x. the (transform_at a f2) (ThisQuota q) = Inr x) qs (st a)" and "ns \<noteq> []"
  shows "(case HijackInformer_Lister (\<lambda>i. ll_New LC i r)
      (HijackV1_ResourceQuotas (HijackCore_V1 kc_v1 (Hijack_Core kf_core K)) f2) f2 of (i, f3) \<Rightarrow>
      f3 = f2 \<and>
      ll_List LC i sel st = Inr (Inr (map toQuota (filter (\<lambda>q. sel (rq_Labels q)) qs))) \<and>
      ll_Get LC (ll_NewNamespaced LC i ns) n st =
        (case find (\<lambda>q. rq_Namespace q = ns \<and> om_Name (rq_ObjectMeta q) = n) qs of
          None \<Rightarrow> Inr (Inl (nfc r n)) | Some q \<Rightarrow> Inr (Inr (toQuota q)))) \<and>
    (case resourceQuota_Lister LT (version_ResourceQuotas (group_V1 (factory_Quota f2))) f2 of (i, f3) \<Rightarrow>
      ll_List LT i sel st =
        (if \<exists>q. q \<in> set qs \<and> sel (rq_Labels q) then Inl FailedTypeAssertion else Inr (Inr [])))"
proof -
  have here: "ResourceQuotas_Informer f2 = (a, f2)" and tr: "transform_at a f2 = Some (hijack_transform E)"
    using hijacked_informer_keeps_transform [OF assms(3-6), of kf_core kc_v1 K]
    by (simp_all add: Hijack_ResourceQuotas_Informer_eq)
  have "list_all2 (\<lambda>q x. CoreQuota (toQuota q) = x) qs (st a)"
    using assms(7) by (simp add: tr hijack_transform_def)
  then have store: "st a = map (CoreQuota \<circ> toQuota) qs"
    by (induction rule: list_all2_induct) simp_all
  have i: "resourceQuota_Informer (version_ResourceQuotas (group_V1 (factory_Quota f2))) f2 = (a, f2)"
    using here by (simp add: ResourceQuotas_Informer_def)
  have "cast_core ((CoreQuota \<circ> toQuota) q) = Some (toQuota q)" "cast_this ((CoreQuota \<circ> toQuota) q) = None"
    "cached_meta ((CoreQuota \<circ> toQuota) q) = rq_ObjectMeta q" for q
    by simp_all
  note core = lister_contract.list_stored [where a = a and st = st, OF assms(1) store this(1,3)]
    lister_contract.get_stored [where a = a and st = st, OF assms(1) store this(1,3) assms(8)]
    and own = lister_contract.list_mismatch [where a = a and st = st, OF assms(2) store this(2,3)]
  show ?thesis
    by (simp add: HijackInformer_Lister_def HijackInformer_Informer_def HijackV1_ResourceQuotas_def i core
        resourceQuota_Lister_def NewResourceQuotaLister_def own)
qed

definition listed_demo :: "(unit, cache_object \<Rightarrow> ref_error + cache_object) factory" where
  "listed_demo = snd (hijack_informer (hijack_transform ref_errs) (NewSharedInformerFactory 3600))"

theorem hijacked_lister_serves_core_quotas_witness:
  "ll_List (ref_lister cast_core) (0, Resource ''resourcequota'', []) (\<lambda>ls. True) (\<lambda>_. [CoreQuota (toQuota hijack_demo_quota)]) =
    Inr (Inr [toQuota hijack_demo_quota]) \<and>
   ll_List (ref_lister cast_this) (0, Resource ''resourcequota'', []) (\<lambda>ls. True) (\<lambda>_. [CoreQuota (toQuota hijack_demo_quota)]) =
    Inl FailedTypeAssertion"
proof -
  let ?f0 = "NewSharedInformerFactory 3600 :: (unit, cache_object \<Rightarrow> ref_error + cache_object) factory"
  have fresh: "fresh_factory ?f0"
    by (simp add: NewSharedInformerFactory_def NewSharedInformerFactoryWithOptions_def fresh_factory_def)
  have unstarted: "\<not> is_started ?f0 ''ResourceQuota''"
    using fresh by (simp add: fresh_factory_def is_started_def)
  have informer: "hijack_informer (hijack_transform ref_errs) ?f0 = (0, listed_demo)"
    using fresh by (simp add: listed_demo_def hijack_informer_def ResourceQuotas_Informer_eq InformerFor_def
        fresh_factory_def Let_def)
  have reg: "map_of (f_informers listed_demo) ''ResourceQuota'' = Some 0"
    and tr: "transform_at 0 listed_demo = Some (hijack_transform ref_errs)"
    by (simp_all add: listed_demo_def hijack_informer_def ResourceQuotas_Informer_eq InformerFor_def Let_def
        NewSharedInformerFactory_def NewSharedInformerFactoryWithOptions_def NewFilteredResourceQuotaInformer_def
        SetTransform_def set_inf_def transform_at_def)
  have store: "list_all2 (\<lambda>q x. the (transform_at 0 listed_demo) (ThisQuota q) = Inr x) [hijack_demo_quota]
      ((\<lambda>_. [CoreQuota (toQuota hijack_demo_quota)]) 0)"
    by (simp add: tr hijack_transform_def)
  show ?thesis
    using hijacked_lister_serves_core_quotas [OF ref_lister.lister_contract_axioms ref_lister.lister_contract_axioms
        factory_reach.fresh [OF fresh] unstarted informer rtranclp.rtrancl_refl store, where ns = "''ns1''"
        and r = "Resource ''resourcequota''" and kf_core = id and ?kc_v1.0 = id and K = "()" and sel = "\<lambda>ls. True" and n = "''q''"] reg
    by (simp add: HijackInformer_Lister_def HijackInformer_Informer_def HijackV1_ResourceQuotas_def
        resourceQuota_Informer_def InformerFor_registered resourceQuota_Lister_def NewResourceQuotaLister_def ref_lister_def)
qed

end
