(* ===== verification/Fake_Clientset.thy ===== *)
theory Fake_Clientset
  imports Scheme
begin

section \<open>The fake clientset (\<open>generated/clientset/versioned/fake\<close>)\<close>

text \<open>
  The clientset for tests: it keeps its objects in client-go's object tracker and answers requests through a
  chain of reactors. \<open>Clientset\<close> embeds a \<open>testing.Fake\<close>, to which the discovery client and the
  typed clients keep pointers; so Fakes live in a store here, and a pointer is a position in it.
\<close>

subsection \<open>client-go's testing package\<close>

text \<open>
  The object tracker is a handle \<open>'t\<close> into the world \<open>'w\<close>; \<open>'s\<close> is a scheme, \<open>'o\<close> an object, \<open>'x\<close> a watch and \<open>'lo\<close>
  list options, with their zero value.
\<close>

record ('s, 't, 'o, 'x, 'lo, 'w, 'e) tracker_lib =
  tl_NewObjectTracker :: "'s \<Rightarrow> 'w \<Rightarrow> 't \<times> 'w"
  tl_Add :: "'t \<Rightarrow> 'o \<Rightarrow> 'w \<Rightarrow> 'e option \<times> 'w"
  tl_Watch :: "'t \<Rightarrow> group_version_resource \<Rightarrow> string \<Rightarrow> 'lo \<Rightarrow> 'w \<Rightarrow> ('e + 'x) \<times> 'w"
  tl_ListOptions :: 'lo

text \<open>An action; the options are there if it is a \<open>WatchActionImpl\<close>.\<close>

record 'lo fake_action =
  fa_Resource :: group_version_resource
  fa_Namespace :: string
  fa_WatchOptions :: "'lo option"

text \<open>
  The reactors the code installs: the object reaction of a tracker, and its own watch reaction. A Fake
  asks its reactors in the order in which they were added; a star matches everything.
\<close>

datatype 't reaction = ObjectReaction 't

datatype 't watch_reaction = TrackerWatch 't

record 't fake =
  fk_ReactionChain :: "(string \<times> string \<times> 't reaction) list"
  fk_WatchReactionChain :: "(string \<times> 't watch_reaction) list"

record ('t, 'w) fake_state =
  fs_fakes :: "'t fake list"
  fs_world :: 'w

definition AddReactor :: "nat \<Rightarrow> string \<Rightarrow> string \<Rightarrow> 't reaction \<Rightarrow> ('t, 'w) fake_state \<Rightarrow> ('t, 'w) fake_state" where
  "AddReactor a verb resource r s = s\<lparr>fs_fakes := (fs_fakes s)[a := (fs_fakes s ! a)
     \<lparr>fk_ReactionChain := fk_ReactionChain (fs_fakes s ! a) @ [(verb, resource, r)]\<rparr>]\<rparr>"

definition AddWatchReactor :: "nat \<Rightarrow> string \<Rightarrow> 't watch_reaction \<Rightarrow> ('t, 'w) fake_state \<Rightarrow> ('t, 'w) fake_state" where
  "AddWatchReactor a resource r s = s\<lparr>fs_fakes := (fs_fakes s)[a := (fs_fakes s ! a)
     \<lparr>fk_WatchReactionChain := fk_WatchReactionChain (fs_fakes s ! a) @ [(resource, r)]\<rparr>]\<rparr>"

subsection \<open>The clientset (\<open>clientset_generated.go\<close>)\<close>

record 't fake_clientset =
  fcs_Fake :: nat
  fcs_discovery :: "nat option"
  fcs_tracker :: 't

text \<open>The loop that fills the tracker: it panics with the first error.\<close>

fun add_objects :: "('s, 't, 'o, 'x, 'lo, 'w, 'e) tracker_lib \<Rightarrow> 't \<Rightarrow> 'o list \<Rightarrow> 'w \<Rightarrow> 'e panic_value + 'w" where
  "add_objects L tr [] w = Inr w"
| "add_objects L tr (obj # objects) w =
    (case tl_Add L tr obj w of
      (Some err, w') \<Rightarrow> Inl (ErrorPanic err)
    | (None, w') \<Rightarrow> add_objects L tr objects w')"

definition NewSimpleClientset :: "('s, 't, 'o, 'x, 'lo, 'w, 'e) tracker_lib \<Rightarrow> 's \<Rightarrow> 'o list \<Rightarrow>
    ('t, 'w) fake_state \<Rightarrow> 'e panic_value + 't fake_clientset \<times> ('t, 'w) fake_state" where
  "NewSimpleClientset L scheme objects s =
    (case tl_NewObjectTracker L scheme (fs_world s) of
      (tr, w) \<Rightarrow>
        sum_bind (add_objects L tr objects w) (\<lambda>w'.
        let a = length (fs_fakes s);
            s = s\<lparr>fs_fakes := fs_fakes s @ [\<lparr>fk_ReactionChain = [], fk_WatchReactionChain = []\<rparr>], fs_world := w'\<rparr>;
            cs = \<lparr>fcs_Fake = a, fcs_discovery = None, fcs_tracker = tr\<rparr>;
            cs = cs\<lparr>fcs_discovery := Some a\<rparr>;
            s = AddReactor a ''*'' ''*'' (ObjectReaction tr) s;
            s = AddWatchReactor a ''*'' (TrackerWatch tr) s in
        Inr (cs, s)))"

text \<open>The watch reactor: handled, the watch, the error.\<close>

definition watch_react :: "('s, 't, 'o, 'x, 'lo, 'w, 'e) tracker_lib \<Rightarrow> 't watch_reaction \<Rightarrow> 'lo fake_action \<Rightarrow>
    'w \<Rightarrow> (bool \<times> 'x option \<times> 'e option) \<times> 'w" where
  "watch_react L r action w =
    (case r of TrackerWatch tr \<Rightarrow>
      let opts = (case fa_WatchOptions action of Some opts \<Rightarrow> opts | None \<Rightarrow> tl_ListOptions L);
          gvr = fa_Resource action;
          ns = fa_Namespace action in
      (case tl_Watch L tr gvr ns opts w of
        (Inl err, w') \<Rightarrow> ((False, None, Some err), w')
      | (Inr watch, w') \<Rightarrow> ((True, Some watch, None), w')))"

definition Fake_Discovery :: "'t fake_clientset \<Rightarrow> nat option" where
  "Fake_Discovery c = fcs_discovery c"

definition Fake_Tracker :: "'t fake_clientset \<Rightarrow> 't" where
  "Fake_Tracker c = fcs_tracker c"

record fake_quota_v1 =
  fq_Fake :: nat

definition Fake_QuotaV1 :: "'t fake_clientset \<Rightarrow> fake_quota_v1" where
  "Fake_QuotaV1 c = \<lparr>fq_Fake = fcs_Fake c\<rparr>"

subsection \<open>The scheme of the package (\<open>fake/register.go\<close>)\<close>

definition fake_AddToScheme :: "('s, 'e) scheme_lib \<Rightarrow> ('s, 'e) registration" where
  "fake_AddToScheme S = sl_RunBuilder S [quota_AddToScheme S]"

definition init_fake_scheme :: "('s, 'e) scheme_lib \<Rightarrow> 'e panic_value + 's" where
  "init_fake_scheme S =
    (let scheme = sl_AddToGroupVersion S (sl_NewScheme S) ([], ''v1'') in
     Must (fake_AddToScheme S scheme))"

text \<open>The fake knows the kinds of the real clients: both packages register the same.\<close>

lemma init_fake_scheme_eq: "init_fake_scheme S = init_Scheme S"
  by (simp add: init_fake_scheme_def init_Scheme_def fake_AddToScheme_def clientset_AddToScheme_def)

subsection \<open>The typed clients (\<open>typed/quota/v1/fake\<close>)\<close>

text \<open>
  \<open>gentype.NewFakeClientWithList\<close> with the functions it is given, for objects \<open>'q\<close> and lists \<open>'l\<close>. \<open>ToPointerSlice\<close> and
  \<open>FromPointerSlice\<close> take the addresses of the items and back; by value they are the identity.
\<close>

record ('q, 'l) fake_client =
  fc_Fake :: nat
  fc_namespace :: string
  fc_resource :: group_version_resource
  fc_kind :: "group_version \<times> string"
  fc_newObject :: 'q
  fc_newList :: 'l
  fc_copyListMeta :: "'l \<Rightarrow> 'l \<Rightarrow> 'l"
  fc_getItems :: "'l \<Rightarrow> 'q list"
  fc_setItems :: "'l \<Rightarrow> 'q list \<Rightarrow> 'l"

definition WithResource :: "string \<Rightarrow> group_version_resource" where
  "WithResource r = \<lparr>gvr_Group = fst SchemeGroupVersion, gvr_Version = snd SchemeGroupVersion, gvr_Resource = r\<rparr>"

definition empty_list_meta :: list_meta where
  "empty_list_meta = \<lparr>lm_SelfLink = [], lm_ResourceVersion = [], lm_Continue = [], lm_RemainingItemCount = None\<rparr>"

definition newFakeResourceQuotas :: "fake_quota_v1 \<Rightarrow> string \<Rightarrow> (resource_quota, resource_quota_list) fake_client" where
  "newFakeResourceQuotas f namespace = \<lparr>
     fc_Fake = fq_Fake f,
     fc_namespace = namespace,
     fc_resource = WithResource ''resourcequotas'',
     fc_kind = (SchemeGroupVersion, ''ResourceQuota''),
     fc_newObject = empty_resource_quota,
     fc_newList = \<lparr>rql_TypeMeta = empty_type_meta, rql_ListMeta = empty_list_meta, rql_Items = []\<rparr>,
     fc_copyListMeta = (\<lambda>dst src. dst\<lparr>rql_ListMeta := rql_ListMeta src\<rparr>),
     fc_getItems = (\<lambda>l. rql_Items l),
     fc_setItems = (\<lambda>l items. l\<lparr>rql_Items := items\<rparr>)\<rparr>"

definition newFakeClusterResourceQuotas ::
  "fake_quota_v1 \<Rightarrow> (cluster_resource_quota, cluster_resource_quota_list) fake_client" where
  "newFakeClusterResourceQuotas f = \<lparr>
     fc_Fake = fq_Fake f,
     fc_namespace = [],
     fc_resource = WithResource ''clusterresourcequotas'',
     fc_kind = (SchemeGroupVersion, ''ClusterResourceQuota''),
     fc_newObject = \<lparr>crq_TypeMeta = empty_type_meta, crq_ObjectMeta = empty_object_meta,
       crq_Spec = \<lparr>crqs_ResourceQuotaSpec = empty_rq_spec, crqs_NamespaceSelector = None\<rparr>,
       crq_Status = \<lparr>crqst_ResourceQuotaStatus = empty_rq_status, crqst_Namespaces = []\<rparr>\<rparr>,
     fc_newList = \<lparr>crql_TypeMeta = empty_type_meta, crql_ListMeta = empty_list_meta, crql_Items = []\<rparr>,
     fc_copyListMeta = (\<lambda>dst src. dst\<lparr>crql_ListMeta := crql_ListMeta src\<rparr>),
     fc_getItems = (\<lambda>l. crql_Items l),
     fc_setItems = (\<lambda>l items. l\<lparr>crql_Items := items\<rparr>)\<rparr>"

definition FakeV1_ResourceQuotas :: "fake_quota_v1 \<Rightarrow> string \<Rightarrow> (resource_quota, resource_quota_list) fake_client" where
  "FakeV1_ResourceQuotas c namespace = newFakeResourceQuotas c namespace"

definition FakeV1_ClusterResourceQuotas ::
  "fake_quota_v1 \<Rightarrow> (cluster_resource_quota, cluster_resource_quota_list) fake_client" where
  "FakeV1_ClusterResourceQuotas c = newFakeClusterResourceQuotas c"

text \<open>A nil pointer in an interface that is not nil.\<close>

definition FakeV1_RESTClient :: "fake_quota_v1 \<Rightarrow> 'c option option" where
  "FakeV1_RESTClient c = Some None"

subsection \<open>What the fake client relies on\<close>

text \<open>
  A list of the tracker is filtered by replacing its items, and its metadata is copied to a new list: the
  three functions must read and write what they say, and nothing else.
\<close>

locale list_access =
  fixes copyListMeta :: "'l \<Rightarrow> 'l \<Rightarrow> 'l" and getItems :: "'l \<Rightarrow> 'q list" and setItems :: "'l \<Rightarrow> 'q list \<Rightarrow> 'l"
  assumes get_set: "getItems (setItems l xs) = xs"
    and set_get: "setItems l (getItems l) = l"
    and set_set: "setItems (setItems l xs) ys = setItems l ys"
    and get_copy: "getItems (copyListMeta dst src) = getItems dst"
    and copy_set: "copyListMeta (setItems dst xs) src = setItems (copyListMeta dst src) xs"
begin

text \<open>\<open>List\<close> of the fake client: a new list with the metadata and some of the items of another.\<close>

definition filtered :: "('q \<Rightarrow> bool) \<Rightarrow> 'l \<Rightarrow> 'l \<Rightarrow> 'l" where
  "filtered P new l = setItems (copyListMeta new l) (filter P (getItems l))"

lemma filtered_items: "getItems (filtered P new l) = filter P (getItems l)"
  by (simp add: filtered_def get_set)

end

interpretation fake_rqs: list_access "fc_copyListMeta (newFakeResourceQuotas f ns)"
  "fc_getItems (newFakeResourceQuotas f ns)" "fc_setItems (newFakeResourceQuotas f ns)" for f ns
  by unfold_locales (simp_all add: newFakeResourceQuotas_def)

interpretation fake_crqs: list_access "fc_copyListMeta (newFakeClusterResourceQuotas f)"
  "fc_getItems (newFakeClusterResourceQuotas f)" "fc_setItems (newFakeClusterResourceQuotas f)" for f
  by unfold_locales (simp_all add: newFakeClusterResourceQuotas_def)

subsection \<open>Properties\<close>

text \<open>The objects that are taken before the first refusal.\<close>

fun tracked :: "('s, 't, 'o, 'x, 'lo, 'w, 'e) tracker_lib \<Rightarrow> 't \<Rightarrow> 'o list \<Rightarrow> 'w \<Rightarrow> 'w \<Rightarrow> bool" where
  "tracked L tr [] w w' \<longleftrightarrow> w' = w"
| "tracked L tr (obj # objects) w w' \<longleftrightarrow>
     fst (tl_Add L tr obj w) = None \<and> tracked L tr objects (snd (tl_Add L tr obj w)) w'"

lemma add_objects_Inr: "add_objects L tr objects w = Inr w' \<longleftrightarrow> tracked L tr objects w w'"
  by (induction objects arbitrary: w) (auto split: prod.split option.split)

lemma add_objects_refused:
  "add_objects L tr objects w = Inl p \<Longrightarrow> \<exists>before obj after w1 err.
     objects = before @ obj # after \<and> tracked L tr before w w1 \<and>
     fst (tl_Add L tr obj w1) = Some err \<and> p = ErrorPanic err"
proof (induction objects arbitrary: w)
  case (Cons x xs)
  obtain r w' where add: "tl_Add L tr x w = (r, w')"
    by fastforce
  show ?case
  proof (cases r)
    case None
    then obtain before obj after w1 err where "xs = before @ obj # after" and "tracked L tr before w' w1"
      and "fst (tl_Add L tr obj w1) = Some err" and "p = ErrorPanic err"
      using Cons.IH [of w'] Cons.prems add by auto
    then show ?thesis
      using add None by (intro exI [of _ "x # before"] exI [of _ obj] exI [of _ after] exI [of _ w1]) simp
  next
    case (Some err)
    then show ?thesis
      using add Cons.prems by (intro exI [of _ "[]"] exI [of _ x] exI [of _ xs] exI [of _ w] exI [of _ err]) simp
  qed
qed simp

text \<open>
  \<open>NewSimpleClientset\<close> panics only with the error of the first object that the tracker refuses, after it has
  taken those before.
  Otherwise the tracker has been given all objects, in their order, the state has one new Fake, whose only
  reactors are the object reaction and the watch reaction of that very tracker for everything, and the discovery client and the
  typed clients of both kinds all point to it. Its watch reaction declares an action handled exactly
  if the tracker returned a watch.
\<close>
lemma fake_clientset_construction:
  "(case NewSimpleClientset L scheme objects s of
     Inl p \<Rightarrow> (\<exists>before obj after w1 err. objects = before @ obj # after \<and>
       tracked L (fst (tl_NewObjectTracker L scheme (fs_world s))) before (snd (tl_NewObjectTracker L scheme (fs_world s))) w1 \<and>
       fst (tl_Add L (fst (tl_NewObjectTracker L scheme (fs_world s))) obj w1) = Some err \<and> p = ErrorPanic err)
   | Inr (cs, s') \<Rightarrow>
       Fake_Tracker cs = fst (tl_NewObjectTracker L scheme (fs_world s)) \<and>
       tracked L (Fake_Tracker cs) objects (snd (tl_NewObjectTracker L scheme (fs_world s))) (fs_world s') \<and>
       fs_fakes s' = fs_fakes s @ [\<lparr>fk_ReactionChain = [(''*'', ''*'', ObjectReaction (Fake_Tracker cs))],
         fk_WatchReactionChain = [(''*'', TrackerWatch (Fake_Tracker cs))]\<rparr>] \<and>
       Fake_Discovery cs = Some (length (fs_fakes s)) \<and>
       fc_Fake (FakeV1_ResourceQuotas (Fake_QuotaV1 cs) ns) = length (fs_fakes s) \<and>
       fc_Fake (FakeV1_ClusterResourceQuotas (Fake_QuotaV1 cs)) = length (fs_fakes s)) \<and>
   (case watch_react L (TrackerWatch tr) action w of ((handled, x, err), w') \<Rightarrow>
     handled = (x \<noteq> None) \<and> handled = (err = None))"
proof -
  obtain tr w where new: "tl_NewObjectTracker L scheme (fs_world s) = (tr, w)"
    by fastforce
  have watch: "case watch_react L (TrackerWatch tr) action w of ((handled, x, err), w') \<Rightarrow>
      handled = (x \<noteq> None) \<and> handled = (err = None)" for tr w
    by (simp add: watch_react_def Let_def split: prod.split sum.split)
  have "case NewSimpleClientset L scheme objects s of
     Inl p \<Rightarrow> (\<exists>before obj after w1 err. objects = before @ obj # after \<and> tracked L tr before w w1 \<and>
       fst (tl_Add L tr obj w1) = Some err \<and> p = ErrorPanic err)
   | Inr (cs, s') \<Rightarrow> Fake_Tracker cs = tr \<and> tracked L (Fake_Tracker cs) objects w (fs_world s') \<and>
       fs_fakes s' = fs_fakes s @ [\<lparr>fk_ReactionChain = [(''*'', ''*'', ObjectReaction (Fake_Tracker cs))],
         fk_WatchReactionChain = [(''*'', TrackerWatch (Fake_Tracker cs))]\<rparr>] \<and>
       Fake_Discovery cs = Some (length (fs_fakes s)) \<and>
       fc_Fake (FakeV1_ResourceQuotas (Fake_QuotaV1 cs) ns) = length (fs_fakes s) \<and>
       fc_Fake (FakeV1_ClusterResourceQuotas (Fake_QuotaV1 cs)) = length (fs_fakes s)"
  proof (cases "add_objects L tr objects w")
    case (Inl p)
    then show ?thesis
      using add_objects_refused [of L tr objects w p] by (simp add: NewSimpleClientset_def new)
  next
    case (Inr w')
    then show ?thesis
      using add_objects_Inr [of L tr objects w w']
      by (simp add: NewSimpleClientset_def new Let_def AddReactor_def AddWatchReactor_def Fake_Tracker_def
          Fake_Discovery_def FakeV1_ResourceQuotas_def FakeV1_ClusterResourceQuotas_def newFakeResourceQuotas_def
          newFakeClusterResourceQuotas_def Fake_QuotaV1_def nth_append)
  qed
  then show ?thesis
    unfolding new fst_conv snd_conv using watch by (rule conjI)
qed

end
