(* ===== verification/Spec2Isabelle.thy ===== *)
theory Spec2Isabelle
  imports Evaluator Validation Manager Deepcopy Cluster Locking Listers Fake_Clientset
begin

text \<open>
  A model of the clusterresourcequota operator (Go, \<open>src/\<close>): quotas that span the namespaces a label
  selector picks. A ClusterResourceQuota owns one ResourceQuota per selected namespace; the controller
  makes them and writes the sum of their usages to its status, a webhook on every status write of a
  ResourceQuota keeps the sum within the hard limits, another keeps managed ResourceQuotas from being
  removed, and the quota plugin and quota controller of Kubernetes run in the same process on the
  operator's own ResourceQuota type, through adaptors.

  How it fits together. The Kubernetes quota controller computes the usage of a namespace and calls
  \<open>UpdateStatus\<close> through the adaptor. The API server asks the status webhook, which adds up what its
  cache holds for all namespaces of the ClusterResourceQuota, replaces the share of the namespace,
  compares with the limits, writes the total to the status of the ClusterResourceQuota and the share to
  the cache. A goroutine overwrites the cache with the listed ResourceQuotas every 30 seconds.
  The controller recomputes everything from the server on events of ClusterResourceQuotas and namespaces.

  Conventions. A Go struct is a record, a function with an error result gives \<open>'e + 'a\<close> or \<open>'e option\<close>, a
  panic is a value of \<open>go_panic\<close>, a map is an association list in iteration order, a pointer that is
  compared or shared is an address into an explicit store. Effects pass the world \<open>'w\<close>. Code outside
  the repository is a parameter: a record of functions, with its documented laws as the assumptions of a
  locale. Each such locale is interpreted on an executable instance, on which the witnesses run.

  \<^item> \<open>Prelude\<close>: Go maps and the error results. \<open>Kube_Types\<close>: the structs of \<open>apis/quota/v1/types.go\<close>
    and of the Kubernetes API they contain; a quantity is an exact number (an \<open>int\<close> of billionths),
    which has no overflow, as \<open>resource.Quantity\<close> switches to big decimals. \<open>Externals\<close>: error
    constructors and quota arithmetic (\<open>err_lib\<close>, \<open>quota_lib\<close> with locales \<open>api_errors\<close>, \<open>quota_arith\<close>).
    \<open>Api_Server\<close>: the client of controller-runtime (\<open>kube_client\<close>, locale \<open>api_server\<close>), what it is shown of the
    ResourceQuotas (locale \<open>quota_view\<close>, and \<open>quiet_quota_view\<close> while nobody else writes), and a server in memory. \<open>Admission\<close>: admission requests and responses, and what all handlers share.
  \<^item> \<open>Quota_Cache\<close> (\<open>clusterresourcequota-cache.go\<close>): a heap of \<open>Quotas\<close> maps and the map from names to
    their addresses; \<open>GetOrCreate\<close>, \<open>OnLock\<close>, \<open>Sync\<close> with its three loops, \<open>SyncOnce\<close> and the loop of
    \<open>CacheSyner\<close>. Shown: the cache invariant, that \<open>Sync\<close> installs the listing for any iteration order,
    the interface \<open>usage_store\<close> the webhook relies on, what the ten-second rule really does.
  \<^item> \<open>Status_Admission\<close> (\<open>clusterresourcequota-statusadmission.go\<close>): \<open>Handle\<close>, \<open>validate\<close> and its helpers.
    The specification is over totals (\<open>total_after\<close>, \<open>within\<close>); the decision is shown to be exactly it, and
    traffic to keep the limits. \<open>Remove_Admission\<close> (\<open>clusterresourcequota-removeadmission.go\<close>): update
    and delete, and that a managed quota survives all admitted changes.
  \<^item> \<open>Controller\<close> (\<open>clusterresourcequota-controller.go\<close>): event mapping, \<open>Reconcile\<close>, the closure of
    \<open>CreateOrUpdate\<close> with the label map it shares with the ClusterResourceQuota, and what \<open>Setup\<close> declares
    to the controller builder. Shown: what is written, namespace by namespace, is the usage the ResourceQuotas show.
  \<^item> \<open>Interleaving\<close> and \<open>Ledger\<close>: requests, \<open>Sync\<close> and the world as the steps of a transition system. A
    request gets its pointer, checks under the mutex of the entry, and stores; \<open>Sync\<close>, which does not take
    that mutex, can come in between. \<open>Ledger\<close> has the abstract specification, an atomic ledger of
    usages, the forward simulation that holds when it does not, and what happens when it does.
  \<^item> \<open>Locking\<close>: the same goroutines with their locks - that of the cache and the mutex of every entry - and a turn
    for every lock operation, every call of the API server and every entry that \<open>Sync\<close> visits. Shown: no deadlock,
    and every request is answered under any schedule; which two goroutines can use a map at the same time, and
    the one overlap that \<open>Sync\<close> causes; without it, the goroutines refine the ledger name by name. One
    call alone is \<open>validate\<close>.
  \<^item> \<open>Cluster\<close>: the stored ResourceQuotas behind both webhooks, end to end. Status writes pass \<open>Handle\<close> of the
    status webhook, updates and deletions that of the remove webhook, and \<open>Sync\<close> gets a listing of what is
    stored. One operation is atomic here (\<open>Interleaving\<close> takes it
    apart). The API server is assumed to keep what it is documented to keep: a status write changes nothing but the
    status, an update nothing but the rest; whether it persists an admitted status write is part of the operation.
    Shown: the sum of the recorded usages stays within the limits while each namespace has one ResourceQuota of the
    ClusterResourceQuota and no write of a lower usage is admitted and then lost; what a lost write does; how a second
    ResourceQuota escapes.
  \<^item> \<open>Evaluator\<close> (\<open>resourcequota-evaluator.go\<close>): the scope \<open>NodeSelector\<close> and the decorated pod
    evaluator, which pods a quota with scopes counts. \<open>Validation\<close> (\<open>helper.go\<close>): an API server admission plugin served as a webhook.
  \<^item> \<open>Informer_Factory\<close> (\<open>generated/informers/externalversions\<close>): sharing, start, wait and shutdown of
    informers, with the chain of accessors from the factory to each informer. \<open>Adaptor\<close>
    (\<open>resourcequota-adaptor.go\<close>, and the transform of \<open>resourcequota.go\<close>): client and informer adaptors.
    \<open>Listers\<close> (\<open>generated/listers\<close> and the \<open>Lister\<close> methods): which objects each lister reads, and with
    which type assertion. \<open>Clientset\<close> (\<open>generated/clientset/versioned\<close>): the client constructors;
    \<open>Scheme\<close> (\<open>register.go\<close>, \<open>install.go\<close>, \<open>GetScheme\<close>): which kinds a scheme knows; \<open>Fake_Clientset\<close>
    (\<open>clientset/versioned/fake\<close>): the clientset over an object tracker.
  \<^item> \<open>Manager\<close> (\<open>manager.go\<close>, \<open>resourcequota.go\<close>, \<open>clusterresourcequota.go\<close>, \<open>cmd\<close>): options, start-up with
    all its error paths, the controller context; \<open>Resync\<close>: the random resync periods in \<open>float64\<close>
    arithmetic, between the configured period and its double. \<open>Deepcopy\<close> (\<open>zz_generated.deepcopy.go\<close>): the generated
    copies over a memory of cells.
  \<^item> This theory has the properties of several components together: a listing, \<open>Sync\<close> and the check; a cache that knows
    nothing; the controller's sum and the webhook's; a ResourceQuota from its creation through both webhooks.

  Bounds. There is no fuel: every loop of the code is over a finite list or map. \<open>RetryOnConflict\<close> is a
  parameter (locale \<open>retrier\<close>) whose law is that its result is that of its last run; its instance counts
  down the five steps of the code's backoff, which is positive, so the function runs at least
  once. \<open>CacheSyner_Start\<close> runs over the events it receives and tells a loop that waits from one that
  has returned.

  Not modelled. Log output. The insides of client-go and controller-runtime, which are not in the repository: the
  informers' caches, the object tracker, the generic lister, the REST client, the work queue of the
  controller builder, the web servers, and the quota plugin and quota controller of Kubernetes. They are parameters.
  What a map holds after two goroutines have used it at the same time, one of them to write: Go says nothing about it.
  The states in which this can happen are in \<open>Locking\<close>. What is left of the source are package clauses, imports, interface
  declarations and compile-time assertions, which have no behaviour, structs that only embed a type of
  client-go, and the command that prints the version.
\<close>

section \<open>Properties that span components\<close>

subsection \<open>Lemmas\<close>



text \<open>What an accepted check stores, as a total.\<close>

lemma accepted_total:
  assumes "status_env A stored" and "cache_ok c" and "validate A rq n skip (c, w) = (None, c', w')"
    and "Get_crq (sa_Client A) n w = (Inr crq, w1)"
  shows "\<exists>s. stored w' n = Some s \<and>
    (\<forall>k. rval (crq_Status_Used s) k = total_after (contents (view c n)) rq k) \<and>
    (skip \<or> within (contents (view c n)) rq (crq_Status_Hard crq))"
proof -
  have quota: "quota_arith (sa_Quota A)"
    using assms(1) by (simp add: status_env_def)
  obtain qs where "validate_locked A rq n skip (contents (view c n)) w = (None, qs, w')"
    using validate_eq [OF assms(2,3)] by metis
  then show ?thesis
    by (rule status_env.locked_ok [OF assms(1)]) (use assms(4) in \<open>auto simp: quota_arith.rval_new_total [OF quota]\<close>)
qed

subsection \<open>Properties\<close>

text \<open>
  C5. The cache, the webhook and the API server together. Take a ClusterResourceQuota that exists and of which
  some ResourceQuota is listed. Right after a \<open>Sync\<close>, an accepted status
  update of a ResourceQuota in one namespace makes the server hold, for every resource, the requested
  usage of that namespace plus the usage listed for every other namespace of the
  ClusterResourceQuota; and for a user who is not exempt that total is within each hard limit on a
  resource that the requested usage or any of the listed usages names.
\<close>
theorem admission_after_sync_counts_the_listing:
  assumes "status_env A stored" and "cache_ok c0" and "Sync now qs c0 w0 = (c, w)"
    and "listed (fst (now w0)) qs n = Some m"
    and "validate A rq n skip (c, w) = (None, c', w')" and "Get_crq (sa_Client A) n w = (Inr crq, w1)"
  shows "\<exists>s. stored w' n = Some s \<and>
    (\<forall>k. rval (crq_Status_Used s) k = rval (rq_Status_Used rq) k +
      (\<Sum>ns \<in> dom m - {rq_Namespace rq}. rval (rui_Used (the (m ns))) k)) \<and>
    (skip \<or> (\<forall>k h. map_of (crq_Status_Hard crq) k = Some h \<longrightarrow>
      map_of (rq_Status_Used rq) k \<noteq> None \<or> (\<exists>ns \<in> dom m. map_of (rui_Used (the (m ns))) k \<noteq> None) \<longrightarrow>
      rval (crq_Status_Used s) k \<le> h))"
proof -
  note sync = Sync_effect [OF assms(2,3)]
  have "usage c n = Some m"
    using sync(2) assms(4) by simp
  then obtain qs' where "view c n = Some qs'" and m: "map_of qs' = m"
    by (auto simp: usage_def)
  then have view: "contents (view c n) = qs'" and wf: "mwf qs'"
    using cache.view_wf [OF sync(1), of n] by simp_all
  have sum: "total_after qs' rq k = rval (rq_Status_Used rq) k +
      (\<Sum>ns \<in> dom m - {rq_Namespace rq}. rval (rui_Used (the (m ns))) k)" for k
    unfolding total_after_dom [OF wf] m by (auto simp: share_def m intro!: sum.cong split: option.split)
  have "(ns, the (m ns)) \<in> set qs'" if "ns \<in> dom m" for ns
    using that unfolding m [symmetric] by (auto intro: map_of_SomeD)
  then have named: "named qs' rq k" if "map_of (rq_Status_Used rq) k \<noteq> None \<or>
      (\<exists>ns \<in> dom m. map_of (rui_Used (the (m ns))) k \<noteq> None)" for k
    using that unfolding named_def by fastforce
  show ?thesis
    using accepted_total [OF assms(1) sync(1) assms(5,6)] sum named unfolding view within_def by metis
qed

definition sync_run :: "resource_quota_cache \<times> mem_world" where
  "sync_run = Sync (time_Now mem_client) [demo_quota ''team'' ''ns1'' 3] demo_cache status_world"

definition synced_admit :: "ref_error option \<times> resource_quota_cache \<times> mem_world" where
  "synced_admit = validate ref_status (demo_quota ''team'' ''ns2'' 3) ''team'' False sync_run"

text \<open>The cache had 7 for \<open>ns1\<close>, the listing has 3; with 3 for \<open>ns2\<close> the server then holds 6.\<close>

theorem admission_after_sync_counts_the_listing_witness:
  "\<exists>s. mem_stored (snd (snd synced_admit)) ''team'' = Some s \<and>
    rval (crq_Status_Used s) ''cpu'' = Quantity 6"
proof -
  define m where "m = (\<lambda>ns. if ns = ''ns1'' then Some (usage_info 500 (demo_quota ''team'' ''ns1'' 3)) else None)"
  have now: "fst (time_Now mem_client status_world) = 500"
    by (simp add: mem_client_def status_world_def)
  have listed: "listed (fst (time_Now mem_client status_world)) [demo_quota ''team'' ''ns1'' 3] ''team'' = Some m"
    by (auto simp: listed_def m_def now demo_quota_def mstr_def fun_eq_iff)
  have dom: "dom m - {''ns2''} = {''ns1''}"
    by (auto simp: m_def split: if_splits)
  have sync: "Sync (time_Now mem_client) [demo_quota ''team'' ''ns1'' 3] demo_cache status_world =
      (fst sync_run, snd sync_run)"
    by (simp add: sync_run_def)
  have "fst synced_admit = None"
    unfolding synced_admit_def by code_simp
  then have run: "validate ref_status (demo_quota ''team'' ''ns2'' 3) ''team'' False (fst sync_run, snd sync_run) =
      (None, fst (snd synced_admit), snd (snd synced_admit))"
    by (simp add: synced_admit_def prod_eq_iff)
  have "mw_crqs (snd sync_run) = mw_crqs status_world"
    unfolding sync_run_def by code_simp
  then have get: "Get_crq (sa_Client ref_status) ''team'' (snd sync_run) = (Inr (demo_crq 10), snd sync_run)"
    by (simp add: mem_client_def mem_get_def status_world_def demo_crq_def)
  obtain s where s: "mem_stored (snd (snd synced_admit)) ''team'' = Some s"
    and used: "\<And>k. rval (crq_Status_Used s) k = rval (rq_Status_Used (demo_quota ''team'' ''ns2'' 3)) k +
      (\<Sum>ns \<in> dom m - {rq_Namespace (demo_quota ''team'' ''ns2'' 3)}. rval (rui_Used (the (m ns))) k)"
    using admission_after_sync_counts_the_listing [OF status_env_ref demo_cache_ok sync listed run get] by blast
  have "rval (crq_Status_Used s) ''cpu'' = Quantity 6"
    unfolding used using dom by (simp add: demo_quota_def m_def usage_info_def)
  with s show ?thesis
    by blast
qed

text \<open>
  C19. A cache that does not know a ClusterResourceQuota - that of a process that has just started and has
  not had its first \<open>Sync\<close>, or of another replica - counts nothing for it. A request is then accepted
  exactly if it fits by itself and the status update works, whatever usage the status records, and
  what the server holds afterwards is the usage of this one namespace alone: the sum that was
  there is overwritten.
\<close>
theorem unsynced_cache_forgets_usage:
  assumes "status_env A stored" and "cache_ok c" and "view c n = None"
    and "Get_crq (sa_Client A) n w = (Inr crq, w1)" and "validate A rq n False (c, w) = (r, c', w')"
  shows "(if \<forall>k h u. map_of (crq_Status_Hard crq) k = Some h \<longrightarrow> map_of (rq_Status_Used rq) k = Some u \<longrightarrow> u \<le> h
      then \<exists>used. r = fst (Status_Update (sa_Client A) (updateClusterResourceQuotaStatusUsed crq rq used) w1) \<and>
        (\<forall>k. rval used k = rval (rq_Status_Used rq) k)
      else IsForbidden (sa_Errors A) (the r)) \<and>
    (r = None \<longrightarrow> (\<exists>s. stored w' n = Some s \<and>
      (\<forall>k. rval (crq_Status_Used s) k = rval (rq_Status_Used rq) k)))"
proof -
  have errs: "api_errors (sa_Errors A)" and quota: "quota_arith (sa_Quota A)"
    using assms(1) by (simp_all add: status_env_def)
  obtain qs2 where body: "validate_locked A rq n False [] w = (r, qs2, w')"
    using validate_eq [OF assms(2,5)] assms(3) contents_simps(1) by metis
  have total: "total_after [] rq k = rval (rq_Status_Used rq) k" for k
    by (simp add: total_after_def quotas_total_def share_def)
  have alone: "within [] rq (crq_Status_Hard crq) \<longleftrightarrow>
      (\<forall>k h u. map_of (crq_Status_Hard crq) k = Some h \<longrightarrow> map_of (rq_Status_Used rq) k = Some u \<longrightarrow> u \<le> h)"
    by (fastforce simp: within_def named_def total rval_def)
  have decision: "if within [] rq (crq_Status_Hard crq)
      then \<exists>used. r = fst (Status_Update (sa_Client A) (updateClusterResourceQuotaStatusUsed crq rq used) w1) \<and>
        (\<forall>k. rval used k = rval (rq_Status_Used rq) k)
      else IsForbidden (sa_Errors A) (the r)"
  proof (cases "within [] rq (crq_Status_Hard crq)")
    case True
    then have "r = fst (Status_Update (sa_Client A)
        (updateClusterResourceQuotaStatusUsed crq rq (new_total (sa_Quota A) [] rq)) w1)"
      using body unfolding status_env.locked_found [OF assms(1,4)] by (auto split: prod.splits option.splits)
    with True show ?thesis
      using quota_arith.rval_new_total [OF quota] total by auto
  next
    case False
    then show ?thesis
      using body status_env.locked_refused [OF assms(1,4) False] api_errors.forbidden_new [OF errs] by auto
  qed
  have "\<exists>s. stored w' n = Some s \<and> (\<forall>k. rval (crq_Status_Used s) k = rval (rq_Status_Used rq) k)" if "r = None"
    using body [unfolded that]
  proof (rule status_env.locked_ok [OF assms(1)])
    fix crq1
    assume "\<exists>s. stored w' n = Some s \<and> crq_Status s = crq_Status
        (updateClusterResourceQuotaStatusUsed crq1 rq (new_total (sa_Quota A) [] rq))"
    then show ?thesis
      by (auto simp: quota_arith.rval_new_total [OF quota] total)
  qed (simp add: assms(4))
  with decision show ?thesis
    unfolding alone by blast
qed

definition restarted :: "ref_error option \<times> resource_quota_cache \<times> mem_world" where
  "restarted = validate ref_status (demo_quota ''team'' ''ns2'' 9) ''team'' False
     (NewResourceQuotaCache, status_world)"

text \<open>The status records 7 of 10 for \<open>ns1\<close>; a fresh process admits 9 for \<open>ns2\<close> and writes 9.\<close>

theorem unsynced_cache_forgets_usage_witness:
  "fst restarted = None \<and> (\<exists>s. mem_stored (snd (snd restarted)) ''team'' = Some s \<and>
    rval (crq_Status_Used s) ''cpu'' = Quantity 9)"
proof -
  have none: "fst restarted = None"
    unfolding restarted_def by code_simp
  then have run: "validate ref_status (demo_quota ''team'' ''ns2'' 9) ''team'' False
      (NewResourceQuotaCache, status_world) = (None, fst (snd restarted), snd (snd restarted))"
    by (simp add: restarted_def prod_eq_iff)
  have unknown: "view NewResourceQuotaCache ''team'' = None"
    by (simp add: view_def NewResourceQuotaCache_def)
  obtain s where "mem_stored (snd (snd restarted)) ''team'' = Some s"
    and "\<forall>k. rval (crq_Status_Used s) k = rval (rq_Status_Used (demo_quota ''team'' ''ns2'' 9)) k"
    using unsynced_cache_forgets_usage [OF status_env_ref cache_ok_New unknown demo_get run] by blast
  then show ?thesis
    using none by (simp add: demo_quota_def)
qed







text \<open>
  C21. The controller and the two webhooks together. A ResourceQuota that the controller has made for a
  ClusterResourceQuota stays attached to it, through every sequence of updates and deletes that the
  remove webhook admits while the ClusterResourceQuota is alive; and a status write of the object it
  has become is admitted only if the check against that very ClusterResourceQuota passes.
\<close>
theorem controller_quota_stays_checked:
  assumes "ownership (rc_SetOwnerReference R)" and "mutate R (crq, q) = (None, crq', q1)"
    and "crq_Name crq \<noteq> []" and "decodes M enc" and "alive M (crq_Name crq)"
    and "(admitted_step M enc)\<^sup>*\<^sup>* (Some q1) s"
  shows "\<exists>q2. s = Some q2 \<and> managed_by (rq_Labels q2) = crq_Name crq \<and>
    (\<forall>A req st. sa_Decode A req = Inr q2 \<longrightarrow> is_allowed (fst (Status_Handle A req st)) \<longrightarrow>
      fst (sa_RetryOnConflict A status_backoff (validate A q2 (crq_Name crq) (exempt req)) st) = None)"
proof -
  have "q1 = snd (snd (mutate R (crq, q)))"
    using assms(2) by simp
  then have "attached (crq_Name crq) (Some q1)"
    by (simp add: mutate_quota [OF assms(1)] attached_def mstr_def gomap_simps)
  with assms(6) have "attached (crq_Name crq) s"
  proof (induction rule: rtranclp_induct)
    case (step y z)
    then show ?case
      using admitted_step_attached [OF assms(4,5,3)] by blast
  qed simp
  then obtain q2 where "s = Some q2" and "managed_by (rq_Labels q2) = crq_Name crq"
    by (auto simp: attached_def)
  then show ?thesis
    using assms(3) by (auto simp: Status_Handle_eq split: prod.splits option.splits)
qed

definition made_quota :: resource_quota where
  "made_quota = snd (snd (mutate ref_reconciler (team_crq, empty_resource_quota)))"

theorem controller_quota_stays_checked_witness:
  "managed_by (rq_Labels (made_quota\<lparr>rq_Spec := empty_rq_spec\<rparr>)) = ''team''"
proof -
  have made: "mutate ref_reconciler (team_crq, empty_resource_quota) =
      (None, fst (snd (mutate ref_reconciler (team_crq, empty_resource_quota))), made_quota)"
    unfolding made_quota_def by code_simp
  have name: "crq_Name team_crq = ''team''"
    by (simp add: team_crq_def demo_crq_def)
  have label: "managed_by (rq_Labels made_quota) = ''team''"
    unfolding made_quota_def by code_simp
  have "decodes ref_remove id"
    by (simp add: decodes_def ref_remove_def ref_decode_def)
  moreover have "alive ref_remove (crq_Name team_crq)"
    by (simp add: alive_def ref_remove_def remove_client_def demo_crq_def empty_object_meta_def)
  moreover have "is_allowed (fst (Remove_Handle ref_remove
      (update_request id admin_user made_quota (made_quota\<lparr>rq_Spec := empty_rq_spec\<rparr>)) status_world))"
    by (simp add: Remove_Handle_def update_allowed_iff decode_old_def update_request_def ref_remove_def ref_decode_def)
  then have "(admitted_step ref_remove id)\<^sup>*\<^sup>* (Some made_quota) (Some (made_quota\<lparr>rq_Spec := empty_rq_spec\<rparr>))"
    by (intro r_into_rtranclp admitted_step.update)
  ultimately show ?thesis
    using controller_quota_stays_checked [OF _ made, of ref_remove id "Some (made_quota\<lparr>rq_Spec := empty_rq_spec\<rparr>)"]
      name ref_owner.ownership_axioms by auto
qed

end
